theory Spec2Isabelle
  imports Complex_Main "HOL-Library.Sublist"
begin

section \<open>Conventions of the embedding\<close>

text \<open>
  The planning core of the optimization service (\<^verbatim>\<open>src/optimization-service/solver\<close>) is
  embedded function by function. Python \<^verbatim>\<open>float\<close> values are modelled by exact reals (no
  binary rounding error, no \<^verbatim>\<open>ValueError\<close> from \<^verbatim>\<open>math.sqrt\<close> or \<^verbatim>\<open>math.asin\<close>, whose
  arguments lie in their domains in exact arithmetic); Python \<^verbatim>\<open>int\<close> by \<^typ>\<open>int\<close>;
  \<^verbatim>\<open>str\<close> by \<^typ>\<open>string\<close>; \<^verbatim>\<open>X | None\<close> by \<^typ>\<open>'a option\<close>; \<^verbatim>\<open>set[str]\<close> by
  \<^typ>\<open>string set\<close>. Record fields carry a prefix naming their class, since several
  classes share field names. Display-only fields that no modelled function reads
  (addresses, opponent, season phase, ...) are left out of the records. The dash of
  three message strings, which is not an ASCII character, is written as a hyphen.
\<close>

subsection \<open>Python built-ins\<close>

text \<open>
  \<^verbatim>\<open>round(x, n)\<close> on a float: the nearest multiple of \<open>10^-n\<close>, a tie going to the even
  neighbour.
\<close>

definition py_round_int :: "real \<Rightarrow> int" where
  "py_round_int x =
     (let f = \<lfloor>x\<rfloor>; d = x - of_int f
      in if d < 1 / 2 then f else if 1 / 2 < d then f + 1 else if even f then f else f + 1)"

definition py_round :: "real \<Rightarrow> nat \<Rightarrow> real" where
  "py_round x n = of_int (py_round_int (x * 10 ^ n)) / 10 ^ n"

text \<open>\<^verbatim>\<open>int(x)\<close> on a float truncates towards zero.\<close>

definition py_int_of_float :: "real \<Rightarrow> int" where
  "py_int_of_float x = (if 0 \<le> x then \<lfloor>x\<rfloor> else \<lceil>x\<rceil>)"

text \<open>Truthiness of \<^verbatim>\<open>str | None\<close>: \<^verbatim>\<open>None\<close> and the empty string are falsy.\<close>

fun truthy_str :: "string option \<Rightarrow> bool" where
  "truthy_str None = False"
| "truthy_str (Some s) = (s \<noteq> [])"

text \<open>
  The only exception the planning core can raise is an out-of-range list access; it is
  a value of the model.
\<close>

datatype py_error = IndexError

fun fold_err :: "('a \<Rightarrow> 's \<Rightarrow> py_error + 's) \<Rightarrow> 'a list \<Rightarrow> 's \<Rightarrow> py_error + 's" where
  "fold_err f [] s = Inr s"
| "fold_err f (x # xs) s = (case f x s of Inl e \<Rightarrow> Inl e | Inr s' \<Rightarrow> fold_err f xs s')"

text \<open>
  \<^verbatim>\<open>str(n)\<close> of an integer, as the f-strings print it (\<open>digit_str\<close> is only applied to
  a number below 10).
\<close>

definition digit_str :: "nat \<Rightarrow> string" where
  "digit_str n = [''0123456789'' ! n]"

fun str_nat :: "nat \<Rightarrow> string" where
  "str_nat n = (if n < 10 then digit_str n else str_nat (n div 10) @ digit_str (n mod 10))"

declare str_nat.simps [simp del]

definition str_int :: "int \<Rightarrow> string" where
  "str_int i = (if i < 0 then CHR ''-'' # str_nat (nat (- i)) else str_nat (nat i))"

text \<open>
  \<^verbatim>\<open>s.lower()\<close> on ASCII letters (other characters are left as they are) and the
  substring test \<^verbatim>\<open>sub in s\<close>.
\<close>

definition lower_char :: "char \<Rightarrow> char" where
  "lower_char c =
     (case map_of (zip ''ABCDEFGHIJKLMNOPQRSTUVWXYZ'' ''abcdefghijklmnopqrstuvwxyz'') c of
        None \<Rightarrow> c
      | Some l \<Rightarrow> l)"

definition py_lower :: "string \<Rightarrow> string" where
  "py_lower s = map lower_char s"

fun py_in :: "string \<Rightarrow> string \<Rightarrow> bool" where
  "py_in sub [] = (sub = [])"
| "py_in sub (c # cs) = (prefix sub (c # cs) \<or> py_in sub cs)"

text \<open>
  \<^verbatim>\<open>min(xs, key=f)\<close> on a non-empty list (the first minimal element), and the stable
  descending sort \<^verbatim>\<open>xs.sort(key=f, reverse=True)\<close>; the comparison \<open>lt\<close> of the keys is a
  parameter because a key may be \<^verbatim>\<open>float("inf")\<close>.
\<close>

fun py_min_key :: "('a \<Rightarrow> real) \<Rightarrow> 'a \<Rightarrow> 'a list \<Rightarrow> 'a" where
  "py_min_key f best [] = best"
| "py_min_key f best (x # xs) = py_min_key f (if f x < f best then x else best) xs"

fun insort_desc :: "('k \<Rightarrow> 'k \<Rightarrow> bool) \<Rightarrow> ('a \<Rightarrow> 'k) \<Rightarrow> 'a \<Rightarrow> 'a list \<Rightarrow> 'a list" where
  "insort_desc lt f x [] = [x]"
| "insort_desc lt f x (y # ys) =
     (if lt (f x) (f y) then y # insort_desc lt f x ys else x # y # ys)"

definition sort_desc :: "('k \<Rightarrow> 'k \<Rightarrow> bool) \<Rightarrow> ('a \<Rightarrow> 'k) \<Rightarrow> 'a list \<Rightarrow> 'a list" where
  "sort_desc lt f xs = foldr (insort_desc lt f) xs []"

text \<open>A float that may be \<^verbatim>\<open>float("inf")\<close>: \<open>None\<close> is infinity.\<close>

fun lt_inf :: "real option \<Rightarrow> real option \<Rightarrow> bool" where
  "lt_inf (Some x) (Some y) = (x < y)"
| "lt_inf (Some x) None = True"
| "lt_inf None _ = False"

section \<open>Data model (\<^verbatim>\<open>data_loader.py\<close>)\<close>

record LatLng =
  lat :: real
  lng :: real
  label :: string

text \<open>
  \<^verbatim>\<open>LatLng.__eq__\<close> compares both axes rounded to 6 decimals. \<^verbatim>\<open>LatLng.__hash__\<close> is
  Python's tuple hash of the same two rounded values; the built-in hash is a parameter.
\<close>

definition LatLng_eq :: "LatLng \<Rightarrow> LatLng \<Rightarrow> bool" where
  "LatLng_eq a b =
     (py_round (lat a) 6 = py_round (lat b) 6 \<and> py_round (lng a) 6 = py_round (lng b) 6)"

definition LatLng_hash :: "(real \<times> real \<Rightarrow> int) \<Rightarrow> LatLng \<Rightarrow> int" where
  "LatLng_hash tuple_hash a = tuple_hash (py_round (lat a) 6, py_round (lng a) 6)"

record Hub =
  hub_id :: string
  hub_name :: string
  hub_lat :: real
  hub_lng :: real

definition Hub_location :: "Hub \<Rightarrow> LatLng" where
  "Hub_location h = \<lparr>lat = hub_lat h, lng = hub_lng h, label = hub_name h\<rparr>"

record Venue =
  ven_id :: string
  ven_name :: string
  ven_lat :: "real option"
  ven_lng :: "real option"

definition Venue_location :: "Venue \<Rightarrow> LatLng option" where
  "Venue_location v =
     (case ven_lat v of
        None \<Rightarrow> None
      | Some la \<Rightarrow>
          (case ven_lng v of
             None \<Rightarrow> None
           | Some lo \<Rightarrow> Some \<lparr>lat = la, lng = lo, label = ven_name v\<rparr>))"

record Game =
  game_id :: string
  game_customer_id :: string
  game_customer_name :: string
  game_venue_id :: "string option"
  game_venue :: "Venue option"

record ContractItem =
  ci_customer_id :: string
  ci_customer_name :: string
  ci_asset_type :: string
  ci_model_version :: "string option"
  ci_quantity :: int
  ci_branding_spec :: "string option"

record Asset =
  asset_id :: string
  asset_serial_number :: string
  asset_type :: string
  asset_model_version :: "string option"
  asset_condition :: string
  asset_status :: string
  asset_current_hub :: "string option"
  asset_current_venue_id :: "string option"
  asset_weight_lbs :: "real option"
  asset_current_branding :: "string option"

record Vehicle =
  veh_id :: string
  veh_name :: string
  veh_home_hub_id :: string
  veh_capacity_lbs :: "int option"
  veh_status :: string

record Person =
  per_id :: string
  per_name :: string
  per_role :: string
  per_home_hub_id :: string

record BrandingTask =
  bt_asset_id :: string
  bt_to_branding :: "string option"
  bt_status :: string

record WeekData =
  wd_week_number :: int
  wd_games :: "Game list"
  wd_contract_items :: "ContractItem list"
  wd_assets :: "Asset list"
  wd_vehicles :: "Vehicle list"
  wd_personnel :: "Person list"
  wd_hubs :: "Hub list"
  wd_branding_tasks :: "BrandingTask list"

subsection \<open>The methods of \<^verbatim>\<open>WeekData\<close>\<close>

fun game_venues_loop :: "Game list \<Rightarrow> string set \<Rightarrow> Venue list" where
  "game_venues_loop [] seen = []"
| "game_venues_loop (g # gs) seen =
     (case game_venue g of
        None \<Rightarrow> game_venues_loop gs seen
      | Some v \<Rightarrow>
          (case game_venue_id g of
             None \<Rightarrow> game_venues_loop gs seen
           | Some vid \<Rightarrow>
               if vid \<noteq> [] \<and> vid \<notin> seen then v # game_venues_loop gs (insert vid seen)
               else game_venues_loop gs seen))"

definition game_venues :: "WeekData \<Rightarrow> Venue list" where
  "game_venues wd = game_venues_loop (wd_games wd) {}"

definition hub_locations :: "WeekData \<Rightarrow> LatLng list" where
  "hub_locations wd = map Hub_location (wd_hubs wd)"

fun unique_locations :: "LatLng list \<Rightarrow> (real \<times> real) set \<Rightarrow> LatLng list" where
  "unique_locations [] seen = []"
| "unique_locations (l # ls) seen =
     (let key = (py_round (lat l) 6, py_round (lng l) 6)
      in if key \<notin> seen then l # unique_locations ls (insert key seen)
         else unique_locations ls seen)"

text \<open>
  \<^verbatim>\<open>get_all_locations\<close>: the hubs, then the located game venues, one location per
  rounded coordinate pair (both loops share the set \<^verbatim>\<open>seen\<close>).
\<close>

definition get_all_locations :: "WeekData \<Rightarrow> LatLng list" where
  "get_all_locations wd =
     unique_locations
       (map Hub_location (wd_hubs wd) @ List.map_filter Venue_location (game_venues wd)) {}"

definition demands_for_game :: "WeekData \<Rightarrow> Game \<Rightarrow> ContractItem list" where
  "demands_for_game wd game =
     filter (\<lambda>ci. ci_customer_id ci = game_customer_id game) (wd_contract_items wd)"

definition assets_at_hub :: "WeekData \<Rightarrow> string \<Rightarrow> Asset list" where
  "assets_at_hub wd hid =
     filter (\<lambda>a. asset_status a = ''at_hub'' \<and> asset_current_hub a = Some hid) (wd_assets wd)"

definition assets_at_venue :: "WeekData \<Rightarrow> string \<Rightarrow> Asset list" where
  "assets_at_venue wd vid =
     filter (\<lambda>a. asset_status a = ''on_site'' \<and> asset_current_venue_id a = Some vid)
       (wd_assets wd)"

definition available_vehicles_at_hub :: "WeekData \<Rightarrow> string \<Rightarrow> Vehicle list" where
  "available_vehicles_at_hub wd hid =
     filter (\<lambda>v. veh_home_hub_id v = hid \<and> veh_status v = ''active'') (wd_vehicles wd)"

definition available_personnel_at_hub :: "WeekData \<Rightarrow> string \<Rightarrow> Person list" where
  "available_personnel_at_hub wd hid =
     filter (\<lambda>p. per_home_hub_id p = hid) (wd_personnel wd)"

definition nearest_hub :: "WeekData \<Rightarrow> Venue \<Rightarrow> Hub option" where
  "nearest_hub wd venue =
     (case Venue_location venue of
        None \<Rightarrow> None
      | Some loc \<Rightarrow>
          (case wd_hubs wd of
             [] \<Rightarrow> None
           | h # hs \<Rightarrow>
               Some (py_min_key
                      (\<lambda>h. (hub_lat h - lat loc) ^ 2 + (hub_lng h - lng loc) ^ 2) h hs)))"

section \<open>Distance matrix (\<^verbatim>\<open>distance_matrix.py\<close>)\<close>

record DistanceEntry =
  de_distance_miles :: real
  de_duration_minutes :: real

text \<open>
  The table \<^verbatim>\<open>_data\<close> of \<open>n \<times> n\<close> optional entries is a map from index pairs, \<open>n\<close> being
  the number of locations; indices are naturals (no caller passes a negative one).
\<close>

record DistanceMatrix =
  dm_locations :: "LatLng list"
  dm_data :: "nat \<times> nat \<Rightarrow> DistanceEntry option"

definition DistanceMatrix_init :: "LatLng list \<Rightarrow> DistanceMatrix" where
  "DistanceMatrix_init locs =
     \<lparr>dm_locations = locs,
      dm_data = (\<lambda>(i, j). if i < length locs \<and> j < length locs \<and> i = j
                           then Some \<lparr>de_distance_miles = 0, de_duration_minutes = 0\<rparr>
                           else None)\<rparr>"

text \<open>
  The haversine distance in miles; \<^verbatim>\<open>clustering.py\<close>, \<^verbatim>\<open>lookahead.py\<close>,
  \<^verbatim>\<open>scoring.py\<close> and \<^verbatim>\<open>distance_matrix.py\<close> each carry a copy of the same formula.
\<close>

definition radians :: "real \<Rightarrow> real" where
  "radians x = x * pi / 180"

definition haversine_miles4 :: "real \<Rightarrow> real \<Rightarrow> real \<Rightarrow> real \<Rightarrow> real" where
  "haversine_miles4 lat1 lng1 lat2 lng2 =
     (let rlat1 = radians lat1; rlat2 = radians lat2;
          dlat = radians (lat2 - lat1);
          dlng = radians (lng2 - lng1);
          h = (sin (dlat / 2)) ^ 2 + cos rlat1 * cos rlat2 * (sin (dlng / 2)) ^ 2
      in 2 * 3959 * arcsin (sqrt h))"

definition haversine_miles :: "LatLng \<Rightarrow> LatLng \<Rightarrow> real" where
  "haversine_miles a b = haversine_miles4 (lat a) (lng a) (lat b) (lng b)"

definition haversine_estimate :: "LatLng \<Rightarrow> LatLng \<Rightarrow> DistanceEntry" where
  "haversine_estimate a b =
     (let distance = haversine_miles a b;
          road_distance = distance * 13 / 10;
          duration = (road_distance / 50) * 60
      in \<lparr>de_distance_miles = py_round road_distance 1,
          de_duration_minutes = py_round duration 1\<rparr>)"

definition dm_get :: "DistanceMatrix \<Rightarrow> nat \<Rightarrow> nat \<Rightarrow> py_error + DistanceEntry" where
  "dm_get m i j =
     (if i < length (dm_locations m) \<and> j < length (dm_locations m) then
        (case dm_data m (i, j) of
           None \<Rightarrow> Inr (haversine_estimate (dm_locations m ! i) (dm_locations m ! j))
         | Some entry \<Rightarrow> Inr entry)
      else Inl IndexError)"

definition dm_set :: "DistanceMatrix \<Rightarrow> nat \<Rightarrow> nat \<Rightarrow> DistanceEntry \<Rightarrow> py_error + DistanceMatrix" where
  "dm_set m i j entry =
     (if i < length (dm_locations m) \<and> j < length (dm_locations m)
      then Inr (m\<lparr>dm_data := (dm_data m)((i, j) \<mapsto> entry)\<rparr>)
      else Inl IndexError)"

definition distance_miles :: "DistanceMatrix \<Rightarrow> nat \<Rightarrow> nat \<Rightarrow> py_error + real" where
  "distance_miles m i j =
     (case dm_get m i j of Inl e \<Rightarrow> Inl e | Inr entry \<Rightarrow> Inr (de_distance_miles entry))"

definition duration_minutes :: "DistanceMatrix \<Rightarrow> nat \<Rightarrow> nat \<Rightarrow> py_error + real" where
  "duration_minutes m i j =
     (case dm_get m i j of Inl e \<Rightarrow> Inl e | Inr entry \<Rightarrow> Inr (de_duration_minutes entry))"

fun location_index_from :: "LatLng list \<Rightarrow> LatLng \<Rightarrow> nat \<Rightarrow> nat option" where
  "location_index_from [] location i = None"
| "location_index_from (loc # locs) location i =
     (if LatLng_eq loc location then Some i else location_index_from locs location (Suc i))"

definition location_index :: "DistanceMatrix \<Rightarrow> LatLng \<Rightarrow> nat option" where
  "location_index m location = location_index_from (dm_locations m) location 0"

text \<open>
  \<^verbatim>\<open>get_distance_matrix\<close>. The two network reads are parameters: \<open>cached\<close> is the
  dictionary returned by \<^verbatim>\<open>_check_cache\<close> (in insertion order) and \<open>provider\<close> is the call of
  the external distance service made by \<^verbatim>\<open>_fetch_from_google_maps\<close>, which is skipped when
  the API key is empty. The cache write-back has no effect on the result.
\<close>

type_synonym api_result = "LatLng \<times> LatLng \<times> real \<times> real"

definition fetch_from_google_maps ::
  "string \<Rightarrow> (LatLng list \<Rightarrow> LatLng list \<Rightarrow> api_result list)
     \<Rightarrow> LatLng list \<Rightarrow> LatLng list \<Rightarrow> api_result list" where
  "fetch_from_google_maps api_key provider origins destinations =
     (if api_key = [] then [] else provider origins destinations)"

definition missing_pairs :: "DistanceMatrix \<Rightarrow> (nat \<times> nat) list" where
  "missing_pairs m =
     (let n = length (dm_locations m)
      in concat (map (\<lambda>i. map (\<lambda>j. (i, j))
                              (filter (\<lambda>j. i \<noteq> j \<and> dm_data m (i, j) = None) [0..<n]))
                     [0..<n]))"

definition store_api_result :: "api_result \<Rightarrow> DistanceMatrix \<Rightarrow> py_error + DistanceMatrix" where
  "store_api_result r m =
     (case r of (origin_loc, dest_loc, miles, minutes) \<Rightarrow>
        (case location_index m origin_loc of
           None \<Rightarrow> Inr m
         | Some i \<Rightarrow>
             (case location_index m dest_loc of
                None \<Rightarrow> Inr m
              | Some j \<Rightarrow>
                  dm_set m i j \<lparr>de_distance_miles = miles, de_duration_minutes = minutes\<rparr>)))"

definition fill_estimate :: "nat \<times> nat \<Rightarrow> DistanceMatrix \<Rightarrow> py_error + DistanceMatrix" where
  "fill_estimate p m =
     (case p of (i, j) \<Rightarrow>
        dm_set m i j (haversine_estimate (dm_locations m ! i) (dm_locations m ! j)))"

definition get_distance_matrix ::
  "((nat \<times> nat) \<times> DistanceEntry) list \<Rightarrow> string
     \<Rightarrow> (LatLng list \<Rightarrow> LatLng list \<Rightarrow> api_result list)
     \<Rightarrow> LatLng list \<Rightarrow> py_error + DistanceMatrix" where
  "get_distance_matrix cached api_key provider locs =
     (let matrix = DistanceMatrix_init locs; n = length locs
      in if n \<le> 1 then Inr matrix
         else
           (case fold_err (\<lambda>((i, j), entry) m. dm_set m i j entry) cached matrix of
              Inl e \<Rightarrow> Inl e
            | Inr m1 \<Rightarrow>
                (let missing = missing_pairs m1
                 in if missing = [] then Inr m1
                    else
                      (let missing_origins =
                             map (\<lambda>i. locs ! i) (sort (remdups (map fst missing)));
                           missing_dests =
                             map (\<lambda>j. locs ! j) (sort (remdups (map snd missing)));
                           api_results =
                             fetch_from_google_maps api_key provider
                               missing_origins missing_dests
                       in (case fold_err store_api_result api_results m1 of
                             Inl e \<Rightarrow> Inl e
                           | Inr m2 \<Rightarrow> fold_err fill_estimate (missing_pairs m2) m2)))))"

section \<open>Constraints (\<^verbatim>\<open>constraints.py\<close>)\<close>

text \<open>
  The time windows (\<^verbatim>\<open>Demand.time_window\<close>, \<^verbatim>\<open>Constraints.time_windows\<close>) and the per-hub
  counts are written by \<^verbatim>\<open>build_constraints\<close> and read by no function of the planner;
  they are not part of the records.
\<close>

record Demand =
  dem_game :: Game
  dem_venue_id :: string
  dem_customer_id :: string
  dem_customer_name :: string
  dem_items :: "ContractItem list"
  dem_total_quantity :: int
  dem_total_weight_lbs :: real

record Constraints =
  demands :: "Demand list"
  max_drive_hrs :: int
  setup_buffer_hours :: real
  teardown_buffer_hours :: real
  weight_minimize_miles :: real
  weight_minimize_vehicles :: real
  weight_prefer_closest_hub :: real
  weight_minimize_rebranding :: real
  weight_geographic_clustering :: real
  blocked_asset_ids :: "string set"

text \<open>The dataclass defaults of \<^verbatim>\<open>Constraints()\<close>.\<close>

definition Constraints_default :: Constraints where
  "Constraints_default =
     \<lparr>demands = [], max_drive_hrs = 11, setup_buffer_hours = 4, teardown_buffer_hours = 3,
      weight_minimize_miles = 1, weight_minimize_vehicles = 8 / 10,
      weight_prefer_closest_hub = 6 / 10, weight_minimize_rebranding = 7 / 10,
      weight_geographic_clustering = 5 / 10, blocked_asset_ids = {}\<rparr>"

definition is_relaxed :: "Constraints \<Rightarrow> bool" where
  "is_relaxed c =
     (weight_minimize_miles c < 1
      \<or> weight_minimize_vehicles c < 8 / 10
      \<or> weight_prefer_closest_hub c < 6 / 10
      \<or> weight_minimize_rebranding c < 7 / 10)"

text \<open>The table \<^verbatim>\<open>weight_estimates\<close> with its default of 100 lb.\<close>

definition weight_estimate :: "string \<Rightarrow> int" where
  "weight_estimate t =
     (if t = ''heated_bench'' then 150
      else if t = ''cooling_bench'' then 150
      else if t = ''hybrid_bench'' then 150
      else if t = ''dragon_shader'' then 200
      else if t = ''heated_foot_deck'' then 50
      else 100)"

text \<open>
  \<^verbatim>\<open>build_constraints\<close>; the two buffers come from the configuration, whose defaults
  are 4 and 3 hours.
\<close>

definition build_demand :: "WeekData \<Rightarrow> Game \<Rightarrow> Demand option" where
  "build_demand wd game =
     (let items = demands_for_game wd game
      in if items = [] \<or> \<not> truthy_str (game_venue_id game) then None
         else Some
           \<lparr>dem_game = game,
            dem_venue_id = (case game_venue_id game of Some vid \<Rightarrow> vid | None \<Rightarrow> []),
            dem_customer_id = game_customer_id game,
            dem_customer_name = game_customer_name game,
            dem_items = items,
            dem_total_quantity = sum_list (map ci_quantity items),
            dem_total_weight_lbs =
              of_int (sum_list (map (\<lambda>item. ci_quantity item * weight_estimate (ci_asset_type item))
                                     items))\<rparr>)"

definition blocked_of_tasks :: "BrandingTask list \<Rightarrow> string set" where
  "blocked_of_tasks tasks =
     fold (\<lambda>bt blocked.
             if bt_status bt = ''pending'' \<or> bt_status bt = ''in_progress''
             then insert (bt_asset_id bt) blocked else blocked)
          tasks {}"

definition build_constraints :: "WeekData \<Rightarrow> Constraints" where
  "build_constraints wd =
     Constraints_default
       \<lparr>demands := List.map_filter (build_demand wd) (wd_games wd),
        blocked_asset_ids := blocked_of_tasks (wd_branding_tasks wd)\<rparr>"

definition check_capacity_weight :: "Vehicle \<Rightarrow> real \<Rightarrow> bool" where
  "check_capacity_weight vehicle total_weight =
     (case veh_capacity_lbs vehicle of
        None \<Rightarrow> True
      | Some cap \<Rightarrow> if cap = 0 then True else total_weight \<le> of_int cap)"

fun completed_task_for :: "Asset \<Rightarrow> string option \<Rightarrow> BrandingTask list \<Rightarrow> bool" where
  "completed_task_for asset spec [] = False"
| "completed_task_for asset spec (bt # bts) =
     (if bt_asset_id bt = asset_id asset \<and> bt_to_branding bt = spec
         \<and> bt_status bt = ''completed''
      then True else completed_task_for asset spec bts)"

definition check_branding ::
  "Asset \<Rightarrow> string \<Rightarrow> string option \<Rightarrow> BrandingTask list \<Rightarrow> bool" where
  "check_branding asset customer_name branding_spec branding_tasks =
     (if \<not> truthy_str branding_spec then True
      else if \<not> truthy_str (asset_current_branding asset) then True
      else if asset_current_branding asset = branding_spec then True
      else completed_task_for asset branding_spec branding_tasks)"

definition match_asset_to_demand ::
  "Asset \<Rightarrow> ContractItem \<Rightarrow> string set \<Rightarrow> BrandingTask list \<Rightarrow> bool" where
  "match_asset_to_demand asset demand_item blocked_ids branding_tasks =
     (if asset_id asset \<in> blocked_ids then False
      else if asset_condition asset = ''out_of_service''
              \<or> asset_condition asset = ''needs_repair'' then False
      else if asset_type asset \<noteq> ci_asset_type demand_item then False
      else if truthy_str (ci_model_version demand_item)
              \<and> asset_model_version asset \<noteq> ci_model_version demand_item then False
      else if \<not> check_branding asset (ci_customer_name demand_item)
                  (ci_branding_spec demand_item) branding_tasks then False
      else True)"

section \<open>Clustering (\<^verbatim>\<open>clustering.py\<close>)\<close>

record VenueCluster =
  cl_venues :: "Venue list"
  cl_total_demand_weight :: real
  cl_ordered_venue_ids :: "string list"

definition VenueCluster_of :: "Venue list \<Rightarrow> VenueCluster" where
  "VenueCluster_of vs =
     \<lparr>cl_venues = vs, cl_total_demand_weight = 0, cl_ordered_venue_ids = []\<rparr>"

definition nearest_hub_distance :: "Venue \<Rightarrow> LatLng list \<Rightarrow> real option" where
  "nearest_hub_distance venue hubs =
     (case Venue_location venue of
        None \<Rightarrow> None
      | Some loc \<Rightarrow>
          (case hubs of
             [] \<Rightarrow> None
           | h # hs \<Rightarrow> Some (fold min (map (haversine_miles loc) hs) (haversine_miles loc h))))"

definition enumerate :: "'a list \<Rightarrow> (nat \<times> 'a) list" where
  "enumerate xs = zip [0..<length xs] xs"

text \<open>
  \<^verbatim>\<open>_order_stops_nn\<close>: the distance to a candidate (matrix miles when both indices
  exist, else haversine), the scan for the nearest remaining venue, and the
  \<^verbatim>\<open>while remaining\<close> loop, which pops one venue per round.
\<close>

definition nn_distance :: "DistanceMatrix \<Rightarrow> LatLng \<Rightarrow> LatLng \<Rightarrow> py_error + real" where
  "nn_distance dm current loc =
     (case location_index dm current of
        None \<Rightarrow> Inr (haversine_miles current loc)
      | Some ci \<Rightarrow>
          (case location_index dm loc of
             None \<Rightarrow> Inr (haversine_miles current loc)
           | Some vi \<Rightarrow> distance_miles dm ci vi))"

fun nn_best ::
  "DistanceMatrix \<Rightarrow> LatLng \<Rightarrow> (nat \<times> Venue) list \<Rightarrow> nat \<times> real option
     \<Rightarrow> py_error + (nat \<times> real option)" where
  "nn_best dm current [] best = Inr best"
| "nn_best dm current ((i, venue) # rest) (best_idx, best_dist) =
     (case Venue_location venue of
        None \<Rightarrow> nn_best dm current rest (best_idx, best_dist)
      | Some loc \<Rightarrow>
          (case nn_distance dm current loc of
             Inl e \<Rightarrow> Inl e
           | Inr d \<Rightarrow>
               if lt_inf (Some d) best_dist then nn_best dm current rest (i, Some d)
               else nn_best dm current rest (best_idx, best_dist)))"

lemma nn_best_bound:
  "nn_best dm current ivs (b, bd) = Inr (b', bd') \<Longrightarrow> b' = b \<or> b' \<in> fst ` set ivs"
proof (induction ivs arbitrary: b bd)
  case Nil
  then show ?case by simp
next
  case (Cons iv ivs)
  obtain i venue where iv: "iv = (i, venue)" by (cases iv)
  show ?case
    using Cons.prems Cons.IH [of b bd] Cons.IH [of i]
    by (auto simp: iv split: option.splits sum.splits if_splits)
qed

lemma nn_best_index:
  assumes "remaining \<noteq> []"
    and "nn_best dm current (enumerate remaining) (0, None) = Inr (b, bd)"
  shows "b < length remaining"
proof -
  have "b = 0 \<or> b \<in> fst ` set (enumerate remaining)"
    using nn_best_bound [OF assms(2)] .
  moreover have "fst ` set (enumerate remaining) \<subseteq> {0..<length remaining}"
    by (auto simp: enumerate_def dest: set_zip_leftD)
  ultimately show ?thesis using assms(1) by auto
qed

function nn_loop ::
  "DistanceMatrix \<Rightarrow> LatLng \<Rightarrow> Venue list \<Rightarrow> Venue list \<Rightarrow> py_error + Venue list" where
  "nn_loop dm current remaining ordered =
     (if remaining = [] then Inr ordered
      else
        (case nn_best dm current (enumerate remaining) (0, None) of
           Inl e \<Rightarrow> Inl e
         | Inr (best_idx, best_dist) \<Rightarrow>
             (let next_venue = remaining ! best_idx;
                  remaining' = take best_idx remaining @ drop (Suc best_idx) remaining
              in nn_loop dm
                   (case Venue_location next_venue of None \<Rightarrow> current | Some loc \<Rightarrow> loc)
                   remaining' (ordered @ [next_venue]))))"
  by pat_completeness auto
termination
proof (relation "measure (\<lambda>(dm, current, remaining, ordered). length remaining)")
  show "wf (measure (\<lambda>(dm, current, remaining, ordered). length remaining))" by simp
next
  fix dm :: DistanceMatrix and current :: LatLng and remaining ordered :: "Venue list"
    and x2 :: "nat \<times> real option" and x1 :: nat and y :: "real option"
    and xa :: Venue and xb :: "Venue list"
  assume ne: "remaining \<noteq> []"
    and best: "nn_best dm current (enumerate remaining) (0, None) = Inr x2"
    and x2: "(x1, y) = x2"
    and xb: "xb = take x1 remaining @ drop (Suc x1) remaining"
  have "nn_best dm current (enumerate remaining) (0, None) = Inr (x1, y)"
    using best x2 by simp
  then have "x1 < length remaining"
    by (rule nn_best_index [OF ne])
  then show "((dm, case Venue_location xa of None \<Rightarrow> current | Some loc \<Rightarrow> loc, xb,
               ordered @ [xa]), dm, current, remaining, ordered)
             \<in> measure (\<lambda>(dm, current, remaining, ordered). length remaining)"
    using xb by simp
qed

declare nn_loop.simps [simp del]

definition order_stops_nn ::
  "Venue list \<Rightarrow> LatLng \<Rightarrow> DistanceMatrix \<Rightarrow> py_error + Venue list" where
  "order_stops_nn venues start dm =
     (if length venues \<le> 1 then Inr venues else nn_loop dm start venues [])"

text \<open>\<^verbatim>\<open>cluster_venues\<close>: the scan for nearby venues, the loop over seeds, the whole.\<close>

fun extend_cluster ::
  "LatLng \<Rightarrow> real \<Rightarrow> int \<Rightarrow> Venue list \<Rightarrow> Venue list \<times> string set
     \<Rightarrow> Venue list \<times> string set" where
  "extend_cluster loc max_radius_miles max_stops [] st = st"
| "extend_cluster loc max_radius_miles max_stops (candidate # rest) (cl, assigned) =
     (if ven_id candidate \<in> assigned
      then extend_cluster loc max_radius_miles max_stops rest (cl, assigned)
      else if max_stops \<le> int (length cl) then (cl, assigned)
      else
        (case Venue_location candidate of
           None \<Rightarrow> extend_cluster loc max_radius_miles max_stops rest (cl, assigned)
         | Some cloc \<Rightarrow>
             if haversine_miles loc cloc \<le> max_radius_miles
             then extend_cluster loc max_radius_miles max_stops rest
                    (cl @ [candidate], insert (ven_id candidate) assigned)
             else extend_cluster loc max_radius_miles max_stops rest (cl, assigned)))"

definition order_cluster ::
  "LatLng list \<Rightarrow> DistanceMatrix \<Rightarrow> Venue list \<Rightarrow> py_error + Venue list" where
  "order_cluster hub_locs dm cl =
     (case cl of
        [] \<Rightarrow> Inl IndexError
      | seed # _ \<Rightarrow>
          (case Venue_location seed of
             None \<Rightarrow> Inr cl
           | Some cluster_center \<Rightarrow>
               (case hub_locs of
                  [] \<Rightarrow> Inr cl
                | h # hs \<Rightarrow>
                    order_stops_nn cl
                      (py_min_key (\<lambda>h. haversine_miles cluster_center h) h hs) dm)))"

fun cluster_loop ::
  "LatLng list \<Rightarrow> DistanceMatrix \<Rightarrow> real \<Rightarrow> int \<Rightarrow> Venue list \<Rightarrow> Venue list
     \<Rightarrow> string set \<times> VenueCluster list \<Rightarrow> py_error + (string set \<times> VenueCluster list)" where
  "cluster_loop hub_locs dm max_radius_miles max_stops valid [] st = Inr st"
| "cluster_loop hub_locs dm max_radius_miles max_stops valid (venue # rest) (assigned, clusters) =
     (if ven_id venue \<in> assigned
      then cluster_loop hub_locs dm max_radius_miles max_stops valid rest (assigned, clusters)
      else
        (case Venue_location venue of
           None \<Rightarrow>
             cluster_loop hub_locs dm max_radius_miles max_stops valid rest (assigned, clusters)
         | Some loc \<Rightarrow>
             (case extend_cluster loc max_radius_miles max_stops valid
                     ([venue], insert (ven_id venue) assigned) of
                (cl, assigned') \<Rightarrow>
                  (case order_cluster hub_locs dm cl of
                     Inl e \<Rightarrow> Inl e
                   | Inr ordered \<Rightarrow>
                       cluster_loop hub_locs dm max_radius_miles max_stops valid rest
                         (assigned',
                          clusters @ [\<lparr>cl_venues = ordered, cl_total_demand_weight = 0,
                                       cl_ordered_venue_ids = map ven_id ordered\<rparr>])))))"

definition cluster_venues ::
  "Venue list \<Rightarrow> LatLng list \<Rightarrow> DistanceMatrix \<Rightarrow> real \<Rightarrow> int
     \<Rightarrow> py_error + VenueCluster list" where
  "cluster_venues venues hub_locs dm max_radius_miles max_stops =
     (if venues = [] then Inr []
      else
        (let valid_venues = filter (\<lambda>v. Venue_location v \<noteq> None) venues
         in if valid_venues = [] then Inr (map (\<lambda>v. VenueCluster_of [v]) venues)
            else
              (case cluster_loop hub_locs dm max_radius_miles max_stops
                      (sort_desc lt_inf (\<lambda>v. nearest_hub_distance v hub_locs) valid_venues)
                      (sort_desc lt_inf (\<lambda>v. nearest_hub_distance v hub_locs) valid_venues)
                      ({}, []) of
                 Inl e \<Rightarrow> Inl e
               | Inr (assigned, clusters) \<Rightarrow>
                   Inr (clusters
                        @ map (\<lambda>v. VenueCluster_of [v])
                            (filter (\<lambda>v. ven_id v \<notin> assigned) venues)))))"

text \<open>The callers of \<^verbatim>\<open>cluster_venues\<close> all use its defaults: 150 miles, 4 stops.\<close>

definition cluster_venues_default ::
  "Venue list \<Rightarrow> LatLng list \<Rightarrow> DistanceMatrix \<Rightarrow> py_error + VenueCluster list" where
  "cluster_venues_default venues hub_locs dm = cluster_venues venues hub_locs dm 150 4"

section \<open>Assignment planner (\<^verbatim>\<open>optimizer.py\<close>)\<close>

text \<open>
  The wall-clock field \<^verbatim>\<open>solve_time_ms\<close> and the fields that are never written
  (\<^verbatim>\<open>arrival_time\<close>, \<^verbatim>\<open>depart_time\<close>, \<^verbatim>\<open>stop_id\<close>, \<^verbatim>\<open>return_time\<close>) are not modelled.
\<close>

record TripStop =
  venue_id :: string
  venue_name :: string
  stop_order :: int
  action :: string
  requires_hub_return :: bool
  hub_return_reason :: "string option"
  demand :: "Demand option"

record TripAsset =
  ta_asset_id :: string
  ta_serial_number :: string
  ta_asset_type :: string

record TripPerson =
  tp_person_id :: string
  tp_person_name :: string
  tp_role_on_trip :: string

record Trip =
  vehicle_id :: string
  vehicle_name :: string
  origin_hub_id :: string
  origin_hub_name :: string
  stops :: "TripStop list"
  assets :: "TripAsset list"
  personnel :: "TripPerson list"
  total_miles :: real
  total_drive_hrs :: real
  optimizer_score :: real

record UnassignedDemand =
  ud_customer_name :: string
  ud_venue_name :: string
  ud_asset_type :: string
  ud_quantity :: int
  ud_reason :: string

record Relaxation =
  rx_step :: int
  rx_action :: string
  rx_detail :: string

record OptimizationResult =
  trips :: "Trip list"
  unassigned_demands :: "UnassignedDemand list"
  warnings :: "string list"
  errors :: "string list"
  constraint_relaxations :: "Relaxation list"
  status :: string
  average_score :: real

definition OptimizationResult_default :: OptimizationResult where
  "OptimizationResult_default =
     \<lparr>trips = [], unassigned_demands = [], warnings = [], errors = [],
      constraint_relaxations = [], status = ''completed'', average_score = 0\<rparr>"

definition has_unassigned :: "OptimizationResult \<Rightarrow> bool" where
  "has_unassigned r = (0 < length (unassigned_demands r))"

subsection \<open>\<^verbatim>\<open>_assign_assets_to_demand\<close>\<close>

text \<open>
  The inner loop over the available assets for one contract item; the state is the list
  \<^verbatim>\<open>assigned\<close>, the local set \<^verbatim>\<open>used_asset_ids\<close> and \<^verbatim>\<open>matched_count\<close>.
\<close>

fun match_loop ::
  "ContractItem \<Rightarrow> string set \<Rightarrow> BrandingTask list \<Rightarrow> Asset list
     \<Rightarrow> Asset list \<times> string set \<times> int \<Rightarrow> Asset list \<times> string set \<times> int" where
  "match_loop item blocked tasks [] st = st"
| "match_loop item blocked tasks (asset # rest) (assigned, used, matched_count) =
     (if asset_id asset \<in> used
      then match_loop item blocked tasks rest (assigned, used, matched_count)
      else if ci_quantity item \<le> matched_count then (assigned, used, matched_count)
      else if match_asset_to_demand asset item blocked tasks
      then match_loop item blocked tasks rest
             (assigned @ [asset], insert (asset_id asset) used, matched_count + 1)
      else match_loop item blocked tasks rest (assigned, used, matched_count))"

definition shortfall :: "Demand \<Rightarrow> ContractItem \<Rightarrow> int \<Rightarrow> UnassignedDemand" where
  "shortfall dmd item matched_count =
     \<lparr>ud_customer_name = dem_customer_name dmd,
      ud_venue_name =
        (case game_venue (dem_game dmd) of None \<Rightarrow> ''Unknown'' | Some v \<Rightarrow> ven_name v),
      ud_asset_type = ci_asset_type item,
      ud_quantity = ci_quantity item - matched_count,
      ud_reason = ''Only '' @ str_int matched_count @ '' of '' @ str_int (ci_quantity item)
                  @ '' '' @ ci_asset_type item @ '' available''\<rparr>"

fun assign_items ::
  "Demand \<Rightarrow> Asset list \<Rightarrow> Constraints \<Rightarrow> WeekData \<Rightarrow> ContractItem list
     \<Rightarrow> Asset list \<times> UnassignedDemand list \<times> string set
     \<Rightarrow> Asset list \<times> UnassignedDemand list \<times> string set" where
  "assign_items dmd available c wd [] st = st"
| "assign_items dmd available c wd (item # items) (assigned, unassigned, used) =
     (case match_loop item (blocked_asset_ids c) (wd_branding_tasks wd) available
             (assigned, used, 0) of
        (assigned', used', matched_count) \<Rightarrow>
          assign_items dmd available c wd items
            (assigned',
             (if matched_count < ci_quantity item
              then unassigned @ [shortfall dmd item matched_count] else unassigned),
             used'))"

definition assign_assets_to_demand ::
  "Demand \<Rightarrow> Asset list \<Rightarrow> Constraints \<Rightarrow> WeekData \<Rightarrow> Asset list \<times> UnassignedDemand list" where
  "assign_assets_to_demand dmd available c wd =
     (case assign_items dmd available c wd (dem_items dmd) ([], [], {}) of
        (assigned, unassigned, used) \<Rightarrow> (assigned, unassigned))"

subsection \<open>\<^verbatim>\<open>_assign_personnel\<close>\<close>

text \<open>
  The first loop looks for a driver; the second and the third loop share one body (an
  unused person whose role is \<^verbatim>\<open>lead_tech\<close> or \<^verbatim>\<open>service_tech\<close>) and differ in the role on
  the trip. The set \<^verbatim>\<open>used_person_ids\<close> is updated in place, so it is returned.
\<close>

fun find_driver :: "Person list \<Rightarrow> string set \<Rightarrow> Person option" where
  "find_driver [] used = None"
| "find_driver (person # rest) used =
     (if per_id person \<in> used \<and> per_role person = ''driver'' then find_driver rest used
      else if per_role person = ''driver'' \<and> per_id person \<notin> used then Some person
      else find_driver rest used)"

fun find_tech :: "Person list \<Rightarrow> string set \<Rightarrow> Person option" where
  "find_tech [] used = None"
| "find_tech (person # rest) used =
     (if per_id person \<in> used then find_tech rest used
      else if per_role person = ''lead_tech'' \<or> per_role person = ''service_tech''
      then Some person
      else find_tech rest used)"

definition TripPerson_of :: "Person \<Rightarrow> string \<Rightarrow> TripPerson" where
  "TripPerson_of person role =
     \<lparr>tp_person_id = per_id person, tp_person_name = per_name person, tp_role_on_trip = role\<rparr>"

definition assign_personnel :: "Hub \<Rightarrow> WeekData \<Rightarrow> string set \<Rightarrow> TripPerson list \<times> string set" where
  "assign_personnel hub wd used =
     (let available = available_personnel_at_hub wd (hub_id hub);
          st1 = (case find_driver available used of
                   None \<Rightarrow> ([], used)
                 | Some p \<Rightarrow> ([TripPerson_of p ''driver''], insert (per_id p) used));
          st2 = (if fst st1 = [] then
                   (case find_tech available (snd st1) of
                      None \<Rightarrow> st1
                    | Some p \<Rightarrow> ([TripPerson_of p ''driver''], insert (per_id p) (snd st1)))
                 else st1)
      in (case find_tech available (snd st2) of
            None \<Rightarrow> st2
          | Some p \<Rightarrow>
              (fst st2 @ [TripPerson_of p ''service_tech''], insert (per_id p) (snd st2))))"

subsection \<open>\<^verbatim>\<open>_build_trip_for_cluster\<close>\<close>

text \<open>The three sets a run threads through its clusters.\<close>

record Used =
  used_vehicle_ids :: "string set"
  used_asset_ids :: "string set"
  used_person_ids :: "string set"

fun cross_hub_search :: "WeekData \<Rightarrow> Hub \<Rightarrow> string set \<Rightarrow> Hub list \<Rightarrow> (Vehicle \<times> Hub) option" where
  "cross_hub_search wd hub used [] = None"
| "cross_hub_search wd hub used (other_hub # rest) =
     (if hub_id other_hub = hub_id hub then cross_hub_search wd hub used rest
      else
        (case find (\<lambda>v. veh_id v \<notin> used) (available_vehicles_at_hub wd (hub_id other_hub)) of
           None \<Rightarrow> cross_hub_search wd hub used rest
         | Some v \<Rightarrow> Some (v, other_hub)))"

definition choose_vehicle ::
  "WeekData \<Rightarrow> Hub \<Rightarrow> Venue \<Rightarrow> string set \<Rightarrow> (Vehicle \<times> Hub \<times> string list) option" where
  "choose_vehicle wd hub first_venue used =
     (case find (\<lambda>v. veh_id v \<notin> used) (available_vehicles_at_hub wd (hub_id hub)) of
        Some v \<Rightarrow> Some (v, hub, [])
      | None \<Rightarrow>
          (case cross_hub_search wd hub used (wd_hubs wd) of
             None \<Rightarrow> None
           | Some (v, other_hub) \<Rightarrow>
               Some (v, other_hub,
                     [''Cross-hub: Using '' @ veh_name v @ '' from '' @ hub_name other_hub
                      @ '' for venue '' @ ven_name first_venue])))"

definition no_vehicle_unassigned :: "VenueCluster \<Rightarrow> Constraints \<Rightarrow> UnassignedDemand list" where
  "no_vehicle_unassigned cluster c =
     concat (map (\<lambda>venue.
        concat (map (\<lambda>d.
           map (\<lambda>item.
                  \<lparr>ud_customer_name = dem_customer_name d,
                   ud_venue_name = ven_name venue,
                   ud_asset_type = ci_asset_type item,
                   ud_quantity = ci_quantity item,
                   ud_reason = ''No vehicle with sufficient capacity available''\<rparr>)
               (dem_items d))
          (filter (\<lambda>d. dem_venue_id d = ven_id venue) (demands c))))
       (cl_venues cluster))"

text \<open>The state of the loop over the venues of the cluster.\<close>

record Gather =
  g_trip_assets :: "TripAsset list"
  g_trip_stops :: "TripStop list"
  g_total_weight :: real
  g_hub_assets :: "Asset list"
  g_used_asset_ids :: "string set"
  g_all_unassigned :: "UnassignedDemand list"

definition take_asset :: "Asset \<Rightarrow> Gather \<Rightarrow> Gather" where
  "take_asset asset g =
     g\<lparr>g_trip_assets := g_trip_assets g
          @ [\<lparr>ta_asset_id = asset_id asset, ta_serial_number = asset_serial_number asset,
              ta_asset_type = asset_type asset\<rparr>],
       g_used_asset_ids := insert (asset_id asset) (g_used_asset_ids g),
       g_total_weight := g_total_weight g
          + (case asset_weight_lbs asset of None \<Rightarrow> 0 | Some w \<Rightarrow> w),
       g_hub_assets := filter (\<lambda>a. asset_id a \<noteq> asset_id asset) (g_hub_assets g)\<rparr>"

definition demand_step :: "WeekData \<Rightarrow> Constraints \<Rightarrow> Venue \<Rightarrow> Demand \<Rightarrow> Gather \<Rightarrow> Gather" where
  "demand_step wd c venue d g =
     (let on_site = filter (\<lambda>a. asset_id a \<notin> g_used_asset_ids g)
                      (assets_at_venue wd (ven_id venue));
          available = on_site @ g_hub_assets g
      in (case assign_assets_to_demand d available c wd of
            (assigned, unassigned) \<Rightarrow>
              fold take_asset assigned
                (g\<lparr>g_all_unassigned := g_all_unassigned g @ unassigned\<rparr>)))"

definition venue_step :: "WeekData \<Rightarrow> Constraints \<Rightarrow> nat \<times> Venue \<Rightarrow> Gather \<Rightarrow> Gather" where
  "venue_step wd c iv g =
     (case iv of (stop_index, venue) \<Rightarrow>
        (case filter (\<lambda>d. dem_venue_id d = ven_id venue) (demands c) of
           [] \<Rightarrow> g
         | d0 # ds \<Rightarrow>
             (let g' = fold (demand_step wd c venue) (d0 # ds) g
              in g'\<lparr>g_trip_stops := g_trip_stops g'
                     @ [\<lparr>venue_id = ven_id venue, venue_name = ven_name venue,
                         stop_order = int stop_index + 1, action = ''deliver'',
                         requires_hub_return = False, hub_return_reason = None,
                         demand = Some d0\<rparr>]\<rparr>)))"

text \<open>One leg of the route: nothing is added unless both matrix indices exist.\<close>

definition leg :: "DistanceMatrix \<Rightarrow> nat option \<Rightarrow> nat option \<Rightarrow> py_error + (real \<times> real)" where
  "leg dm a b =
     (case a of
        None \<Rightarrow> Inr (0, 0)
      | Some i \<Rightarrow>
          (case b of
             None \<Rightarrow> Inr (0, 0)
           | Some j \<Rightarrow>
               (case distance_miles dm i j of
                  Inl e \<Rightarrow> Inl e
                | Inr mi \<Rightarrow>
                    (case duration_minutes dm i j of
                       Inl e \<Rightarrow> Inl e
                     | Inr mn \<Rightarrow> Inr (mi, mn)))))"

fun route_loop ::
  "DistanceMatrix \<Rightarrow> VenueCluster \<Rightarrow> TripStop list \<Rightarrow> nat option \<times> real \<times> real
     \<Rightarrow> py_error + (nat option \<times> real \<times> real)" where
  "route_loop dm cluster [] st = Inr st"
| "route_loop dm cluster (stop # rest) (prev_idx, miles, minutes) =
     (case find (\<lambda>v. ven_id v = venue_id stop) (cl_venues cluster) of
        None \<Rightarrow> route_loop dm cluster rest (prev_idx, miles, minutes)
      | Some venue \<Rightarrow>
          (case Venue_location venue of
             None \<Rightarrow> route_loop dm cluster rest (prev_idx, miles, minutes)
           | Some loc \<Rightarrow>
               (case leg dm prev_idx (location_index dm loc) of
                  Inl e \<Rightarrow> Inl e
                | Inr (mi, mn) \<Rightarrow>
                    route_loop dm cluster rest
                      (location_index dm loc, miles + mi, minutes + mn))))"

definition overload_warning :: "Vehicle \<Rightarrow> real \<Rightarrow> string" where
  "overload_warning vehicle total_weight =
     ''Vehicle '' @ veh_name vehicle @ '' may be overloaded: ''
     @ str_int (py_round_int total_weight) @ '' lbs vs ''
     @ (case veh_capacity_lbs vehicle of None \<Rightarrow> ''None'' | Some cap \<Rightarrow> str_int cap)
     @ '' lbs capacity''"

definition build_trip_with_vehicle ::
  "VenueCluster \<Rightarrow> WeekData \<Rightarrow> DistanceMatrix \<Rightarrow> Constraints \<Rightarrow> Used \<Rightarrow> Venue
     \<Rightarrow> Vehicle \<Rightarrow> Hub \<Rightarrow> string list
     \<Rightarrow> py_error + ((Trip option \<times> UnassignedDemand list \<times> string list) \<times> Used)" where
  "build_trip_with_vehicle cluster wd dm c u first_venue vehicle hub warnings0 =
     (let g = fold (venue_step wd c) (enumerate (cl_venues cluster))
                \<lparr>g_trip_assets = [], g_trip_stops = [], g_total_weight = 0,
                 g_hub_assets = filter (\<lambda>a. asset_id a \<notin> used_asset_ids u)
                                  (assets_at_hub wd (hub_id hub)),
                 g_used_asset_ids = used_asset_ids u, g_all_unassigned = []\<rparr>;
          u1 = u\<lparr>used_vehicle_ids := insert (veh_id vehicle) (used_vehicle_ids u),
                 used_asset_ids := g_used_asset_ids g\<rparr>
      in if g_trip_stops g = [] then Inr ((None, g_all_unassigned g, warnings0), u1)
         else
           (let warnings1 =
                  (if \<not> check_capacity_weight vehicle (g_total_weight g)
                   then warnings0 @ [overload_warning vehicle (g_total_weight g)]
                   else warnings0);
                hub_idx = location_index dm (Hub_location hub)
            in (case route_loop dm cluster (g_trip_stops g) (hub_idx, 0, 0) of
                  Inl e \<Rightarrow> Inl e
                | Inr (prev_idx, miles, minutes) \<Rightarrow>
                    (case leg dm prev_idx hub_idx of
                       Inl e \<Rightarrow> Inl e
                     | Inr (mi, mn) \<Rightarrow>
                         (case assign_personnel hub wd (used_person_ids u1) of
                            (crew, used_p) \<Rightarrow>
                              Inr ((Some
                                     \<lparr>vehicle_id = veh_id vehicle,
                                      vehicle_name = veh_name vehicle,
                                      origin_hub_id = hub_id hub,
                                      origin_hub_name = hub_name hub,
                                      stops = g_trip_stops g,
                                      assets = g_trip_assets g,
                                      personnel = crew,
                                      total_miles = py_round (miles + mi) 1,
                                      total_drive_hrs = py_round ((minutes + mn) / 60) 2,
                                      optimizer_score = 0\<rparr>,
                                    g_all_unassigned g,
                                    (if crew = []
                                     then warnings1
                                       @ [''No personnel available at '' @ hub_name hub
                                          @ '' for trip to '' @ ven_name first_venue]
                                     else warnings1)),
                                   u1\<lparr>used_person_ids := used_p\<rparr>))))))"

definition build_trip_for_cluster ::
  "VenueCluster \<Rightarrow> WeekData \<Rightarrow> DistanceMatrix \<Rightarrow> Constraints \<Rightarrow> Used
     \<Rightarrow> py_error + ((Trip option \<times> UnassignedDemand list \<times> string list) \<times> Used)" where
  "build_trip_for_cluster cluster wd dm c u =
     (case cl_venues cluster of
        [] \<Rightarrow> Inr ((None, [], []), u)
      | first_venue # _ \<Rightarrow>
          (case nearest_hub wd first_venue of
             None \<Rightarrow> Inr ((None, [], [''No hub found for venue '' @ ven_name first_venue]), u)
           | Some hub0 \<Rightarrow>
               (case choose_vehicle wd hub0 first_venue (used_vehicle_ids u) of
                  None \<Rightarrow> Inr ((None, no_vehicle_unassigned cluster c, []), u)
                | Some (vehicle, hub, warnings0) \<Rightarrow>
                    build_trip_with_vehicle cluster wd dm c u first_venue vehicle hub
                      warnings0)))"

subsection \<open>\<^verbatim>\<open>_ortools_reorder_stops\<close>\<close>

text \<open>
  The OR-Tools routing solver is a parameter \<open>tsp_solver\<close>: given the local integer
  distance matrix and the time limit, it returns \<open>None\<close> (no solution) or the nodes on
  the route of the vehicle from the start to the end, node \<open>0\<close> being the depot.

  The loop that rewrites \<^verbatim>\<open>stop_order\<close> mutates the stop objects, so a stop that the
  route lists twice keeps the last number written: the loop runs on a store that maps
  the index of a stop in the old list to its current \<^verbatim>\<open>stop_order\<close>.
\<close>

fun map_err :: "('a \<Rightarrow> py_error + 'b) \<Rightarrow> 'a list \<Rightarrow> py_error + 'b list" where
  "map_err f [] = Inr []"
| "map_err f (x # xs) =
     (case f x of
        Inl e \<Rightarrow> Inl e
      | Inr y \<Rightarrow> (case map_err f xs of Inl e \<Rightarrow> Inl e | Inr ys \<Rightarrow> Inr (y # ys)))"

definition local_cell ::
  "DistanceMatrix \<Rightarrow> LatLng option list \<Rightarrow> nat \<Rightarrow> nat \<Rightarrow> py_error + int" where
  "local_cell dm stop_locations i j =
     (if i = j then Inr 0
      else
        (case stop_locations ! i of
           None \<Rightarrow> Inr 10000
         | Some loc_i \<Rightarrow>
             (case stop_locations ! j of
                None \<Rightarrow> Inr 10000
              | Some loc_j \<Rightarrow>
                  (case location_index dm loc_i of
                     None \<Rightarrow> Inr 10000
                   | Some idx_i \<Rightarrow>
                       (case location_index dm loc_j of
                          None \<Rightarrow> Inr 10000
                        | Some idx_j \<Rightarrow>
                            (case distance_miles dm idx_i idx_j of
                               Inl e \<Rightarrow> Inl e
                             | Inr d \<Rightarrow> Inr (py_int_of_float (d * 10))))))))"

definition renumber :: "TripStop list \<Rightarrow> nat list \<Rightarrow> TripStop list" where
  "renumber old_stops new_order =
     (let store = fold (\<lambda>(pos, i) st. st(i := int pos + 1)) (enumerate new_order)
                    (\<lambda>i. stop_order (old_stops ! i))
      in map (\<lambda>i. (old_stops ! i)\<lparr>stop_order := store i\<rparr>) new_order)"

definition ortools_reorder_stops ::
  "(int list list \<Rightarrow> int \<Rightarrow> nat list option) \<Rightarrow> Trip \<Rightarrow> DistanceMatrix \<Rightarrow> int
     \<Rightarrow> py_error + TripStop list" where
  "ortools_reorder_stops tsp_solver trip dm timeout_ms =
     (let old_stops = stops trip; n = length old_stops + 1
      in if n \<le> 3 then Inr old_stops
         else
           (let hub_loc =
                  (case find (\<lambda>loc. label loc = origin_hub_name trip) (dm_locations dm) of
                     None \<Rightarrow> \<lparr>lat = 0, lng = 0, label = ''hub''\<rparr>
                   | Some loc \<Rightarrow> loc);
                stop_locations =
                  Some hub_loc
                  # map (\<lambda>stop. find (\<lambda>loc. label loc = venue_name stop) (dm_locations dm))
                      old_stops
            in (case map_err (\<lambda>i. map_err (local_cell dm stop_locations i) [0..<n]) [0..<n] of
                  Inl e \<Rightarrow> Inl e
                | Inr local_dist \<Rightarrow>
                    (case tsp_solver local_dist (min timeout_ms 5000) of
                       None \<Rightarrow> Inr old_stops
                     | Some route \<Rightarrow>
                         (let new_order = map (\<lambda>node. node - 1) (filter (\<lambda>node. node \<noteq> 0) route)
                          in if length new_order = length old_stops then
                               (if list_all (\<lambda>i. i < length old_stops) new_order
                                then Inr (renumber old_stops new_order)
                                else Inl IndexError)
                             else Inr old_stops)))))"

subsection \<open>\<^verbatim>\<open>optimize_week\<close>\<close>

definition cluster_demand_weight :: "Constraints \<Rightarrow> VenueCluster \<Rightarrow> real" where
  "cluster_demand_weight c cluster =
     sum_list (concat (map (\<lambda>venue.
        map dem_total_weight_lbs (filter (\<lambda>d. dem_venue_id d = ven_id venue) (demands c)))
       (cl_venues cluster)))"

fun clusters_loop ::
  "WeekData \<Rightarrow> DistanceMatrix \<Rightarrow> Constraints \<Rightarrow> VenueCluster list
     \<Rightarrow> OptimizationResult \<times> Used \<Rightarrow> py_error + (OptimizationResult \<times> Used)" where
  "clusters_loop wd dm c [] st = Inr st"
| "clusters_loop wd dm c (cluster # rest) (result, u) =
     (case build_trip_for_cluster cluster wd dm c u of
        Inl e \<Rightarrow> Inl e
      | Inr ((trip, unassigned, warns), u') \<Rightarrow>
          clusters_loop wd dm c rest
            (result\<lparr>trips := trips result @ (case trip of None \<Rightarrow> [] | Some t \<Rightarrow> [t]),
                    unassigned_demands := unassigned_demands result @ unassigned,
                    warnings := warnings result @ warns\<rparr>,
             u'))"

definition reorder_trip ::
  "(int list list \<Rightarrow> int \<Rightarrow> nat list option) \<Rightarrow> DistanceMatrix \<Rightarrow> int \<Rightarrow> Trip
     \<Rightarrow> py_error + Trip" where
  "reorder_trip tsp_solver dm timeout_ms trip =
     (if 3 \<le> length (stops trip) then
        (case ortools_reorder_stops tsp_solver trip dm timeout_ms of
           Inl e \<Rightarrow> Inl e
         | Inr new_stops \<Rightarrow> Inr (trip\<lparr>stops := new_stops\<rparr>))
      else Inr trip)"

definition optimize_week ::
  "(int list list \<Rightarrow> int \<Rightarrow> nat list option) \<Rightarrow> WeekData \<Rightarrow> DistanceMatrix \<Rightarrow> Constraints
     \<Rightarrow> VenueCluster list \<Rightarrow> int \<Rightarrow> string set option \<Rightarrow> py_error + OptimizationResult" where
  "optimize_week tsp_solver wd dm c clusters timeout_ms pre_used_asset_ids =
     (let weighted = map (\<lambda>cl. cl\<lparr>cl_total_demand_weight := cluster_demand_weight c cl\<rparr>)
                       clusters;
          ordered = sort_desc (<) cl_total_demand_weight weighted
      in (case clusters_loop wd dm c ordered
                (OptimizationResult_default,
                 \<lparr>used_vehicle_ids = {},
                  used_asset_ids = (case pre_used_asset_ids of None \<Rightarrow> {} | Some s \<Rightarrow> s),
                  used_person_ids = {}\<rparr>) of
            Inl e \<Rightarrow> Inl e
          | Inr (result, u) \<Rightarrow>
              (case map_err (reorder_trip tsp_solver dm timeout_ms) (trips result) of
                 Inl e \<Rightarrow> Inl e
               | Inr new_trips \<Rightarrow>
                   Inr (result\<lparr>trips := new_trips,
                               status := (if unassigned_demands result \<noteq> [] then ''partial''
                                          else ''completed'')\<rparr>))))"

section \<open>Infeasibility cascade (\<^verbatim>\<open>infeasibility.py\<close>)\<close>

definition is_better :: "OptimizationResult \<Rightarrow> OptimizationResult \<Rightarrow> bool" where
  "is_better new old = (length (unassigned_demands new) < length (unassigned_demands old))"

text \<open>
  The four relaxation steps. Each runs the planner again with the default timeout
  (30000 ms) and turns any exception into \<^verbatim>\<open>None\<close>.
\<close>

definition run_step ::
  "(int list list \<Rightarrow> int \<Rightarrow> nat list option) \<Rightarrow> WeekData \<Rightarrow> DistanceMatrix \<Rightarrow> Constraints
     \<Rightarrow> py_error + VenueCluster list \<Rightarrow> OptimizationResult option" where
  "run_step tsp_solver wd dm c clusters =
     (case clusters of
        Inl e \<Rightarrow> None
      | Inr cls \<Rightarrow>
          (case optimize_week tsp_solver wd dm c cls 30000 None of
             Inl e \<Rightarrow> None
           | Inr r \<Rightarrow> Some r))"

definition step1_relax_soft_constraints ::
  "(int list list \<Rightarrow> int \<Rightarrow> nat list option) \<Rightarrow> WeekData \<Rightarrow> DistanceMatrix
     \<Rightarrow> OptimizationResult option" where
  "step1_relax_soft_constraints tsp_solver wd dm =
     run_step tsp_solver wd dm
       ((build_constraints wd)
          \<lparr>weight_minimize_miles := 1 / 10, weight_minimize_vehicles := 1 / 10,
           weight_prefer_closest_hub := 1 / 10, weight_minimize_rebranding := 1 / 10,
           weight_geographic_clustering := 1 / 10\<rparr>)
       (cluster_venues_default (game_venues wd) (hub_locations wd) dm)"

definition step2_relax_branding ::
  "(int list list \<Rightarrow> int \<Rightarrow> nat list option) \<Rightarrow> WeekData \<Rightarrow> DistanceMatrix
     \<Rightarrow> OptimizationResult option" where
  "step2_relax_branding tsp_solver wd dm =
     run_step tsp_solver wd dm
       ((build_constraints wd)\<lparr>blocked_asset_ids := {}, weight_minimize_rebranding := 0\<rparr>)
       (cluster_venues_default (game_venues wd) (hub_locations wd) dm)"

definition step3_split_multi_stop ::
  "(int list list \<Rightarrow> int \<Rightarrow> nat list option) \<Rightarrow> WeekData \<Rightarrow> DistanceMatrix
     \<Rightarrow> OptimizationResult option" where
  "step3_split_multi_stop tsp_solver wd dm =
     run_step tsp_solver wd dm
       ((build_constraints wd)\<lparr>blocked_asset_ids := {}\<rparr>)
       (Inr (map (\<lambda>venue. VenueCluster_of [venue]) (game_venues wd)))"

definition step4_cross_hub ::
  "(int list list \<Rightarrow> int \<Rightarrow> nat list option) \<Rightarrow> WeekData \<Rightarrow> DistanceMatrix
     \<Rightarrow> OptimizationResult option" where
  "step4_cross_hub tsp_solver wd dm =
     run_step tsp_solver wd dm
       ((build_constraints wd)\<lparr>blocked_asset_ids := {}, weight_prefer_closest_hub := 0\<rparr>)
       (Inr (map (\<lambda>venue. VenueCluster_of [venue]) (game_venues wd)))"

text \<open>\<^verbatim>\<open>_step5_classify_unassigned\<close>: the diagnosis of one unassigned demand.\<close>

definition classify :: "WeekData \<Rightarrow> UnassignedDemand \<Rightarrow> UnassignedDemand" where
  "classify wd ud =
     (if py_in ''available'' (py_lower (ud_reason ud)) then ud
      else
        (let matching_assets =
               filter (\<lambda>a. asset_type a = ud_asset_type ud
                            \<and> asset_condition a \<noteq> ''out_of_service''
                            \<and> asset_condition a \<noteq> ''needs_repair'')
                      (wd_assets wd)
         in if matching_assets = []
            then ud\<lparr>ud_reason := ''Asset type/model not available in inventory''\<rparr>
            else if list_all (\<lambda>a. asset_status a \<noteq> ''at_hub'') matching_assets
            then ud\<lparr>ud_reason := ''All '' @ ud_asset_type ud
                                   @ '' assets are deployed - none at hub''\<rparr>
            else if length (wd_vehicles wd) = 0
            then ud\<lparr>ud_reason := ''No vehicle with sufficient capacity available''\<rparr>
            else if length (filter (\<lambda>p. per_role p = ''driver'' \<or> per_role p = ''lead_tech'')
                              (wd_personnel wd)) = 0
            then ud\<lparr>ud_reason := ''No personnel available at nearest hub''\<rparr>
            else ud\<lparr>ud_reason := ''Insufficient resources to cover all demands this week''\<rparr>))"

definition step5_classify_unassigned :: "OptimizationResult \<Rightarrow> WeekData \<Rightarrow> OptimizationResult" where
  "step5_classify_unassigned result wd =
     result\<lparr>unassigned_demands := map (classify wd) (unassigned_demands result)\<rparr>"

text \<open>
  What each successful step does to the result it adopts: a log entry, and for step 2 a
  warning.
\<close>

definition log_entry :: "int \<Rightarrow> string \<Rightarrow> string \<Rightarrow> OptimizationResult \<Rightarrow> OptimizationResult" where
  "log_entry n act detail r =
     r\<lparr>constraint_relaxations := constraint_relaxations r
          @ [\<lparr>rx_step = n, rx_action = act, rx_detail = detail\<rparr>]\<rparr>"

definition adopt1 :: "OptimizationResult \<Rightarrow> OptimizationResult" where
  "adopt1 r = log_entry 1 ''relaxed_soft_constraints''
                ''Allowed more miles, more vehicles, relaxed hub preference'' r"

definition adopt2 :: "OptimizationResult \<Rightarrow> OptimizationResult" where
  "adopt2 r =
     (let r' = log_entry 2 ''relaxed_branding''
                 ''Allowed unbranded or mismatched branding assets'' r
      in r'\<lparr>warnings := warnings r' @ [''Some assets may need rebranding before deployment'']\<rparr>)"

definition adopt3 :: "OptimizationResult \<Rightarrow> OptimizationResult" where
  "adopt3 r = log_entry 3 ''split_multi_stop''
                ''Split multi-stop trips into individual routes'' r"

definition adopt4 :: "OptimizationResult \<Rightarrow> OptimizationResult" where
  "adopt4 r = log_entry 4 ''cross_hub_assignments''
                ''Allowed vehicles from distant hubs to cover nearby games'' r"

definition finish_cascade :: "WeekData \<Rightarrow> OptimizationResult \<Rightarrow> OptimizationResult" where
  "finish_cascade wd best =
     (let b = step5_classify_unassigned best wd
      in if has_unassigned b
         then log_entry 6 ''partial_solution''
                (str_nat (length (unassigned_demands b)) @ '' demands could not be fulfilled'')
                (b\<lparr>status := ''partial''\<rparr>)
         else b)"

text \<open>
  \<^verbatim>\<open>handle_infeasibility\<close>, one definition per step of the cascade, each taking the best
  result so far. A step result is adopted when it exists and is better; an adopted
  result without unassigned demands is returned at once.
\<close>

definition cascade_from4 ::
  "(int list list \<Rightarrow> int \<Rightarrow> nat list option) \<Rightarrow> WeekData \<Rightarrow> DistanceMatrix
     \<Rightarrow> OptimizationResult \<Rightarrow> OptimizationResult" where
  "cascade_from4 tsp_solver wd dm best =
     (case step4_cross_hub tsp_solver wd dm of
        None \<Rightarrow> finish_cascade wd best
      | Some result \<Rightarrow>
          if is_better result best then
            (if \<not> has_unassigned result then adopt4 result
             else finish_cascade wd (adopt4 result))
          else finish_cascade wd best)"

definition cascade_from3 ::
  "(int list list \<Rightarrow> int \<Rightarrow> nat list option) \<Rightarrow> WeekData \<Rightarrow> DistanceMatrix
     \<Rightarrow> OptimizationResult \<Rightarrow> OptimizationResult" where
  "cascade_from3 tsp_solver wd dm best =
     (case step3_split_multi_stop tsp_solver wd dm of
        None \<Rightarrow> cascade_from4 tsp_solver wd dm best
      | Some result \<Rightarrow>
          if is_better result best then
            (if \<not> has_unassigned result then adopt3 result
             else cascade_from4 tsp_solver wd dm (adopt3 result))
          else cascade_from4 tsp_solver wd dm best)"

definition cascade_from2 ::
  "(int list list \<Rightarrow> int \<Rightarrow> nat list option) \<Rightarrow> WeekData \<Rightarrow> DistanceMatrix
     \<Rightarrow> OptimizationResult \<Rightarrow> OptimizationResult" where
  "cascade_from2 tsp_solver wd dm best =
     (case step2_relax_branding tsp_solver wd dm of
        None \<Rightarrow> cascade_from3 tsp_solver wd dm best
      | Some result \<Rightarrow>
          if is_better result best then
            (if \<not> has_unassigned result then adopt2 result
             else cascade_from3 tsp_solver wd dm (adopt2 result))
          else cascade_from3 tsp_solver wd dm best)"

definition handle_infeasibility ::
  "(int list list \<Rightarrow> int \<Rightarrow> nat list option) \<Rightarrow> WeekData \<Rightarrow> DistanceMatrix
     \<Rightarrow> OptimizationResult \<Rightarrow> OptimizationResult" where
  "handle_infeasibility tsp_solver wd dm initial_result =
     (if unassigned_demands initial_result = [] then initial_result
      else
        (case step1_relax_soft_constraints tsp_solver wd dm of
           None \<Rightarrow> cascade_from2 tsp_solver wd dm initial_result
         | Some result \<Rightarrow>
             if is_better result initial_result then
               (if \<not> has_unassigned result then adopt1 result
                else cascade_from2 tsp_solver wd dm (adopt1 result))
             else cascade_from2 tsp_solver wd dm initial_result))"

section \<open>Preseason multi-pass planner (\<^verbatim>\<open>week0.py\<close>)\<close>

text \<open>
  The clock is a parameter: \<open>elapsed_ms k\<close> is the elapsed time read at the start of pass
  \<open>k\<close>. The state of the loop is the combined result, the global set of consumed assets
  and the served set of (venue, customer) pairs.
\<close>

record Week0 =
  w0_combined :: OptimizationResult
  w0_global_used_asset_ids :: "string set"
  w0_served_set :: "(string \<times> string) set"

definition MAX_PASSES :: nat where
  "MAX_PASSES = 10"

definition remaining_demands_of :: "Demand list \<Rightarrow> (string \<times> string) set \<Rightarrow> Demand list" where
  "remaining_demands_of all_demands served =
     filter (\<lambda>d. (dem_venue_id d, dem_customer_id d) \<notin> served) all_demands"

definition pass_constraints_of :: "Constraints \<Rightarrow> Demand list \<Rightarrow> Constraints" where
  "pass_constraints_of c remaining =
     Constraints_default
       \<lparr>demands := remaining, max_drive_hrs := max_drive_hrs c,
        setup_buffer_hours := 0, teardown_buffer_hours := 0,
        blocked_asset_ids := blocked_asset_ids c\<rparr>"

definition mark_served :: "Trip list \<Rightarrow> (string \<times> string) set \<Rightarrow> (string \<times> string) set" where
  "mark_served ts served =
     fold (\<lambda>trip s.
             fold (\<lambda>stop s'.
                     (case demand stop of
                        None \<Rightarrow> s'
                      | Some d \<Rightarrow> insert (dem_venue_id d, dem_customer_id d) s'))
                  (stops trip) s)
          ts served"

definition consume_assets :: "Trip list \<Rightarrow> string set \<Rightarrow> string set" where
  "consume_assets ts used =
     fold (\<lambda>trip s. fold (\<lambda>a s'. insert (ta_asset_id a) s') (assets trip) s) ts used"

definition add_warning :: "string \<Rightarrow> OptimizationResult \<Rightarrow> OptimizationResult" where
  "add_warning w r = r\<lparr>warnings := warnings r @ [w]\<rparr>"

fun week0_loop ::
  "(int list list \<Rightarrow> int \<Rightarrow> nat list option) \<Rightarrow> (nat \<Rightarrow> int) \<Rightarrow> WeekData \<Rightarrow> DistanceMatrix
     \<Rightarrow> Constraints \<Rightarrow> int \<Rightarrow> nat list \<Rightarrow> Week0 \<Rightarrow> py_error + Week0" where
  "week0_loop tsp_solver elapsed_ms wd dm c timeout_ms [] st = Inr st"
| "week0_loop tsp_solver elapsed_ms wd dm c timeout_ms (pass_num # later) st =
     (if timeout_ms * 3 \<le> elapsed_ms pass_num
      then Inr (st\<lparr>w0_combined :=
                     add_warning (''Time budget exceeded after '' @ str_nat (pass_num - 1)
                                  @ '' passes'') (w0_combined st)\<rparr>)
      else
        (let remaining = remaining_demands_of (demands c) (w0_served_set st)
         in if remaining = [] then Inr st
            else
              (case cluster_venues_default
                      (filter (\<lambda>v. ven_id v \<in> dem_venue_id ` set remaining) (game_venues wd))
                      (hub_locations wd) dm of
                 Inl e \<Rightarrow> Inl e
               | Inr pass_clusters \<Rightarrow>
                   if pass_clusters = [] then Inr st
                   else
                     (case optimize_week tsp_solver wd dm (pass_constraints_of c remaining)
                             pass_clusters
                             (min timeout_ms (timeout_ms * 3 - elapsed_ms pass_num))
                             (Some (w0_global_used_asset_ids st)) of
                        Inl e \<Rightarrow> Inl e
                      | Inr result \<Rightarrow>
                          if length (trips result) = 0 then
                            Inr (st\<lparr>w0_combined :=
                                 add_warning
                                   (''Pass '' @ str_nat pass_num @ '': No trips generated, ''
                                    @ str_nat (length remaining) @ '' demands remain'')
                                   ((w0_combined st)
                                      \<lparr>unassigned_demands :=
                                         unassigned_demands (w0_combined st)
                                         @ unassigned_demands result\<rparr>)\<rparr>)
                          else
                            (let combined1 =
                                   add_warning
                                     (''Pass '' @ str_nat pass_num @ '': ''
                                      @ str_nat (length (trips result)) @ '' trips generated'')
                                     ((w0_combined st)
                                        \<lparr>trips := trips (w0_combined st) @ trips result,
                                         warnings := warnings (w0_combined st)
                                                     @ warnings result\<rparr>);
                                 used1 = consume_assets (trips result)
                                           (w0_global_used_asset_ids st)
                             in if card used1 = card (w0_global_used_asset_ids st) then
                                  Inr (st\<lparr>w0_combined :=
                                       (add_warning
                                          (''Pass '' @ str_nat pass_num
                                           @ '': No new assets consumed, stopping'') combined1)
                                         \<lparr>unassigned_demands :=
                                            unassigned_demands combined1
                                            @ unassigned_demands result\<rparr>,
                                     w0_global_used_asset_ids := used1\<rparr>)
                                else
                                  (let st1 = st\<lparr>w0_combined := combined1,
                                                  w0_global_used_asset_ids := used1,
                                                  w0_served_set :=
                                                    mark_served (trips result)
                                                      (w0_served_set st)\<rparr>
                                   in if \<not> has_unassigned result then Inr st1
                                      else week0_loop tsp_solver elapsed_ms wd dm c
                                             timeout_ms later st1))))))"

definition optimize_week0 ::
  "(int list list \<Rightarrow> int \<Rightarrow> nat list option) \<Rightarrow> (nat \<Rightarrow> int) \<Rightarrow> WeekData \<Rightarrow> DistanceMatrix
     \<Rightarrow> Constraints \<Rightarrow> VenueCluster list \<Rightarrow> int \<Rightarrow> py_error + OptimizationResult" where
  "optimize_week0 tsp_solver elapsed_ms wd dm c clusters timeout_ms =
     (case week0_loop tsp_solver elapsed_ms wd dm c timeout_ms [1..<Suc MAX_PASSES]
             \<lparr>w0_combined = OptimizationResult_default,
              w0_global_used_asset_ids = {}, w0_served_set = {}\<rparr> of
        Inl e \<Rightarrow> Inl e
      | Inr st \<Rightarrow>
          Inr ((w0_combined st)
                 \<lparr>status := (if unassigned_demands (w0_combined st) = [] then ''completed''
                             else ''partial'')\<rparr>))"

section \<open>Lookahead disposition (\<^verbatim>\<open>lookahead.py\<close>)\<close>

record Disposition =
  disp_action :: string
  disp_requires_hub_return :: bool
  disp_hub_return_reason :: "string option"
  disp_next_venue_id :: "string option"
  disp_next_venue_name :: "string option"

definition leave_on_site :: Disposition where
  "leave_on_site =
     \<lparr>disp_action = ''leave_on_site'', disp_requires_hub_return = False,
      disp_hub_return_reason = None, disp_next_venue_id = None, disp_next_venue_name = None\<rparr>"

definition reroute_to :: "Game \<Rightarrow> Disposition" where
  "reroute_to g =
     \<lparr>disp_action = ''reroute_to_next_venue'', disp_requires_hub_return = False,
      disp_hub_return_reason = None, disp_next_venue_id = game_venue_id g,
      disp_next_venue_name = (case game_venue g of None \<Rightarrow> None | Some v \<Rightarrow> Some (ven_name v))\<rparr>"

definition return_to_hub :: "string \<Rightarrow> Disposition" where
  "return_to_hub reason =
     \<lparr>disp_action = ''return_to_hub'', disp_requires_hub_return = True,
      disp_hub_return_reason = Some reason, disp_next_venue_id = None,
      disp_next_venue_name = None\<rparr>"

definition find_next_week_game_for_customer :: "string \<Rightarrow> Game list \<Rightarrow> Game option" where
  "find_next_week_game_for_customer customer_id next_week_games =
     find (\<lambda>g. game_customer_id g = customer_id) next_week_games"

fun nearby_loop :: "LatLng \<Rightarrow> real \<Rightarrow> Game list \<Rightarrow> Game option \<times> real option \<Rightarrow> Game option" where
  "nearby_loop here max_distance_miles [] (best_game, best_distance) = best_game"
| "nearby_loop here max_distance_miles (g # gs) (best_game, best_distance) =
     (case game_venue g of
        None \<Rightarrow> nearby_loop here max_distance_miles gs (best_game, best_distance)
      | Some v \<Rightarrow>
          (case Venue_location v of
             None \<Rightarrow> nearby_loop here max_distance_miles gs (best_game, best_distance)
           | Some there \<Rightarrow>
               if haversine_miles here there < max_distance_miles
                  \<and> lt_inf (Some (haversine_miles here there)) best_distance
               then nearby_loop here max_distance_miles gs
                      (Some g, Some (haversine_miles here there))
               else nearby_loop here max_distance_miles gs (best_game, best_distance)))"

definition find_nearby_game_next_week :: "Venue \<Rightarrow> Game list \<Rightarrow> real \<Rightarrow> Game option" where
  "find_nearby_game_next_week venue next_week_games max_distance_miles =
     (case Venue_location venue of
        None \<Rightarrow> None
      | Some here \<Rightarrow> nearby_loop here max_distance_miles next_week_games (None, None))"

text \<open>
  The last two branches of \<^verbatim>\<open>determine_disposition\<close>: a nearby game of another customer,
  else the default.
\<close>

definition nearby_or_default :: "Venue option \<Rightarrow> Game list \<Rightarrow> Disposition" where
  "nearby_or_default venue next_week_games =
     (case venue of
        None \<Rightarrow> leave_on_site
      | Some v \<Rightarrow>
          (case find_nearby_game_next_week v next_week_games 200 of
             None \<Rightarrow> leave_on_site
           | Some nearby_game \<Rightarrow>
               (case game_venue nearby_game of
                  None \<Rightarrow> leave_on_site
                | Some nv \<Rightarrow> reroute_to nearby_game)))"

definition determine_disposition ::
  "TripStop \<Rightarrow> Trip \<Rightarrow> Game list \<Rightarrow> int \<Rightarrow> int \<Rightarrow> Venue option \<Rightarrow> string option
     \<Rightarrow> Disposition" where
  "determine_disposition stop trip next_week_games season_year week_number venue customer_id =
     (if week_number = 0 then leave_on_site
      else if 18 \<le> week_number
      then return_to_hub ''End of season - all assets return to hub''
      else if next_week_games = [] then leave_on_site
      else
        (let cust_id = (if truthy_str customer_id then customer_id
                        else (case demand stop of
                                None \<Rightarrow> None
                              | Some d \<Rightarrow> Some (dem_customer_id d)))
         in if truthy_str cust_id then
              (case find_next_week_game_for_customer
                      (case cust_id of None \<Rightarrow> [] | Some cid \<Rightarrow> cid) next_week_games of
                 None \<Rightarrow> leave_on_site
               | Some next_game \<Rightarrow>
                   if game_venue_id next_game = Some (venue_id stop) then leave_on_site
                   else
                     (case game_venue next_game of
                        None \<Rightarrow> nearby_or_default venue next_week_games
                      | Some nv \<Rightarrow>
                          (case Venue_location nv of
                             None \<Rightarrow> nearby_or_default venue next_week_games
                           | Some there \<Rightarrow>
                               (case venue of
                                  None \<Rightarrow> nearby_or_default venue next_week_games
                                | Some v \<Rightarrow>
                                    (case Venue_location v of
                                       None \<Rightarrow> nearby_or_default venue next_week_games
                                     | Some here \<Rightarrow>
                                         if haversine_miles here there < 500
                                         then reroute_to next_game
                                         else return_to_hub
                                                (''Next venue too far (''
                                                 @ str_int (py_round_int
                                                              (haversine_miles here there))
                                                 @ '' mi) - return to hub''))))))
            else nearby_or_default venue next_week_games))"

text \<open>
  \<^verbatim>\<open>determine_post_game_disposition\<close>: the disposition computed for a stop, its effect on
  the stop, and the warning a reroute adds.
\<close>

definition stop_disposition :: "Game list \<Rightarrow> int \<Rightarrow> int \<Rightarrow> Trip \<Rightarrow> TripStop \<Rightarrow> Disposition" where
  "stop_disposition next_week_games season_year week_number trip stop =
     determine_disposition stop trip next_week_games season_year week_number
       (case demand stop of None \<Rightarrow> None | Some d \<Rightarrow> game_venue (dem_game d))
       (case demand stop of None \<Rightarrow> None | Some d \<Rightarrow> Some (dem_customer_id d))"

definition apply_disposition :: "Disposition \<Rightarrow> TripStop \<Rightarrow> TripStop" where
  "apply_disposition disposition stop =
     stop\<lparr>requires_hub_return := disp_requires_hub_return disposition,
          hub_return_reason := disp_hub_return_reason disposition\<rparr>"

definition reroute_warnings :: "Disposition \<Rightarrow> TripStop \<Rightarrow> string list" where
  "reroute_warnings disposition stop =
     (if disp_action disposition = ''reroute_to_next_venue''
      then [venue_name stop @ '': Reroute assets to ''
            @ (if truthy_str (disp_next_venue_name disposition)
               then (case disp_next_venue_name disposition of None \<Rightarrow> [] | Some n \<Rightarrow> n)
               else ''next venue'')
            @ '' for next week'']
      else [])"

definition dispose_trip :: "Game list \<Rightarrow> int \<Rightarrow> int \<Rightarrow> Trip \<Rightarrow> Trip \<times> string list" where
  "dispose_trip next_week_games season_year week_number trip =
     (trip\<lparr>stops := map (\<lambda>stop. apply_disposition
                                   (stop_disposition next_week_games season_year week_number
                                      trip stop) stop)
                         (stops trip)\<rparr>,
      concat (map (\<lambda>stop. reroute_warnings
                            (stop_disposition next_week_games season_year week_number trip stop)
                            stop)
                  (stops trip)))"

definition determine_post_game_disposition ::
  "OptimizationResult \<Rightarrow> Game list \<Rightarrow> int \<Rightarrow> int \<Rightarrow> OptimizationResult" where
  "determine_post_game_disposition result next_week_games season_year week_number =
     result\<lparr>trips := map (\<lambda>trip. fst (dispose_trip next_week_games season_year week_number trip))
                         (trips result),
            warnings := warnings result
              @ concat (map (\<lambda>trip. snd (dispose_trip next_week_games season_year week_number
                                            trip))
                            (trips result))\<rparr>"

section \<open>Scoring (\<^verbatim>\<open>scoring.py\<close>)\<close>

definition WEIGHT_DISTANCE :: real where "WEIGHT_DISTANCE = 40 / 100"
definition WEIGHT_CAPACITY :: real where "WEIGHT_CAPACITY = 20 / 100"
definition WEIGHT_TIME :: real where "WEIGHT_TIME = 15 / 100"
definition WEIGHT_CONSTRAINTS :: real where "WEIGHT_CONSTRAINTS = 15 / 100"
definition WEIGHT_MULTI_STOP :: real where "WEIGHT_MULTI_STOP = 10 / 100"

fun max_straight_line_loop :: "LatLng \<Rightarrow> LatLng list \<Rightarrow> TripStop list \<Rightarrow> real \<Rightarrow> real" where
  "max_straight_line_loop hub_loc locs [] m = m"
| "max_straight_line_loop hub_loc locs (stop # rest) m =
     (case find (\<lambda>loc. label loc = venue_name stop) locs of
        None \<Rightarrow> max_straight_line_loop hub_loc locs rest m
      | Some loc \<Rightarrow>
          max_straight_line_loop hub_loc locs rest
            (max m (haversine_miles4 (lat hub_loc) (lng hub_loc) (lat loc) (lng loc))))"

definition score_distance_efficiency :: "Trip \<Rightarrow> DistanceMatrix \<Rightarrow> real" where
  "score_distance_efficiency trip dm =
     (if total_miles trip \<le> 0 then 100
      else
        (case find (\<lambda>loc. label loc = origin_hub_name trip) (dm_locations dm) of
           None \<Rightarrow> 50
         | Some hub_loc \<Rightarrow>
             (let max_straight_line =
                    max_straight_line_loop hub_loc (dm_locations dm) (stops trip) 0
              in if max_straight_line \<le> 0 then 50
                 else
                   (let min_distance = 2 * max_straight_line;
                        ratio = (if 0 < total_miles trip then min_distance / total_miles trip
                                 else 0);
                        adjusted_ratio = min (ratio / (77 / 100)) 1
                    in max 0 (min 100 (adjusted_ratio * 100))))))"

definition score_capacity_utilization :: "Trip \<Rightarrow> real" where
  "score_capacity_utilization trip =
     (if assets trip = [] then 0
      else
        (let total_weight = sum_list (map (\<lambda>a. weight_estimate (ta_asset_type a)) (assets trip));
             utilization = of_int total_weight / 10000
         in if 5 / 10 \<le> utilization \<and> utilization \<le> 9 / 10 then 100
            else if 9 / 10 < utilization then max 60 (100 - (utilization - 9 / 10) * 200)
            else max 20 (utilization / (5 / 10) * 100)))"

definition score_time_efficiency :: "Trip \<Rightarrow> real" where
  "score_time_efficiency trip =
     (if total_drive_hrs trip \<le> 0 then 100
      else
        (let ratio = total_drive_hrs trip / 11
         in if ratio \<le> 7 / 10 then 100
            else if ratio \<le> 9 / 10 then 80 + (9 / 10 - ratio) / (2 / 10) * 20
            else if ratio \<le> 1 then 50 + (1 - ratio) / (1 / 10) * 30
            else max 0 (50 - (ratio - 1) * 100)))"

definition penalty_of :: "string \<Rightarrow> int" where
  "penalty_of act =
     (if act = ''relaxed_soft_constraints'' then 10
      else if act = ''relaxed_branding'' then 20
      else if act = ''split_multi_stop'' then 15
      else if act = ''cross_hub_assignments'' then 25
      else if act = ''partial_solution'' then 30
      else 10)"

definition score_constraint_satisfaction :: "OptimizationResult \<Rightarrow> real" where
  "score_constraint_satisfaction result =
     (if constraint_relaxations result = [] then 100
      else of_int (max 0 (100 - fold (\<lambda>relaxation total_penalty.
                                          total_penalty + penalty_of (rx_action relaxation))
                                       (constraint_relaxations result) 0)))"

definition score_multi_stop_bonus :: "Trip \<Rightarrow> real" where
  "score_multi_stop_bonus trip =
     (let num_stops = length (stops trip)
      in if num_stops \<le> 1 then 50
         else if num_stops = 2 then 75
         else if num_stops = 3 then 90
         else 100)"

definition score_trip :: "Trip \<Rightarrow> DistanceMatrix \<Rightarrow> OptimizationResult \<Rightarrow> real" where
  "score_trip trip dm result =
     (let total = score_distance_efficiency trip dm * WEIGHT_DISTANCE
                  + score_capacity_utilization trip * WEIGHT_CAPACITY
                  + score_time_efficiency trip * WEIGHT_TIME
                  + score_constraint_satisfaction result * WEIGHT_CONSTRAINTS
                  + score_multi_stop_bonus trip * WEIGHT_MULTI_STOP
      in py_round (max 0 (min 100 total)) 1)"

text \<open>
  \<^verbatim>\<open>score_run\<close>: the loop scores each trip, stores the score on the trip and adds it to
  \<^verbatim>\<open>total_score\<close>.
\<close>

fun score_trips_loop ::
  "DistanceMatrix \<Rightarrow> OptimizationResult \<Rightarrow> Trip list \<Rightarrow> Trip list \<times> real \<Rightarrow> Trip list \<times> real" where
  "score_trips_loop dm result [] st = st"
| "score_trips_loop dm result (trip # rest) (scored, total_score) =
     score_trips_loop dm result rest
       (scored @ [trip\<lparr>optimizer_score := score_trip trip dm result\<rparr>],
        total_score + score_trip trip dm result)"

definition score_run :: "OptimizationResult \<Rightarrow> DistanceMatrix \<Rightarrow> OptimizationResult" where
  "score_run result dm =
     (if trips result = []
      then result\<lparr>average_score := (if has_unassigned result then 0 else 100)\<rparr>
      else
        (case score_trips_loop dm result (trips result) ([], 0) of
           (scored, total_score) \<Rightarrow>
             (let avg = py_round (total_score / of_nat (length (trips result))) 1
              in result\<lparr>trips := scored,
                        average_score :=
                          (if unassigned_demands result \<noteq> []
                           then max 0 (avg - of_int (min 30
                                  (int (length (unassigned_demands result)) * 5)))
                           else avg)\<rparr>)))"

section \<open>Predicates used in the statements\<close>

text \<open>A disposition is consistent when both hub-return fields agree with its action.\<close>

definition flags_agree :: "Disposition \<Rightarrow> bool" where
  "flags_agree d =
     (disp_requires_hub_return d = (disp_action d = ''return_to_hub'')
      \<and> (disp_hub_return_reason d \<noteq> None) = (disp_action d = ''return_to_hub''))"


text \<open>
  The number of unassigned demands after a step of the cascade: the step result is
  adopted when it exists and has fewer. \<open>nonzero\<close> holds of a step that did not reach zero
  unassigned demands.
\<close>

fun cnt_opt :: "OptimizationResult option \<Rightarrow> nat \<Rightarrow> nat" where
  "cnt_opt None n = n"
| "cnt_opt (Some r) n = min n (length (unassigned_demands r))"

definition nonzero :: "OptimizationResult option \<Rightarrow> bool" where
  "nonzero x = (case x of None \<Rightarrow> True | Some r \<Rightarrow> unassigned_demands r \<noteq> [])"


text \<open>No asset of a trip is blocked.\<close>

definition clean_assets :: "Constraints \<Rightarrow> TripAsset list \<Rightarrow> bool" where
  "clean_assets c tas = (\<forall>t\<in>set tas. ta_asset_id t \<notin> blocked_asset_ids c)"

definition clean_trips :: "Constraints \<Rightarrow> Trip list \<Rightarrow> bool" where
  "clean_trips c ts = (\<forall>t\<in>set ts. clean_assets c (assets t))"


text \<open>
  The contract of the routing solver, which is a parameter of the planner: a route it
  returns visits nodes of the matrix it was given. \<open>idx_ok\<close> holds of a location index
  that is absent or within the distance matrix.
\<close>

definition solver_ok :: "(int list list \<Rightarrow> int \<Rightarrow> nat list option) \<Rightarrow> bool" where
  "solver_ok tsp_solver =
     (\<forall>local_dist time_limit route.
        tsp_solver local_dist time_limit = Some route
          \<longrightarrow> list_all (\<lambda>node. node < length local_dist) route)"

definition idx_ok :: "DistanceMatrix \<Rightarrow> nat option \<Rightarrow> bool" where
  "idx_ok dm a = (case a of None \<Rightarrow> True | Some i \<Rightarrow> i < length (dm_locations dm))"


section \<open>Example data\<close>

text \<open>
  One hub in Cleveland with one truck and two technicians, a venue near the hub and one
  some forty miles away, one customer whose contract asks for two heated benches; the
  games, the assets and the branding tasks vary. The matrix holds an entry for every pair
  of its three locations, as after a cache hit.
\<close>

definition ex_hub :: Hub where
  "ex_hub = \<lparr>hub_id = ''hub-cle'', hub_name = ''Cleveland Hub'',
             hub_lat = 41.4993, hub_lng = -81.6944\<rparr>"

definition ex_near :: Venue where
  "ex_near = \<lparr>ven_id = ''ven-near'', ven_name = ''Lakefront Field'',
              ven_lat = Some 41.5061, ven_lng = Some (-81.6995)\<rparr>"

definition ex_far :: Venue where
  "ex_far = \<lparr>ven_id = ''ven-far'', ven_name = ''Akron Stadium'',
             ven_lat = Some 41.0753, ven_lng = Some (-81.5097)\<rparr>"

definition ex_item :: ContractItem where
  "ex_item = \<lparr>ci_customer_id = ''cust-a'', ci_customer_name = ''Akron Club'',
              ci_asset_type = ''heated_bench'', ci_model_version = None,
              ci_quantity = 2, ci_branding_spec = None\<rparr>"

definition ex_bench :: "string \<Rightarrow> Asset" where
  "ex_bench n = \<lparr>asset_id = ''bench-'' @ n, asset_serial_number = ''SN-'' @ n,
                 asset_type = ''heated_bench'', asset_model_version = None,
                 asset_condition = ''good'', asset_status = ''at_hub'',
                 asset_current_hub = Some ''hub-cle'', asset_current_venue_id = None,
                 asset_weight_lbs = Some 150, asset_current_branding = None\<rparr>"

definition ex_task :: BrandingTask where
  "ex_task = \<lparr>bt_asset_id = ''bench-2'', bt_to_branding = Some ''Akron Club'',
              bt_status = ''pending''\<rparr>"

definition ex_truck :: Vehicle where
  "ex_truck = \<lparr>veh_id = ''veh-1'', veh_name = ''Truck-1'', veh_home_hub_id = ''hub-cle'',
               veh_capacity_lbs = Some 10000, veh_status = ''active''\<rparr>"

definition ex_person :: "string \<Rightarrow> string \<Rightarrow> Person" where
  "ex_person n role = \<lparr>per_id = ''p-'' @ n, per_name = n, per_role = role,
                        per_home_hub_id = ''hub-cle''\<rparr>"

definition ex_game_far :: Game where
  "ex_game_far = \<lparr>game_id = ''g-far'', game_customer_id = ''cust-a'',
                  game_customer_name = ''Akron Club'', game_venue_id = Some ''ven-far'',
                  game_venue = Some ex_far\<rparr>"

definition ex_game_near :: Game where
  "ex_game_near = \<lparr>game_id = ''g-near'', game_customer_id = ''cust-b'',
                   game_customer_name = ''Lake Club'', game_venue_id = Some ''ven-near'',
                   game_venue = Some ex_near\<rparr>"

definition ex_week :: "int \<Rightarrow> Game list \<Rightarrow> Asset list \<Rightarrow> BrandingTask list \<Rightarrow> WeekData" where
  "ex_week n games benches tasks =
     \<lparr>wd_week_number = n, wd_games = games, wd_contract_items = [ex_item],
      wd_assets = benches, wd_vehicles = [ex_truck],
      wd_personnel = [ex_person ''sam'' ''service_tech'', ex_person ''lee'' ''lead_tech''],
      wd_hubs = [ex_hub], wd_branding_tasks = tasks\<rparr>"

definition ex_matrix :: DistanceMatrix where
  "ex_matrix =
     \<lparr>dm_locations = [\<lparr>lat = 41.4993, lng = -81.6944, label = ''Cleveland Hub''\<rparr>,
                      \<lparr>lat = 41.5061, lng = -81.6995, label = ''Lakefront Field''\<rparr>,
                      \<lparr>lat = 41.0753, lng = -81.5097, label = ''Akron Stadium''\<rparr>],
      dm_data = (\<lambda>(i, j). if 3 \<le> i \<or> 3 \<le> j then None
                           else if i = j
                           then Some \<lparr>de_distance_miles = 0, de_duration_minutes = 0\<rparr>
                           else if i + j = 1
                           then Some \<lparr>de_distance_miles = 0.7, de_duration_minutes = 0.8\<rparr>
                           else Some \<lparr>de_distance_miles = 40.1, de_duration_minutes = 48.1\<rparr>)\<rparr>"

definition ex_trip :: Trip where
  "ex_trip =
     \<lparr>vehicle_id = ''veh-1'', vehicle_name = ''Truck-1'', origin_hub_id = ''hub-x'',
      origin_hub_name = ''Depot'',
      stops = [\<lparr>venue_id = ''ven-far'', venue_name = ''Akron Stadium'', stop_order = 1,
                action = ''deliver'', requires_hub_return = False, hub_return_reason = None,
                demand = None\<rparr>],
      assets = [\<lparr>ta_asset_id = ''bench-1'', ta_serial_number = ''SN-1'',
                 ta_asset_type = ''heated_bench''\<rparr>],
      personnel = [], total_miles = 80.2, total_drive_hrs = 1.6, optimizer_score = 0\<rparr>"

definition ex_unassigned :: UnassignedDemand where
  "ex_unassigned =
     \<lparr>ud_customer_name = ''Akron Club'', ud_venue_name = ''Akron Stadium'',
      ud_asset_type = ''heated_bench'', ud_quantity = 1,
      ud_reason = ''Only 1 of 2 heated_bench available''\<rparr>"

text \<open>A routing solver that finds no solution.\<close>

definition ex_solver :: "int list list \<Rightarrow> int \<Rightarrow> nat list option" where
  "ex_solver local_dist time_limit = None"

section \<open>Rounding lemmas\<close>

lemma py_round_int_lower: "x - 1 / 2 \<le> of_int (py_round_int x)"
  unfolding py_round_int_def Let_def by (simp; linarith)

lemma py_round_int_upper: "of_int (py_round_int x) \<le> x + 1 / 2"
  unfolding py_round_int_def Let_def by (simp; linarith)

lemma py_round_close: "\<bar>py_round x n - x\<bar> \<le> 1 / (2 * 10 ^ n)"
proof -
  have p: "(0::real) < 10 ^ n" by simp
  have lo: "x * 10 ^ n - 1 / 2 \<le> of_int (py_round_int (x * 10 ^ n))"
    by (rule py_round_int_lower)
  have hi: "of_int (py_round_int (x * 10 ^ n)) \<le> x * 10 ^ n + 1 / 2"
    by (rule py_round_int_upper)
  have e: "\<bar>of_int (py_round_int (x * 10 ^ n)) - x * 10 ^ n\<bar> \<le> 1 / 2"
    using lo hi by linarith
  have "py_round x n - x = (of_int (py_round_int (x * 10 ^ n)) - x * 10 ^ n) / 10 ^ n"
    using p by (simp add: py_round_def diff_divide_distrib)
  then have "\<bar>py_round x n - x\<bar>
      = \<bar>of_int (py_round_int (x * 10 ^ n)) - x * 10 ^ n\<bar> / 10 ^ n"
    using p by simp
  also have "\<dots> \<le> (1 / 2) / 10 ^ n"
    using e p by (rule divide_right_mono [OF _ less_imp_le])
  finally show ?thesis by simp
qed

lemma py_round_eq_close:
  assumes "py_round x n = py_round y n"
  shows "\<bar>x - y\<bar> \<le> 1 / 10 ^ n"
proof -
  have a: "\<bar>py_round x n - x\<bar> \<le> 1 / (2 * 10 ^ n)" by (rule py_round_close)
  have b: "\<bar>py_round y n - y\<bar> \<le> 1 / (2 * 10 ^ n)" by (rule py_round_close)
  have "\<bar>x - y\<bar> \<le> 1 / (2 * 10 ^ n) + 1 / (2 * 10 ^ n)"
    using a b assms by linarith
  then show ?thesis by simp
qed

lemma py_round_int_ge: "of_int a \<le> x \<Longrightarrow> a \<le> py_round_int x"
  unfolding py_round_int_def Let_def by (simp add: le_floor_iff; linarith)

lemma py_round_int_le: "x \<le> of_int b \<Longrightarrow> py_round_int x \<le> b"
proof -
  assume xb: "x \<le> of_int b"
  have f: "\<lfloor>x\<rfloor> \<le> b" using xb by (simp add: floor_le_iff)
  have "x - of_int \<lfloor>x\<rfloor> > 0 \<Longrightarrow> \<lfloor>x\<rfloor> + 1 \<le> b"
  proof -
    assume "x - of_int \<lfloor>x\<rfloor> > 0"
    then have "of_int \<lfloor>x\<rfloor> < (of_int b :: real)" using xb by linarith
    then have "\<lfloor>x\<rfloor> < b" by simp
    then show ?thesis by simp
  qed
  then show ?thesis
    using f unfolding py_round_int_def Let_def by (auto split: if_splits)
qed

lemma py_round_range:
  assumes "0 \<le> x" "x \<le> 100"
  shows "0 \<le> py_round x 1 \<and> py_round x 1 \<le> 100"
proof -
  have "(of_int 0 :: real) \<le> x * 10 ^ 1" using assms by simp
  then have lo: "0 \<le> py_round_int (x * 10 ^ 1)" by (rule py_round_int_ge)
  have "x * 10 ^ 1 \<le> of_int 1000" using assms by simp
  then have hi: "py_round_int (x * 10 ^ 1) \<le> 1000" by (rule py_round_int_le)
  have "(of_int (py_round_int (x * 10 ^ 1)) :: real) \<le> of_int 1000"
    using hi by (simp only: of_int_le_iff)
  then show ?thesis using lo by (simp add: py_round_def)
qed

lemma py_round_int_pos: "1 / 2 < y \<Longrightarrow> 1 \<le> py_round_int y"
proof -
  assume y: "1 / 2 < y"
  have f0: "0 \<le> \<lfloor>y\<rfloor>" using y by simp
  show ?thesis
  proof (cases "\<lfloor>y\<rfloor> = 0")
    case True
    then show ?thesis using y by (simp add: py_round_int_def Let_def)
  next
    case False
    then have "1 \<le> \<lfloor>y\<rfloor>" using f0 by linarith
    then have "of_int 1 \<le> y" using le_floor_iff [of 1 y] by simp
    then show ?thesis by (rule py_round_int_ge)
  qed
qed

lemma py_round_int_zero: "0 \<le> y \<Longrightarrow> y < 1 / 2 \<Longrightarrow> py_round_int y = 0"
proof -
  assume y: "0 \<le> y" "y < 1 / 2"
  then have "\<lfloor>y\<rfloor> = 0" by (simp add: floor_eq_iff)
  then show ?thesis using y by (simp add: py_round_int_def Let_def)
qed

lemma py_round_pos: "1 / 20 < x \<Longrightarrow> 0 < py_round x 1"
proof -
  assume "1 / 20 < x"
  then have "1 / 2 < x * 10 ^ 1" by simp
  then have "1 \<le> py_round_int (x * 10 ^ 1)" by (rule py_round_int_pos)
  then have "(0::real) < of_int (py_round_int (x * 10 ^ 1))" by simp
  then show ?thesis by (simp add: py_round_def)
qed

lemma py_round_zero: "0 \<le> x \<Longrightarrow> x < 1 / 20 \<Longrightarrow> py_round x 1 = 0"
proof -
  assume "0 \<le> x" "x < 1 / 20"
  then have "0 \<le> x * 10 ^ 1" "x * 10 ^ 1 < 1 / 2" by simp_all
  then have "py_round_int (x * 10 ^ 1) = 0" by (rule py_round_int_zero)
  then show ?thesis by (simp add: py_round_def)
qed

section \<open>Coordinates: equality and hashing\<close>

text \<open>
  C8 (as stated): two coordinates whose latitudes and longitudes differ by at most 1e-6
  are equal. The coordinates (0.0000004, 0) and (0.0000006, 0) differ by 2e-7 and round to
  0.0 and 0.000001: they are not equal.
\<close>

theorem C8_tolerance_counterexample:
  "\<bar>lat \<lparr>lat = 4 / 10 ^ 7, lng = 0, label = ''''\<rparr>
      - lat \<lparr>lat = 6 / 10 ^ 7, lng = 0, label = ''''\<rparr>\<bar> \<le> 1 / 10 ^ 6
   \<and> \<bar>lng \<lparr>lat = 4 / 10 ^ 7, lng = 0, label = ''''\<rparr>
      - lng \<lparr>lat = 6 / 10 ^ 7, lng = 0, label = ''''\<rparr>\<bar> \<le> 1 / 10 ^ 6
   \<and> \<not> LatLng_eq \<lparr>lat = 4 / 10 ^ 7, lng = 0, label = ''''\<rparr>
                  \<lparr>lat = 6 / 10 ^ 7, lng = 0, label = ''''\<rparr>"
  by (simp add: LatLng_eq_def py_round_def py_round_int_def Let_def)

text \<open>
  C8 (amended): equality and hashing compare latitude and longitude rounded to 6 decimals
  and ignore the label. Two coordinates whose rounded axes coincide are equal and
  hash-equal whatever their labels, and coordinates that are equal differ by at most 1e-6
  in each axis.
\<close>

theorem C8_LatLng_eq_rounded:
  "(py_round (lat a) 6 = py_round (lat b) 6 \<and> py_round (lng a) 6 = py_round (lng b) 6
      \<longrightarrow> LatLng_eq (a\<lparr>label := l1\<rparr>) (b\<lparr>label := l2\<rparr>)
          \<and> LatLng_hash h (a\<lparr>label := l1\<rparr>) = LatLng_hash h (b\<lparr>label := l2\<rparr>))
   \<and> (LatLng_eq a b
      \<longrightarrow> LatLng_hash h a = LatLng_hash h b
          \<and> \<bar>lat a - lat b\<bar> \<le> 1 / 10 ^ 6 \<and> \<bar>lng a - lng b\<bar> \<le> 1 / 10 ^ 6)"
  by (auto simp: LatLng_eq_def LatLng_hash_def dest: py_round_eq_close)

theorem C8_LatLng_eq_rounded_witness:
  "LatLng_eq \<lparr>lat = 41.4993, lng = -81.6944, label = ''Cleveland Hub''\<rparr>
             \<lparr>lat = 41.49930004, lng = -81.69440002, label = ''Depot''\<rparr>
   \<and> LatLng_hash (\<lambda>(x, y). \<lfloor>x\<rfloor> + \<lfloor>y\<rfloor>)
        \<lparr>lat = 41.4993, lng = -81.6944, label = ''Cleveland Hub''\<rparr>
     = LatLng_hash (\<lambda>(x, y). \<lfloor>x\<rfloor> + \<lfloor>y\<rfloor>)
        \<lparr>lat = 41.49930004, lng = -81.69440002, label = ''Depot''\<rparr>
   \<and> \<bar>(41.4993::real) - 41.49930004\<bar> \<le> 1 / 10 ^ 6"
proof -
  have r: "py_round (lat \<lparr>lat = 41.4993, lng = -81.6944, label = ''''\<rparr>) 6
             = py_round (lat \<lparr>lat = 41.49930004, lng = -81.69440002, label = ''''\<rparr>) 6
           \<and> py_round (lng \<lparr>lat = 41.4993, lng = -81.6944, label = ''''\<rparr>) 6
             = py_round (lng \<lparr>lat = 41.49930004, lng = -81.69440002, label = ''''\<rparr>) 6"
    by (simp add: py_round_def py_round_int_def Let_def)
  show ?thesis
    using r C8_LatLng_eq_rounded
      [of "\<lparr>lat = 41.4993, lng = -81.6944, label = ''''\<rparr>"
          "\<lparr>lat = 41.49930004, lng = -81.69440002, label = ''''\<rparr>"
          "''Cleveland Hub''" "''Depot''" "\<lambda>(x, y). \<lfloor>x\<rfloor> + \<lfloor>y\<rfloor>"]
    by simp
qed

section \<open>Soft-constraint relaxation flag\<close>

text \<open>
  C5: \<^verbatim>\<open>is_relaxed\<close> is documented as "any soft constraints have been relaxed" and the
  class lists five soft-constraint weights, but the test reads only four of them.
  Lowering only the geographic-clustering weight (0.5 by default) to 0.1 leaves
  \<^verbatim>\<open>is_relaxed()\<close> false.
\<close>

theorem C5_is_relaxed_ignores_clustering:
  "weight_geographic_clustering (Constraints_default\<lparr>weight_geographic_clustering := 1 / 10\<rparr>)
     < 5 / 10
   \<and> \<not> is_relaxed (Constraints_default\<lparr>weight_geographic_clustering := 1 / 10\<rparr>)"
  by (simp add: is_relaxed_def Constraints_default_def)

section \<open>Evaluating the planner on the example data\<close>

lemmas ex_defs = ex_hub_def ex_near_def ex_far_def ex_item_def ex_bench_def ex_task_def
  ex_truck_def ex_person_def ex_game_far_def ex_game_near_def ex_week_def ex_matrix_def
  ex_solver_def

lemmas loader_defs = game_venues_def hub_locations_def demands_for_game_def assets_at_hub_def
  assets_at_venue_def available_vehicles_at_hub_def available_personnel_at_hub_def
  nearest_hub_def Hub_location_def Venue_location_def

lemmas matrix_defs = dm_get_def distance_miles_def duration_minutes_def location_index_def
  LatLng_eq_def py_round_def py_round_int_def

lemmas constraint_defs = build_constraints_def build_demand_def blocked_of_tasks_def
  Constraints_default_def weight_estimate_def check_capacity_weight_def check_branding_def
  match_asset_to_demand_def

lemmas planner_defs = assign_assets_to_demand_def shortfall_def assign_personnel_def
  TripPerson_of_def choose_vehicle_def no_vehicle_unassigned_def take_asset_def
  demand_step_def venue_step_def leg_def overload_warning_def build_trip_with_vehicle_def
  build_trip_for_cluster_def enumerate_def cluster_demand_weight_def reorder_trip_def
  optimize_week_def sort_desc_def OptimizationResult_default_def VenueCluster_of_def
  str_int_def digit_str_def

lemmas cluster_defs = cluster_venues_default_def cluster_venues_def order_cluster_def
  order_stops_nn_def

lemmas cascade_defs = step1_relax_soft_constraints_def step2_relax_branding_def
  step3_split_multi_stop_def step4_cross_hub_def run_step_def

lemma str_nat_small:
  "str_nat 0 = ''0''" "str_nat 1 = ''1''" "str_nat 2 = ''2''" "str_nat (Suc 0) = ''1''"
  by (simp_all add: str_nat.simps digit_str_def)

lemma ex_clusters:
  "cluster_venues_default [ex_far] [Hub_location ex_hub] ex_matrix
     = Inr [\<lparr>cl_venues = [ex_far], cl_total_demand_weight = 0,
             cl_ordered_venue_ids = [''ven-far'']\<rparr>]"
  by (simp add: cluster_defs sort_desc_def Venue_location_def ex_far_def)

lemma passes_b: "[1..<Suc MAX_PASSES] = [1, 2, 3, 4, 5, 6, 7, 8, 9, 10]"
  unfolding MAX_PASSES_def by (simp add: upt_rec)

lemmas score_defs = score_trip_def score_distance_efficiency_def score_capacity_utilization_def
  score_time_efficiency_def score_constraint_satisfaction_def score_multi_stop_bonus_def
  WEIGHT_DISTANCE_def WEIGHT_CAPACITY_def WEIGHT_TIME_def WEIGHT_CONSTRAINTS_def
  WEIGHT_MULTI_STOP_def weight_estimate_def

lemma ex_trip_score:
  "score_trip ex_trip ex_matrix
     (OptimizationResult_default\<lparr>trips := [ex_trip], unassigned_demands := [ex_unassigned]\<rparr>)
   = 59"
  by (simp add: score_defs ex_trip_def ex_matrix_def OptimizationResult_default_def Let_def
      py_round_def py_round_int_def)

lemma ex_blocked_run:
  "(case optimize_week ex_solver
           (ex_week 3 [ex_game_far] [ex_bench ''2'', ex_bench ''1''] [ex_task]) ex_matrix
           (build_constraints
              (ex_week 3 [ex_game_far] [ex_bench ''2'', ex_bench ''1''] [ex_task]))
           [\<lparr>cl_venues = [ex_far], cl_total_demand_weight = 0,
             cl_ordered_venue_ids = [''ven-far'']\<rparr>] 30000 None of
      Inl e \<Rightarrow> None
    | Inr r \<Rightarrow> Some (map (\<lambda>t. map ta_asset_id (assets t)) (trips r),
                      map ud_reason (unassigned_demands r)))
   = Some ([[''bench-1'']], [''Only 1 of 2 heated_bench available''])"
  by (simp add: ex_defs loader_defs matrix_defs constraint_defs planner_defs Let_def
      str_nat_small)

lemma ex_step1:
  "(case step1_relax_soft_constraints ex_solver
           (ex_week 3 [ex_game_far] [ex_bench ''2'', ex_bench ''1''] [ex_task]) ex_matrix of
      None \<Rightarrow> None
    | Some r \<Rightarrow> Some (map ud_reason (unassigned_demands r)))
   = Some [''Only 1 of 2 heated_bench available'']"
  by (simp add: ex_defs loader_defs matrix_defs constraint_defs planner_defs cluster_defs
      cascade_defs Let_def str_nat_small)

lemma ex_step2:
  "(case step2_relax_branding ex_solver
           (ex_week 3 [ex_game_far] [ex_bench ''2'', ex_bench ''1''] [ex_task]) ex_matrix of
      None \<Rightarrow> None
    | Some r \<Rightarrow> Some (unassigned_demands r, constraint_relaxations r,
                       map (\<lambda>t. map ta_asset_id (assets t)) (trips r)))
   = Some ([], [], [[''bench-2'', ''bench-1'']])"
  by (simp add: ex_defs loader_defs matrix_defs constraint_defs planner_defs cluster_defs
      cascade_defs Let_def str_nat_small)

section \<open>Scoring bounds\<close>

lemma score_trip_range: "0 \<le> score_trip trip dm result \<and> score_trip trip dm result \<le> 100"
  unfolding score_trip_def Let_def by (rule py_round_range) simp_all

lemma score_trips_loop_eq:
  "score_trips_loop dm r ts (scored, tot)
     = (scored @ map (\<lambda>t. t\<lparr>optimizer_score := score_trip t dm r\<rparr>) ts,
        tot + sum_list (map (\<lambda>t. score_trip t dm r) ts))"
  by (induction ts arbitrary: scored tot) simp_all

lemma sum_list_range:
  "(\<And>x. x \<in> set xs \<Longrightarrow> 0 \<le> x \<and> x \<le> (100::real))
     \<Longrightarrow> 0 \<le> sum_list xs \<and> sum_list xs \<le> 100 * of_nat (length xs)"
  by (induction xs) (auto simp: algebra_simps, force+)

lemma mean_range:
  assumes "ts \<noteq> []"
  shows "0 \<le> sum_list (map (\<lambda>t. score_trip t dm r) ts) / of_nat (length ts)
       \<and> sum_list (map (\<lambda>t. score_trip t dm r) ts) / of_nat (length ts) \<le> 100"
proof -
  have n: "(0::real) < of_nat (length ts)" using assms by simp
  have "0 \<le> sum_list (map (\<lambda>t. score_trip t dm r) ts)
      \<and> sum_list (map (\<lambda>t. score_trip t dm r) ts)
          \<le> 100 * of_nat (length (map (\<lambda>t. score_trip t dm r) ts))"
    by (rule sum_list_range) (auto simp: score_trip_range)
  then show ?thesis using n by (simp add: divide_le_eq)
qed

text \<open>
  C7: every trip score lies in [0,100]; so does the run average. When the run has trips,
  each trip carries its score and the average is the mean of the trip scores rounded to
  one decimal, reduced by min(30, 5 * number of unassigned demands) and floored at 0
  when unassigned demands exist. A result with no trips and no unassigned demands
  scores 100.
\<close>

theorem C7_scoring_bounds:
  "0 \<le> score_trip trip dm result \<and> score_trip trip dm result \<le> 100
   \<and> 0 \<le> average_score (score_run result dm) \<and> average_score (score_run result dm) \<le> 100
   \<and> (trips result \<noteq> [] \<longrightarrow>
        map optimizer_score (trips (score_run result dm))
          = map (\<lambda>t. score_trip t dm result) (trips result)
        \<and> average_score (score_run result dm)
          = (if unassigned_demands result = []
             then py_round (sum_list (map (\<lambda>t. score_trip t dm result) (trips result))
                            / of_nat (length (trips result))) 1
             else max 0 (py_round (sum_list (map (\<lambda>t. score_trip t dm result) (trips result))
                                   / of_nat (length (trips result))) 1
                         - of_int (min 30 (5 * int (length (unassigned_demands result)))))))
   \<and> (trips result = [] \<and> unassigned_demands result = []
        \<longrightarrow> average_score (score_run result dm) = 100)"
proof -
  let ?mean = "sum_list (map (\<lambda>t. score_trip t dm result) (trips result))
                 / of_nat (length (trips result))"
  have avg: "trips result \<noteq> [] \<Longrightarrow> 0 \<le> py_round ?mean 1 \<and> py_round ?mean 1 \<le> 100"
    using mean_range [of "trips result" dm result] py_round_range [of ?mean] by blast
  have pen: "(0::real) \<le> of_int (min 30 (5 * int (length (unassigned_demands result))))"
    by simp
  have a: "0 \<le> average_score (score_run result dm) \<and> average_score (score_run result dm) \<le> 100"
  proof (cases "trips result = []")
    case True
    then show ?thesis by (simp add: score_run_def)
  next
    case False
    then show ?thesis
      using avg pen
      by (simp add: score_run_def score_trips_loop_eq Let_def mult.commute) linarith
  qed
  have b: "trips result \<noteq> [] \<Longrightarrow>
        map optimizer_score (trips (score_run result dm))
          = map (\<lambda>t. score_trip t dm result) (trips result)"
    by (simp add: score_run_def score_trips_loop_eq Let_def comp_def)
  have c: "trips result \<noteq> [] \<Longrightarrow> average_score (score_run result dm)
          = (if unassigned_demands result = [] then py_round ?mean 1
             else max 0 (py_round ?mean 1
                         - of_int (min 30 (5 * int (length (unassigned_demands result))))))"
    by (simp add: score_run_def score_trips_loop_eq Let_def mult.commute)
  have d: "trips result = [] \<and> unassigned_demands result = []
        \<Longrightarrow> average_score (score_run result dm) = 100"
    by (simp add: score_run_def has_unassigned_def)
  show ?thesis using score_trip_range [of trip dm result] a b c d by blast
qed

theorem C7_scoring_bounds_witness:
  "trips (OptimizationResult_default\<lparr>trips := [ex_trip], unassigned_demands := [ex_unassigned]\<rparr>)
     \<noteq> []
   \<and> average_score
       (score_run
          (OptimizationResult_default\<lparr>trips := [ex_trip], unassigned_demands := [ex_unassigned]\<rparr>)
          ex_matrix) = 54
   \<and> average_score (score_run OptimizationResult_default ex_matrix) = 100"
proof -
  let ?r = "OptimizationResult_default\<lparr>trips := [ex_trip], unassigned_demands := [ex_unassigned]\<rparr>"
  have a: "trips ?r \<noteq> [] \<and> average_score (score_run ?r ex_matrix) = 54"
    using C7_scoring_bounds [of ex_trip ex_matrix ?r]
    by (simp add: ex_trip_score py_round_def py_round_int_def)
  have "trips OptimizationResult_default = []
      \<and> unassigned_demands OptimizationResult_default = []"
    by (simp add: OptimizationResult_default_def)
  then have "average_score (score_run OptimizationResult_default ex_matrix) = 100"
    using C7_scoring_bounds [of ex_trip ex_matrix OptimizationResult_default] by blast
  then show ?thesis using a by simp
qed

section \<open>Personnel assignment\<close>

lemma find_driver_eq:
  "find_driver ps used = find (\<lambda>p. per_role p = ''driver'' \<and> per_id p \<notin> used) ps"
  by (induction ps) auto

lemma find_tech_eq:
  "find_tech ps used
     = find (\<lambda>p. per_id p \<notin> used
                  \<and> (per_role p = ''lead_tech'' \<or> per_role p = ''service_tech'')) ps"
  by (induction ps) auto

text \<open>
  C6 (amended): the driver is the first unused person of the hub whose role is driver; if
  there is none, it is the first unused person, in the order of the availability list,
  whose role is lead_tech or service_tech (neither role has priority over the other).
  Afterwards the first person still unused whose role is service_tech or lead_tech is
  added as service tech.
\<close>

theorem C6_personnel_order:
  "assign_personnel hub wd used =
     (let available = available_personnel_at_hub wd (hub_id hub);
          free_tech = (\<lambda>u p. per_id p \<notin> u
                         \<and> (per_role p = ''lead_tech'' \<or> per_role p = ''service_tech''));
          driver = (case find (\<lambda>p. per_role p = ''driver'' \<and> per_id p \<notin> used) available of
                      Some p \<Rightarrow> Some p
                    | None \<Rightarrow> find (free_tech used) available);
          used1 = (case driver of None \<Rightarrow> used | Some p \<Rightarrow> insert (per_id p) used);
          extra = find (free_tech used1) available
      in ((case driver of None \<Rightarrow> [] | Some p \<Rightarrow> [TripPerson_of p ''driver''])
          @ (case extra of None \<Rightarrow> [] | Some p \<Rightarrow> [TripPerson_of p ''service_tech'']),
          (case extra of None \<Rightarrow> used1 | Some p \<Rightarrow> insert (per_id p) used1)))"
  unfolding assign_personnel_def Let_def find_driver_eq find_tech_eq
  by (simp split: option.splits)

text \<open>
  C6 (as stated): with an unused lead_tech and an unused service_tech but no driver, the
  lead_tech becomes the driver. The hub of the example lists the service tech before the
  lead tech: the service tech drives and the lead tech is added as service tech.
\<close>

theorem C6_lead_tech_first_counterexample:
  "map per_role (available_personnel_at_hub (ex_week 3 [] [] []) (hub_id ex_hub))
     = [''service_tech'', ''lead_tech'']
   \<and> map (\<lambda>p. (tp_person_id p, tp_role_on_trip p))
         (fst (assign_personnel ex_hub (ex_week 3 [] [] []) {}))
     = [(''p-sam'', ''driver''), (''p-lee'', ''service_tech'')]"
  by (simp add: ex_defs loader_defs assign_personnel_def TripPerson_of_def)

theorem C6_personnel_order_witness:
  "map (\<lambda>p. (tp_person_id p, tp_role_on_trip p))
       (fst (assign_personnel ex_hub
               ((ex_week 3 [] [] [])
                  \<lparr>wd_personnel := [ex_person ''sam'' ''service_tech'',
                                     ex_person ''dan'' ''driver'',
                                     ex_person ''lee'' ''lead_tech'']\<rparr>) {}))
     = [(''p-dan'', ''driver''), (''p-sam'', ''service_tech'')]"
  using C6_personnel_order
    [of ex_hub "(ex_week 3 [] [] [])
                  \<lparr>wd_personnel := [ex_person ''sam'' ''service_tech'',
                                     ex_person ''dan'' ''driver'',
                                     ex_person ''lee'' ''lead_tech'']\<rparr>" "{}"]
  by (simp add: ex_defs loader_defs TripPerson_of_def Let_def)

section \<open>Lookahead: the hub-return flags\<close>

lemma flags_agree_leave: "flags_agree leave_on_site"
  by (simp add: flags_agree_def leave_on_site_def)

lemma flags_agree_reroute: "flags_agree (reroute_to g)"
  by (simp add: flags_agree_def reroute_to_def)

lemma flags_agree_return: "flags_agree (return_to_hub s)"
  by (simp add: flags_agree_def return_to_hub_def)

lemma flags_agree_nearby: "flags_agree (nearby_or_default venue games)"
  by (simp add: nearby_or_default_def flags_agree_leave flags_agree_reroute
      split: option.splits)

lemma flags_agree_determine:
  "flags_agree (determine_disposition stop trip games sy wk venue cust)"
  unfolding determine_disposition_def Let_def
  by (simp add: flags_agree_leave flags_agree_reroute flags_agree_return flags_agree_nearby
      split: option.splits)

text \<open>
  C10: in every disposition returned by \<^verbatim>\<open>determine_disposition\<close>, \<^verbatim>\<open>requires_hub_return\<close>
  is true exactly when the action is \<^verbatim>\<open>return_to_hub\<close>, and a hub-return reason is present
  exactly then. After \<^verbatim>\<open>determine_post_game_disposition\<close> every stop has
  \<^verbatim>\<open>requires_hub_return\<close> set exactly when its disposition was \<^verbatim>\<open>return_to_hub\<close>.
\<close>

theorem C10_disposition_flags:
  "disp_requires_hub_return (determine_disposition stop trip games sy wk venue cust)
     = (disp_action (determine_disposition stop trip games sy wk venue cust) = ''return_to_hub'')
   \<and> (disp_hub_return_reason (determine_disposition stop trip games sy wk venue cust) \<noteq> None)
     = (disp_action (determine_disposition stop trip games sy wk venue cust) = ''return_to_hub'')
   \<and> map (\<lambda>t. map requires_hub_return (stops t))
         (trips (determine_post_game_disposition r games sy wk))
     = map (\<lambda>t. map (\<lambda>s. disp_action (stop_disposition games sy wk t s) = ''return_to_hub'')
                     (stops t))
         (trips r)"
proof -
  have "requires_hub_return (apply_disposition (stop_disposition games sy wk t s) s)
      = (disp_action (stop_disposition games sy wk t s) = ''return_to_hub'')" for t s
    using flags_agree_determine
    by (simp add: apply_disposition_def stop_disposition_def flags_agree_def)
  then show ?thesis
    using flags_agree_determine [of stop trip games sy wk venue cust]
    by (simp add: determine_post_game_disposition_def dispose_trip_def comp_def
        flags_agree_def)
qed

theorem C10_disposition_flags_witness:
  "disp_action (determine_disposition (hd (stops ex_trip)) ex_trip [ex_game_far] 2025 18
                  None None) = ''return_to_hub''
   \<and> disp_requires_hub_return
       (determine_disposition (hd (stops ex_trip)) ex_trip [ex_game_far] 2025 18 None None)
   \<and> map (\<lambda>t. map requires_hub_return (stops t))
         (trips (determine_post_game_disposition
                   (OptimizationResult_default\<lparr>trips := [ex_trip]\<rparr>) [ex_game_far] 2025 18))
     = [[True]]
   \<and> map (\<lambda>t. map requires_hub_return (stops t))
         (trips (determine_post_game_disposition
                   (OptimizationResult_default\<lparr>trips := [ex_trip]\<rparr>) [ex_game_far] 2025 7))
     = [[False]]"
  using C10_disposition_flags
    [of "hd (stops ex_trip)" ex_trip "[ex_game_far]" 2025 18 None None
        "OptimizationResult_default\<lparr>trips := [ex_trip]\<rparr>"]
    C10_disposition_flags
    [of "hd (stops ex_trip)" ex_trip "[ex_game_far]" 2025 7 None None
        "OptimizationResult_default\<lparr>trips := [ex_trip]\<rparr>"]
  by (simp add: determine_disposition_def stop_disposition_def return_to_hub_def
      leave_on_site_def nearby_or_default_def ex_trip_def OptimizationResult_default_def)

section \<open>The infeasibility cascade\<close>

lemma finish_cascade_unassigned:
  "length (unassigned_demands (finish_cascade wd b)) = length (unassigned_demands b)"
  by (simp add: finish_cascade_def step5_classify_unassigned_def log_entry_def Let_def)

lemma finish_cascade_trips: "trips (finish_cascade wd b) = trips b"
  by (simp add: finish_cascade_def step5_classify_unassigned_def log_entry_def Let_def)

lemma adopt_unassigned:
  "unassigned_demands (adopt1 r) = unassigned_demands r"
  "unassigned_demands (adopt2 r) = unassigned_demands r"
  "unassigned_demands (adopt3 r) = unassigned_demands r"
  "unassigned_demands (adopt4 r) = unassigned_demands r"
  by (simp_all add: adopt1_def adopt2_def adopt3_def adopt4_def log_entry_def Let_def)

lemma adopt_trips:
  "trips (adopt1 r) = trips r" "trips (adopt2 r) = trips r"
  "trips (adopt3 r) = trips r" "trips (adopt4 r) = trips r"
  by (simp_all add: adopt1_def adopt2_def adopt3_def adopt4_def log_entry_def Let_def)

lemma cascade_from4_count:
  "length (unassigned_demands (cascade_from4 s wd dm best))
     = cnt_opt (step4_cross_hub s wd dm) (length (unassigned_demands best))"
  by (cases "step4_cross_hub s wd dm")
     (auto simp: cascade_from4_def is_better_def has_unassigned_def
        finish_cascade_unassigned adopt_unassigned)

lemma cascade_from3_count:
  "length (unassigned_demands (cascade_from3 s wd dm best))
     = cnt_opt (step4_cross_hub s wd dm)
         (cnt_opt (step3_split_multi_stop s wd dm) (length (unassigned_demands best)))"
  by (cases "step3_split_multi_stop s wd dm"; cases "step4_cross_hub s wd dm")
     (auto simp: cascade_from3_def is_better_def has_unassigned_def
        cascade_from4_count adopt_unassigned)

lemma cascade_from2_count:
  "length (unassigned_demands (cascade_from2 s wd dm best))
     = cnt_opt (step4_cross_hub s wd dm)
         (cnt_opt (step3_split_multi_stop s wd dm)
            (cnt_opt (step2_relax_branding s wd dm) (length (unassigned_demands best))))"
  by (cases "step2_relax_branding s wd dm"; cases "step3_split_multi_stop s wd dm";
      cases "step4_cross_hub s wd dm")
     (auto simp: cascade_from2_def is_better_def has_unassigned_def
        cascade_from3_count adopt_unassigned)

lemma handle_infeasibility_count:
  "length (unassigned_demands (handle_infeasibility s wd dm init))
     = cnt_opt (step4_cross_hub s wd dm)
         (cnt_opt (step3_split_multi_stop s wd dm)
            (cnt_opt (step2_relax_branding s wd dm)
               (cnt_opt (step1_relax_soft_constraints s wd dm)
                  (length (unassigned_demands init)))))"
  by (cases "step1_relax_soft_constraints s wd dm"; cases "step2_relax_branding s wd dm";
      cases "step3_split_multi_stop s wd dm"; cases "step4_cross_hub s wd dm")
     (auto simp: handle_infeasibility_def is_better_def has_unassigned_def
        cascade_from2_count adopt_unassigned)

lemma cnt_opt_le: "cnt_opt x n \<le> n"
  by (cases x) simp_all

lemma cnt_opt_mono: "m \<le> n \<Longrightarrow> cnt_opt x m \<le> cnt_opt x n"
  by (cases x) simp_all

lemma cnt_opt_Some_le: "cnt_opt (Some r) n \<le> length (unassigned_demands r)"
  by simp

lemma cnt_opt_under1:
  "cnt_opt a (cnt_opt (Some r) m) \<le> length (unassigned_demands r)"
  by (rule order_trans [OF cnt_opt_le]) simp

lemma cnt_opt_under2:
  "cnt_opt a (cnt_opt b (cnt_opt (Some r) m)) \<le> length (unassigned_demands r)"
  by (rule order_trans [OF cnt_opt_le]) (rule cnt_opt_under1)

lemma cnt_opt_under3:
  "cnt_opt a (cnt_opt b (cnt_opt c (cnt_opt (Some r) m))) \<le> length (unassigned_demands r)"
  by (rule order_trans [OF cnt_opt_le]) (rule cnt_opt_under2)

lemma cascade_from4_kept:
  "trips (cascade_from4 s wd dm best) = trips best
   \<or> length (unassigned_demands (cascade_from4 s wd dm best))
        < length (unassigned_demands best)"
  by (cases "step4_cross_hub s wd dm")
     (auto simp: cascade_from4_def is_better_def has_unassigned_def
        finish_cascade_unassigned finish_cascade_trips adopt_unassigned adopt_trips)

lemma cascade_from3_kept:
  "trips (cascade_from3 s wd dm best) = trips best
   \<or> length (unassigned_demands (cascade_from3 s wd dm best))
        < length (unassigned_demands best)"
proof (cases "step3_split_multi_stop s wd dm")
  case None
  then show ?thesis using cascade_from4_kept [of s wd dm best]
    by (simp add: cascade_from3_def)
next
  case (Some r)
  show ?thesis
  proof (cases "is_better r best")
    case True
    have "length (unassigned_demands (cascade_from4 s wd dm (adopt3 r)))
        \<le> length (unassigned_demands r)"
      by (simp add: cascade_from4_count cnt_opt_le adopt_unassigned)
    then show ?thesis using Some True
      by (auto simp: cascade_from3_def is_better_def adopt_unassigned)
  next
    case False
    then show ?thesis using Some cascade_from4_kept [of s wd dm best]
      by (simp add: cascade_from3_def)
  qed
qed

lemma cascade_from2_kept:
  "trips (cascade_from2 s wd dm best) = trips best
   \<or> length (unassigned_demands (cascade_from2 s wd dm best))
        < length (unassigned_demands best)"
proof (cases "step2_relax_branding s wd dm")
  case None
  then show ?thesis using cascade_from3_kept [of s wd dm best]
    by (simp add: cascade_from2_def)
next
  case (Some r)
  show ?thesis
  proof (cases "is_better r best")
    case True
    have "length (unassigned_demands (cascade_from3 s wd dm (adopt2 r)))
        \<le> length (unassigned_demands r)"
      by (simp add: cascade_from3_count adopt_unassigned)
         (meson cnt_opt_le order_trans)
    then show ?thesis using Some True
      by (auto simp: cascade_from2_def is_better_def adopt_unassigned)
  next
    case False
    then show ?thesis using Some cascade_from3_kept [of s wd dm best]
      by (simp add: cascade_from2_def)
  qed
qed

lemma handle_infeasibility_kept:
  "trips (handle_infeasibility s wd dm init) = trips init
   \<or> length (unassigned_demands (handle_infeasibility s wd dm init))
        < length (unassigned_demands init)"
proof (cases "unassigned_demands init = []")
  case True
  then show ?thesis by (simp add: handle_infeasibility_def)
next
  case ne: False
  show ?thesis
  proof (cases "step1_relax_soft_constraints s wd dm")
    case None
    then show ?thesis using ne cascade_from2_kept [of s wd dm init]
      by (simp add: handle_infeasibility_def)
  next
    case (Some r)
    show ?thesis
    proof (cases "is_better r init")
      case True
      have "length (unassigned_demands (cascade_from2 s wd dm (adopt1 r)))
          \<le> length (unassigned_demands r)"
        by (simp add: cascade_from2_count adopt_unassigned)
           (meson cnt_opt_le order_trans)
      then show ?thesis using Some True ne
        by (auto simp: handle_infeasibility_def is_better_def adopt_unassigned)
    next
      case False
      then show ?thesis using Some ne cascade_from2_kept [of s wd dm init]
        by (simp add: handle_infeasibility_def)
    qed
  qed
qed

lemma cascade_from4_zero:
  "unassigned_demands best \<noteq> [] \<Longrightarrow> step4_cross_hub s wd dm = Some r
     \<Longrightarrow> unassigned_demands r = [] \<Longrightarrow> cascade_from4 s wd dm best = adopt4 r"
  by (simp add: cascade_from4_def is_better_def has_unassigned_def)

lemma cascade_from3_zero:
  "unassigned_demands best \<noteq> [] \<Longrightarrow> step3_split_multi_stop s wd dm = Some r
     \<Longrightarrow> unassigned_demands r = [] \<Longrightarrow> cascade_from3 s wd dm best = adopt3 r"
  by (simp add: cascade_from3_def is_better_def has_unassigned_def)

lemma cascade_from2_zero:
  "unassigned_demands best \<noteq> [] \<Longrightarrow> step2_relax_branding s wd dm = Some r
     \<Longrightarrow> unassigned_demands r = [] \<Longrightarrow> cascade_from2 s wd dm best = adopt2 r"
  by (simp add: cascade_from2_def is_better_def has_unassigned_def)

lemma cascade_from3_pass:
  "\<exists>best'. unassigned_demands best' \<noteq> []
           \<and> cascade_from3 s wd dm best = cascade_from4 s wd dm best'"
  if "unassigned_demands best \<noteq> []" "nonzero (step3_split_multi_stop s wd dm)"
proof (cases "step3_split_multi_stop s wd dm")
  case None
  then show ?thesis using that by (auto simp: cascade_from3_def)
next
  case (Some r)
  show ?thesis
  proof (cases "is_better r best")
    case True
    have "unassigned_demands (adopt3 r) \<noteq> []"
      using Some that by (simp add: nonzero_def adopt_unassigned)
    moreover have "cascade_from3 s wd dm best = cascade_from4 s wd dm (adopt3 r)"
      using Some True that by (simp add: cascade_from3_def nonzero_def has_unassigned_def)
    ultimately show ?thesis by blast
  next
    case False
    then show ?thesis using Some that by (auto simp: cascade_from3_def)
  qed
qed

lemma cascade_from2_pass:
  "\<exists>best'. unassigned_demands best' \<noteq> []
           \<and> cascade_from2 s wd dm best = cascade_from3 s wd dm best'"
  if "unassigned_demands best \<noteq> []" "nonzero (step2_relax_branding s wd dm)"
proof (cases "step2_relax_branding s wd dm")
  case None
  then show ?thesis using that by (auto simp: cascade_from2_def)
next
  case (Some r)
  show ?thesis
  proof (cases "is_better r best")
    case True
    have "unassigned_demands (adopt2 r) \<noteq> []"
      using Some that by (simp add: nonzero_def adopt_unassigned)
    moreover have "cascade_from2 s wd dm best = cascade_from3 s wd dm (adopt2 r)"
      using Some True that by (simp add: cascade_from2_def nonzero_def has_unassigned_def)
    ultimately show ?thesis by blast
  next
    case False
    then show ?thesis using Some that by (auto simp: cascade_from2_def)
  qed
qed

lemma handle_pass:
  "\<exists>best'. unassigned_demands best' \<noteq> []
           \<and> handle_infeasibility s wd dm init = cascade_from2 s wd dm best'"
  if "unassigned_demands init \<noteq> []" "nonzero (step1_relax_soft_constraints s wd dm)"
proof (cases "step1_relax_soft_constraints s wd dm")
  case None
  then show ?thesis using that by (auto simp: handle_infeasibility_def)
next
  case (Some r)
  show ?thesis
  proof (cases "is_better r init")
    case True
    have "unassigned_demands (adopt1 r) \<noteq> []"
      using Some that by (simp add: nonzero_def adopt_unassigned)
    moreover have "handle_infeasibility s wd dm init = cascade_from2 s wd dm (adopt1 r)"
      using Some True that
      by (simp add: handle_infeasibility_def nonzero_def has_unassigned_def)
    ultimately show ?thesis by blast
  next
    case False
    then show ?thesis using Some that by (auto simp: handle_infeasibility_def)
  qed
qed

text \<open>
  C1: the cascade never returns more unassigned demands than the initial result has.
  A result other than the initial one is returned only with strictly fewer unassigned
  demands, the returned result has at most as many as any step result, and the first
  step that reaches zero unassigned demands ends the cascade: its result is returned
  with the log entry of that step.
\<close>

theorem C1_cascade_monotone:
  "length (unassigned_demands (handle_infeasibility s wd dm init))
     \<le> length (unassigned_demands init)
   \<and> (trips (handle_infeasibility s wd dm init) \<noteq> trips init
        \<longrightarrow> length (unassigned_demands (handle_infeasibility s wd dm init))
             < length (unassigned_demands init))
   \<and> (unassigned_demands init \<noteq> [] \<longrightarrow>
        (\<forall>r. step1_relax_soft_constraints s wd dm = Some r \<or> step2_relax_branding s wd dm = Some r
              \<or> step3_split_multi_stop s wd dm = Some r \<or> step4_cross_hub s wd dm = Some r
           \<longrightarrow> length (unassigned_demands (handle_infeasibility s wd dm init))
                \<le> length (unassigned_demands r)))
   \<and> (unassigned_demands init \<noteq> [] \<longrightarrow>
        (\<forall>r. unassigned_demands r = [] \<longrightarrow>
           (step1_relax_soft_constraints s wd dm = Some r
              \<longrightarrow> handle_infeasibility s wd dm init = adopt1 r)
         \<and> (nonzero (step1_relax_soft_constraints s wd dm)
              \<and> step2_relax_branding s wd dm = Some r
              \<longrightarrow> handle_infeasibility s wd dm init = adopt2 r)
         \<and> (nonzero (step1_relax_soft_constraints s wd dm)
              \<and> nonzero (step2_relax_branding s wd dm)
              \<and> step3_split_multi_stop s wd dm = Some r
              \<longrightarrow> handle_infeasibility s wd dm init = adopt3 r)
         \<and> (nonzero (step1_relax_soft_constraints s wd dm)
              \<and> nonzero (step2_relax_branding s wd dm)
              \<and> nonzero (step3_split_multi_stop s wd dm)
              \<and> step4_cross_hub s wd dm = Some r
              \<longrightarrow> handle_infeasibility s wd dm init = adopt4 r)))"
proof (intro conjI impI allI)
  show "length (unassigned_demands (handle_infeasibility s wd dm init))
     \<le> length (unassigned_demands init)"
    unfolding handle_infeasibility_count
    by (meson cnt_opt_le order_trans)
next
  assume "trips (handle_infeasibility s wd dm init) \<noteq> trips init"
  then show "length (unassigned_demands (handle_infeasibility s wd dm init))
             < length (unassigned_demands init)"
    using handle_infeasibility_kept [of s wd dm init] by simp
next
  fix r
  assume "step1_relax_soft_constraints s wd dm = Some r \<or> step2_relax_branding s wd dm = Some r
              \<or> step3_split_multi_stop s wd dm = Some r \<or> step4_cross_hub s wd dm = Some r"
  then show "length (unassigned_demands (handle_infeasibility s wd dm init))
                \<le> length (unassigned_demands r)"
    unfolding handle_infeasibility_count
    by (elim disjE) (simp_all only: cnt_opt_Some_le cnt_opt_under1 cnt_opt_under2 cnt_opt_under3)
next
  fix r
  assume "unassigned_demands init \<noteq> []" "unassigned_demands r = []"
    "step1_relax_soft_constraints s wd dm = Some r"
  then show "handle_infeasibility s wd dm init = adopt1 r"
    by (simp add: handle_infeasibility_def is_better_def has_unassigned_def)
next
  fix r
  assume a: "unassigned_demands init \<noteq> []" "unassigned_demands r = []"
    "nonzero (step1_relax_soft_constraints s wd dm) \<and> step2_relax_branding s wd dm = Some r"
  then obtain b where "unassigned_demands b \<noteq> []"
    "handle_infeasibility s wd dm init = cascade_from2 s wd dm b"
    using handle_pass by blast
  then show "handle_infeasibility s wd dm init = adopt2 r"
    using a cascade_from2_zero by simp
next
  fix r
  assume a: "unassigned_demands init \<noteq> []" "unassigned_demands r = []"
    "nonzero (step1_relax_soft_constraints s wd dm)
              \<and> nonzero (step2_relax_branding s wd dm)
              \<and> step3_split_multi_stop s wd dm = Some r"
  then obtain b where b: "unassigned_demands b \<noteq> []"
    "handle_infeasibility s wd dm init = cascade_from2 s wd dm b"
    using handle_pass by blast
  then obtain b' where "unassigned_demands b' \<noteq> []"
    "cascade_from2 s wd dm b = cascade_from3 s wd dm b'"
    using a cascade_from2_pass by blast
  then show "handle_infeasibility s wd dm init = adopt3 r"
    using a b cascade_from3_zero by simp
next
  fix r
  assume a: "unassigned_demands init \<noteq> []" "unassigned_demands r = []"
    "nonzero (step1_relax_soft_constraints s wd dm)
              \<and> nonzero (step2_relax_branding s wd dm)
              \<and> nonzero (step3_split_multi_stop s wd dm)
              \<and> step4_cross_hub s wd dm = Some r"
  then obtain b where b: "unassigned_demands b \<noteq> []"
    "handle_infeasibility s wd dm init = cascade_from2 s wd dm b"
    using handle_pass by blast
  then obtain b' where b': "unassigned_demands b' \<noteq> []"
    "cascade_from2 s wd dm b = cascade_from3 s wd dm b'"
    using a cascade_from2_pass by blast
  then obtain b'' where "unassigned_demands b'' \<noteq> []"
    "cascade_from3 s wd dm b' = cascade_from4 s wd dm b''"
    using a cascade_from3_pass by blast
  then show "handle_infeasibility s wd dm init = adopt4 r"
    using a b b' cascade_from4_zero by simp
qed

theorem C1_cascade_monotone_witness:
  "(case optimize_week ex_solver
           (ex_week 3 [ex_game_far] [ex_bench ''2'', ex_bench ''1''] [ex_task]) ex_matrix
           (build_constraints
              (ex_week 3 [ex_game_far] [ex_bench ''2'', ex_bench ''1''] [ex_task]))
           [\<lparr>cl_venues = [ex_far], cl_total_demand_weight = 0,
             cl_ordered_venue_ids = [''ven-far'']\<rparr>] 30000 None of
      Inl e \<Rightarrow> False
    | Inr init \<Rightarrow>
        length (unassigned_demands init) = 1
        \<and> unassigned_demands
            (handle_infeasibility ex_solver
               (ex_week 3 [ex_game_far] [ex_bench ''2'', ex_bench ''1''] [ex_task])
               ex_matrix init) = []
        \<and> map rx_step
            (constraint_relaxations
               (handle_infeasibility ex_solver
                  (ex_week 3 [ex_game_far] [ex_bench ''2'', ex_bench ''1''] [ex_task])
                  ex_matrix init)) = [2])"
proof -
  let ?wd = "ex_week 3 [ex_game_far] [ex_bench ''2'', ex_bench ''1''] [ex_task]"
  obtain init where run: "optimize_week ex_solver ?wd ex_matrix (build_constraints ?wd)
        [\<lparr>cl_venues = [ex_far], cl_total_demand_weight = 0,
          cl_ordered_venue_ids = [''ven-far'']\<rparr>] 30000 None = Inr init"
    and un: "length (unassigned_demands init) = 1"
    using ex_blocked_run by (auto split: sum.splits)
  have ne: "unassigned_demands init \<noteq> []" using un by auto
  have s1: "nonzero (step1_relax_soft_constraints ex_solver ?wd ex_matrix)"
    using ex_step1 by (auto simp: nonzero_def split: option.splits)
  obtain r where s2: "step2_relax_branding ex_solver ?wd ex_matrix = Some r"
    and z: "unassigned_demands r = []" and l: "constraint_relaxations r = []"
    using ex_step2 by (auto split: option.splits)
  have "handle_infeasibility ex_solver ?wd ex_matrix init = adopt2 r"
    using C1_cascade_monotone [of ex_solver ?wd ex_matrix init] ne s1 s2 z by blast
  then show ?thesis
    using run un z l by (simp add: adopt2_def log_entry_def Let_def)
qed

section \<open>The planner returns a result\<close>

text \<open>
  The only exception the planner can raise is the \<^verbatim>\<open>IndexError\<close> of the distance matrix
  and of list indexing. Every index given to the matrix comes from \<^verbatim>\<open>location_index\<close>,
  which answers within the matrix, and the reordering indexes the stops by the nodes of
  the solver's route. So the clustering never raises, and the planner, in the regular and
  in the preseason variant, returns a result whenever the solver keeps its contract.
\<close>

lemma location_index_from_bound:
  "location_index_from locs l k = Some i \<Longrightarrow> i < k + length locs"
  by (induction locs arbitrary: k) (auto split: if_splits, fastforce)

lemma location_index_ok: "idx_ok dm (location_index dm l)"
  using location_index_from_bound [of "dm_locations dm" l 0]
  by (auto simp: idx_ok_def location_index_def split: option.splits)

lemma distance_miles_ok:
  "i < length (dm_locations dm) \<Longrightarrow> j < length (dm_locations dm)
     \<Longrightarrow> \<exists>d. distance_miles dm i j = Inr d"
  by (simp add: distance_miles_def dm_get_def split: option.splits)

lemma duration_minutes_ok:
  "i < length (dm_locations dm) \<Longrightarrow> j < length (dm_locations dm)
     \<Longrightarrow> \<exists>d. duration_minutes dm i j = Inr d"
  by (simp add: duration_minutes_def dm_get_def split: option.splits)

lemma leg_ok: "idx_ok dm a \<Longrightarrow> idx_ok dm b \<Longrightarrow> \<exists>x. leg dm a b = Inr x"
proof (cases a)
  case None
  then show ?thesis by (simp add: leg_def)
next
  case (Some i)
  assume a: "idx_ok dm a" and b: "idx_ok dm b"
  show ?thesis
  proof (cases b)
    case None
    then show ?thesis using Some by (simp add: leg_def)
  next
    case (Some j)
    obtain mi mn where "distance_miles dm i j = Inr mi" "duration_minutes dm i j = Inr mn"
      using a b \<open>a = Some i\<close> Some distance_miles_ok [of i dm j] duration_minutes_ok [of i dm j]
      by (auto simp: idx_ok_def)
    then show ?thesis using \<open>a = Some i\<close> Some by (simp add: leg_def)
  qed
qed

lemma route_loop_ok:
  "idx_ok dm prev \<Longrightarrow> \<exists>p mi mn. route_loop dm cl ss (prev, miles, minutes) = Inr (p, mi, mn)
                                    \<and> idx_ok dm p"
proof (induction ss arbitrary: prev miles minutes)
  case Nil
  then show ?case by simp
next
  case (Cons stop ss)
  show ?case
  proof (cases "find (\<lambda>v. ven_id v = venue_id stop) (cl_venues cl)")
    case None
    then show ?thesis using Cons by simp
  next
    case (Some venue)
    show ?thesis
    proof (cases "Venue_location venue")
      case None
      then show ?thesis using Some Cons by simp
    next
      case (Some loc)
      obtain mi mn where l: "leg dm prev (location_index dm loc) = Inr (mi, mn)"
        using leg_ok [OF Cons.prems location_index_ok [of dm loc]] by fastforce
      show ?thesis
        using Cons.IH [OF location_index_ok [of dm loc]] l Some
          \<open>find (\<lambda>v. ven_id v = venue_id stop) (cl_venues cl) = Some venue\<close>
        by simp
    qed
  qed
qed

lemma build_trip_with_vehicle_ok:
  "\<exists>x. build_trip_with_vehicle cl wd dm c u fv veh hub w0 = Inr x"
proof -
  let ?fin = "fold (venue_step wd c) (enumerate (cl_venues cl))
                \<lparr>g_trip_assets = [], g_trip_stops = [], g_total_weight = 0,
                 g_hub_assets = filter (\<lambda>a. asset_id a \<notin> used_asset_ids u)
                                  (assets_at_hub wd (hub_id hub)),
                 g_used_asset_ids = used_asset_ids u, g_all_unassigned = []\<rparr>"
  let ?h = "location_index dm (Hub_location hub)"
  obtain p mi mn where r: "route_loop dm cl (g_trip_stops ?fin) (?h, 0, 0) = Inr (p, mi, mn)"
    and p: "idx_ok dm p"
    using route_loop_ok [OF location_index_ok] by blast
  obtain mi2 mn2 where l: "leg dm p ?h = Inr (mi2, mn2)"
    using leg_ok [OF p location_index_ok [of dm "Hub_location hub"]] by fastforce
  show ?thesis
    unfolding build_trip_with_vehicle_def Let_def
    using r l by (simp split: prod.splits)
qed

lemma build_trip_for_cluster_ok: "\<exists>x. build_trip_for_cluster cl wd dm c u = Inr x"
  using build_trip_with_vehicle_ok
  by (auto simp: build_trip_for_cluster_def split: list.splits option.splits prod.splits)

lemma clusters_loop_ok: "\<exists>x. clusters_loop wd dm c cls st = Inr x"
proof (induction cls arbitrary: st)
  case Nil
  then show ?case by simp
next
  case (Cons cl cls)
  obtain res u where st: "st = (res, u)" by (cases st)
  obtain trip un ws u1 where "build_trip_for_cluster cl wd dm c u = Inr ((trip, un, ws), u1)"
    using build_trip_for_cluster_ok [of cl wd dm c u] by (metis prod_cases3 surj_pair)
  then show ?case using Cons.IH by (simp add: st)
qed

lemma map_err_ok:
  "(\<And>x. x \<in> set xs \<Longrightarrow> \<exists>y. f x = Inr y)
     \<Longrightarrow> \<exists>ys. map_err f xs = Inr ys \<and> length ys = length xs"
proof (induction xs)
  case Nil
  then show ?case by simp
next
  case (Cons x xs)
  obtain y where "f x = Inr y" using Cons.prems by auto
  moreover obtain ys where "map_err f xs = Inr ys" "length ys = length xs"
    using Cons by auto
  ultimately show ?case by simp
qed

lemma local_cell_ok: "\<exists>c. local_cell dm sl i j = Inr c"
proof -
  have "\<exists>d. distance_miles dm a b = Inr d"
    if "location_index dm la = Some a" "location_index dm lb = Some b" for a b la lb
    using that location_index_ok [of dm la] location_index_ok [of dm lb]
      distance_miles_ok [of a dm b]
    by (simp add: idx_ok_def)
  then show ?thesis
    unfolding local_cell_def by (fastforce split: option.splits)
qed

lemma reorder_ok:
  assumes "solver_ok s"
  shows "\<exists>ss. ortools_reorder_stops s trip dm t = Inr ss"
proof (cases "length (stops trip) + 1 \<le> 3")
  case True
  then show ?thesis by (simp add: ortools_reorder_stops_def Let_def)
next
  case False
  let ?n = "length (stops trip) + 1"
  let ?sl = "Some (case find (\<lambda>loc. label loc = origin_hub_name trip) (dm_locations dm) of
                     None \<Rightarrow> \<lparr>lat = 0, lng = 0, label = ''hub''\<rparr>
                   | Some loc \<Rightarrow> loc)
             # map (\<lambda>stop. find (\<lambda>loc. label loc = venue_name stop) (dm_locations dm))
                 (stops trip)"
  have rows: "\<exists>row. map_err (local_cell dm ?sl i) [0..<?n] = Inr row" for i
    using map_err_ok [of "[0..<?n]" "local_cell dm ?sl i"] local_cell_ok by blast
  obtain ld where ld: "map_err (\<lambda>i. map_err (local_cell dm ?sl i) [0..<?n]) [0..<?n] = Inr ld"
    and len: "length ld = length [0..<?n]"
    using map_err_ok [of "[0..<?n]" "\<lambda>i. map_err (local_cell dm ?sl i) [0..<?n]"] rows
    by blast
  show ?thesis
  proof (cases "s ld (min t 5000)")
    case None
    then show ?thesis using False ld by (simp add: ortools_reorder_stops_def Let_def)
  next
    case (Some route)
    then have "list_all (\<lambda>node. node < length ld) route"
      using assms by (auto simp: solver_ok_def)
    then have "list_all (\<lambda>i. i < length (stops trip))
                 (map (\<lambda>node. node - 1) (filter (\<lambda>node. node \<noteq> 0) route))"
      using len by (auto simp: list_all_iff)
    then show ?thesis
      using False ld Some by (simp add: ortools_reorder_stops_def Let_def)
  qed
qed

lemma optimize_week_ok:
  assumes "solver_ok s"
  shows "\<exists>r. optimize_week s wd dm c clusters t pre = Inr r"
proof -
  let ?ordered = "sort_desc (<) cl_total_demand_weight
                    (map (\<lambda>cl. cl\<lparr>cl_total_demand_weight := cluster_demand_weight c cl\<rparr>) clusters)"
  let ?used = "\<lparr>used_vehicle_ids = {},
               used_asset_ids = (case pre of None \<Rightarrow> {} | Some s \<Rightarrow> s),
               used_person_ids = {}\<rparr>"
  obtain res u where
    cl: "clusters_loop wd dm c ?ordered (OptimizationResult_default, ?used) = Inr (res, u)"
    using clusters_loop_ok [of wd dm c ?ordered "(OptimizationResult_default, ?used)"]
    by fastforce
  have "\<exists>y. reorder_trip s dm t trip = Inr y" for trip
    using reorder_ok [OF assms, of trip dm t]
    by (auto simp: reorder_trip_def)
  then obtain ts where "map_err (reorder_trip s dm t) (trips res) = Inr ts"
    using map_err_ok [of "trips res" "reorder_trip s dm t"] by blast
  then show ?thesis using cl by (simp add: optimize_week_def Let_def)
qed

lemma nn_distance_ok: "\<exists>d. nn_distance dm cur loc = Inr d"
  using location_index_ok [of dm cur] location_index_ok [of dm loc]
  by (auto simp: nn_distance_def idx_ok_def distance_miles_ok split: option.splits)

lemma nn_best_ok: "\<exists>r. nn_best dm cur ivs b = Inr r"
proof (induction ivs arbitrary: b)
  case Nil
  then show ?case by simp
next
  case (Cons iv ivs)
  obtain i venue where iv: "iv = (i, venue)" by (cases iv)
  obtain bi bd where b: "b = (bi, bd)" by (cases b)
  show ?case
  proof (cases "Venue_location venue")
    case None
    then show ?thesis using Cons.IH by (simp add: iv b)
  next
    case (Some loc)
    obtain d where "nn_distance dm cur loc = Inr d" using nn_distance_ok by blast
    then show ?thesis using Some Cons.IH by (simp add: iv b)
  qed
qed

lemma nn_loop_ok: "\<exists>r. nn_loop dm cur rem ord = Inr r"
proof (induction dm cur rem ord rule: nn_loop.induct)
  case (1 dm cur rem ord)
  show ?case
  proof (cases "rem = []")
    case True
    then show ?thesis by (simp add: nn_loop.simps)
  next
    case False
    obtain bi bd where nb: "nn_best dm cur (enumerate rem) (0, None) = Inr (bi, bd)"
      using nn_best_ok [of dm cur "enumerate rem" "(0, None)"] by fastforce
    have "\<exists>r. nn_loop dm (case Venue_location (rem ! bi) of None \<Rightarrow> cur | Some loc \<Rightarrow> loc)
                 (take bi rem @ drop (Suc bi) rem) (ord @ [rem ! bi]) = Inr r"
      using "1.IH" [OF False nb refl refl refl] .
    then show ?thesis
      using False nb by (subst nn_loop.simps) (simp add: Let_def)
  qed
qed

lemma order_cluster_ok: "cl \<noteq> [] \<Longrightarrow> \<exists>r. order_cluster hubs dm cl = Inr r"
  using nn_loop_ok
  by (auto simp: order_cluster_def order_stops_nn_def split: list.splits option.splits)

lemma extend_cluster_nonempty:
  "extend_cluster loc r ms cands (cl, assigned) = (cl', assigned') \<Longrightarrow> cl \<noteq> [] \<Longrightarrow> cl' \<noteq> []"
  by (induction cands arbitrary: cl assigned) (auto split: if_splits option.splits)

lemma cluster_loop_ok: "\<exists>res. cluster_loop hubs dm r ms valid vs st = Inr res"
proof (induction vs arbitrary: st)
  case Nil
  then show ?case by simp
next
  case (Cons venue vs)
  obtain assigned clusters where st: "st = (assigned, clusters)" by (cases st)
  show ?case
  proof (cases "ven_id venue \<in> assigned")
    case True
    then show ?thesis using Cons.IH by (simp add: st)
  next
    case na: False
    show ?thesis
    proof (cases "Venue_location venue")
      case None
      then show ?thesis using na Cons.IH by (simp add: st)
    next
      case (Some loc)
      obtain cl a' where ec: "extend_cluster loc r ms valid
                                ([venue], insert (ven_id venue) assigned) = (cl, a')"
        by (cases "extend_cluster loc r ms valid ([venue], insert (ven_id venue) assigned)")
      then have "cl \<noteq> []" using extend_cluster_nonempty by blast
      then obtain ordered where "order_cluster hubs dm cl = Inr ordered"
        using order_cluster_ok by blast
      then show ?thesis using na Some ec Cons.IH by (simp add: st)
    qed
  qed
qed

lemma cluster_venues_ok: "\<exists>res. cluster_venues venues hubs dm r ms = Inr res"
proof -
  let ?valid = "sort_desc lt_inf (\<lambda>v. nearest_hub_distance v hubs)
                  (filter (\<lambda>v. Venue_location v \<noteq> None) venues)"
  obtain a cls where "cluster_loop hubs dm r ms ?valid ?valid ({}, []) = Inr (a, cls)"
    using cluster_loop_ok [of hubs dm r ms ?valid ?valid "({}, [])"] by fastforce
  then show ?thesis by (simp add: cluster_venues_def Let_def)
qed

lemma cluster_venues_default_ok: "\<exists>res. cluster_venues_default venues hubs dm = Inr res"
  unfolding cluster_venues_default_def by (rule cluster_venues_ok)

lemma week0_loop_ok:
  assumes "solver_ok s"
  shows "\<exists>st'. week0_loop s el wd dm c t passes st = Inr st'"
proof (induction passes arbitrary: st)
  case Nil
  then show ?case by simp
next
  case (Cons p passes)
  let ?rem = "remaining_demands_of (demands c) (w0_served_set st)"
  obtain cls where cv: "cluster_venues_default
         (filter (\<lambda>v. ven_id v \<in> dem_venue_id ` set ?rem) (game_venues wd))
         (hub_locations wd) dm = Inr cls"
    using cluster_venues_default_ok by blast
  obtain r where ow: "optimize_week s wd dm (pass_constraints_of c ?rem) cls
                        (min t (t * 3 - el p)) (Some (w0_global_used_asset_ids st)) = Inr r"
    using optimize_week_ok [OF assms] by blast
  show ?case
    using cv ow Cons.IH by (simp add: Let_def)
qed

theorem optimize_week_returns:
  "solver_ok s \<Longrightarrow> \<exists>r. optimize_week s wd dm c clusters t pre = Inr r"
  by (rule optimize_week_ok)

theorem optimize_week0_returns:
  assumes "solver_ok s"
  shows "\<exists>r. optimize_week0 s el wd dm c clusters t = Inr r"
proof -
  obtain st where "week0_loop s el wd dm c t [1..<Suc MAX_PASSES]
                     \<lparr>w0_combined = OptimizationResult_default,
                      w0_global_used_asset_ids = {}, w0_served_set = {}\<rparr> = Inr st"
    using week0_loop_ok [OF assms] by blast
  then show ?thesis by (simp add: optimize_week0_def)
qed

theorem planner_returns_example:
  "solver_ok ex_solver
   \<and> (\<exists>r. optimize_week ex_solver wd dm c clusters t pre = Inr r)
   \<and> (\<exists>r. optimize_week0 ex_solver el wd dm c clusters t = Inr r)"
proof -
  have ok: "solver_ok ex_solver" by (simp add: solver_ok_def ex_solver_def)
  show ?thesis
    using ok optimize_week_returns [OF ok] optimize_week0_returns [OF ok] by blast
qed

section \<open>Blocked assets\<close>

lemma match_not_blocked:
  "match_asset_to_demand a item blocked tasks \<Longrightarrow> asset_id a \<notin> blocked"
  by (auto simp: match_asset_to_demand_def split: if_splits)

lemma match_loop_clean:
  "match_loop item blocked tasks avail (assigned, used, n) = (assigned', used', n')
     \<Longrightarrow> \<forall>a\<in>set assigned. asset_id a \<notin> blocked
     \<Longrightarrow> \<forall>a\<in>set assigned'. asset_id a \<notin> blocked"
proof (induction avail arbitrary: assigned used n)
  case Nil
  then show ?case by simp
next
  case (Cons x avail)
  show ?case
  proof (cases "asset_id x \<in> used")
    case True
    then show ?thesis using Cons.prems Cons.IH [of assigned used n] by simp
  next
    case nu: False
    show ?thesis
    proof (cases "ci_quantity item \<le> n")
      case True
      then show ?thesis using nu Cons.prems by simp
    next
      case q: False
      show ?thesis
      proof (cases "match_asset_to_demand x item blocked tasks")
        case True
        then have "\<forall>a\<in>set (assigned @ [x]). asset_id a \<notin> blocked"
          using Cons.prems(2) match_not_blocked by auto
        then show ?thesis
          using nu q True Cons.prems(1)
            Cons.IH [of "assigned @ [x]" "insert (asset_id x) used" "n + 1"]
          by simp
      next
        case False
        then show ?thesis using nu q Cons.prems Cons.IH [of assigned used n] by simp
      qed
    qed
  qed
qed

lemma assign_items_clean:
  "assign_items d avail c wd items (assigned, unassigned, used) = (assigned', unassigned', used')
     \<Longrightarrow> \<forall>a\<in>set assigned. asset_id a \<notin> blocked_asset_ids c
     \<Longrightarrow> \<forall>a\<in>set assigned'. asset_id a \<notin> blocked_asset_ids c"
proof (induction items arbitrary: assigned unassigned used)
  case Nil
  then show ?case by simp
next
  case (Cons item items)
  obtain a1 u1 n1 where ml:
    "match_loop item (blocked_asset_ids c) (wd_branding_tasks wd) avail (assigned, used, 0)
       = (a1, u1, n1)"
    by (metis prod_cases3)
  have "\<forall>a\<in>set a1. asset_id a \<notin> blocked_asset_ids c"
    using match_loop_clean [OF ml] Cons.prems(2) by simp
  then show ?case
    using Cons.prems(1) ml
      Cons.IH [of a1 "if n1 < ci_quantity item then unassigned @ [shortfall d item n1]
                      else unassigned" u1]
    by simp
qed

lemma assign_assets_clean:
  "assign_assets_to_demand d avail c wd = (assigned, un)
     \<Longrightarrow> \<forall>a\<in>set assigned. asset_id a \<notin> blocked_asset_ids c"
proof -
  assume run: "assign_assets_to_demand d avail c wd = (assigned, un)"
  obtain a1 un1 u1 where it:
    "assign_items d avail c wd (dem_items d) ([], [], {}) = (a1, un1, u1)"
    by (metis prod_cases3)
  have "\<forall>a\<in>set a1. asset_id a \<notin> blocked_asset_ids c"
    using assign_items_clean [OF it] by simp
  then show ?thesis using run it by (simp add: assign_assets_to_demand_def)
qed

lemma fold_take_asset_assets:
  "ta_asset_id ` set (g_trip_assets (fold take_asset as g))
     = ta_asset_id ` set (g_trip_assets g) \<union> asset_id ` set as"
  by (induction as arbitrary: g) (auto simp: take_asset_def)

lemma demand_step_clean:
  assumes "clean_assets c (g_trip_assets g)"
  shows "clean_assets c (g_trip_assets (demand_step wd c v d g))"
proof -
  let ?avail = "filter (\<lambda>a. asset_id a \<notin> g_used_asset_ids g) (assets_at_venue wd (ven_id v))
                 @ g_hub_assets g"
  obtain assigned un where run: "assign_assets_to_demand d ?avail c wd = (assigned, un)"
    by (cases "assign_assets_to_demand d ?avail c wd")
  have a: "\<forall>a\<in>set assigned. asset_id a \<notin> blocked_asset_ids c"
    using assign_assets_clean [OF run] .
  have "ta_asset_id ` set (g_trip_assets (demand_step wd c v d g))
      = ta_asset_id ` set (g_trip_assets g) \<union> asset_id ` set assigned"
    using run by (simp add: demand_step_def Let_def fold_take_asset_assets)
  then show ?thesis
    using assms a unfolding clean_assets_def by (metis (no_types, lifting) UnE imageE imageI)
qed

lemma fold_demand_step_clean:
  "clean_assets c (g_trip_assets g)
     \<Longrightarrow> clean_assets c (g_trip_assets (fold (demand_step wd c v) ds g))"
  by (induction ds arbitrary: g) (simp_all add: demand_step_clean)

lemma venue_step_clean:
  "clean_assets c (g_trip_assets g) \<Longrightarrow> clean_assets c (g_trip_assets (venue_step wd c iv g))"
  by (cases iv)
     (auto simp: venue_step_def Let_def demand_step_clean fold_demand_step_clean
        split: list.splits)

lemma fold_venue_step_clean:
  "clean_assets c (g_trip_assets g)
     \<Longrightarrow> clean_assets c (g_trip_assets (fold (venue_step wd c) ivs g))"
  by (induction ivs arbitrary: g) (simp_all add: venue_step_clean)

lemma build_trip_with_vehicle_clean:
  assumes "build_trip_with_vehicle cl wd dm c u fv veh hub w0 = Inr ((Some t, un, ws), u')"
  shows "clean_assets c (assets t)"
proof -
  let ?start = "\<lparr>g_trip_assets = [], g_trip_stops = [], g_total_weight = 0,
              g_hub_assets = filter (\<lambda>a. asset_id a \<notin> used_asset_ids u)
                               (assets_at_hub wd (hub_id hub)),
              g_used_asset_ids = used_asset_ids u, g_all_unassigned = []\<rparr>"
  let ?fin = "fold (venue_step wd c) (enumerate (cl_venues cl)) ?start"
  have "clean_assets c (g_trip_assets ?start)" by (simp add: clean_assets_def)
  then have cg: "clean_assets c (g_trip_assets ?fin)" by (rule fold_venue_step_clean)
  have "assets t = g_trip_assets ?fin"
    using assms unfolding build_trip_with_vehicle_def Let_def
    by (auto split: if_splits sum.splits prod.splits)
  then show ?thesis using cg by simp
qed

lemma build_trip_for_cluster_clean:
  assumes "build_trip_for_cluster cl wd dm c u = Inr ((Some t, un, ws), u')"
  shows "clean_assets c (assets t)"
  using assms build_trip_with_vehicle_clean
  unfolding build_trip_for_cluster_def
  by (auto split: list.splits option.splits prod.splits)

lemma clusters_loop_clean:
  "clusters_loop wd dm c cls (res, u) = Inr (res', u') \<Longrightarrow> clean_trips c (trips res)
     \<Longrightarrow> clean_trips c (trips res')"
proof (induction cls arbitrary: res u)
  case Nil
  then show ?case by simp
next
  case (Cons cl cls)
  from Cons.prems(1) obtain trip un ws u1 where
    bt: "build_trip_for_cluster cl wd dm c u = Inr ((trip, un, ws), u1)"
    by (auto split: sum.splits)
  let ?res1 = "res\<lparr>trips := trips res @ (case trip of None \<Rightarrow> [] | Some t \<Rightarrow> [t]),
                    unassigned_demands := unassigned_demands res @ un,
                    warnings := warnings res @ ws\<rparr>"
  have "clean_trips c (trips ?res1)"
    using Cons.prems(2) bt build_trip_for_cluster_clean
    by (cases trip) (auto simp: clean_trips_def)
  moreover have "clusters_loop wd dm c cls (?res1, u1) = Inr (res', u')"
    using Cons.prems(1) bt by simp
  ultimately show ?case using Cons.IH by blast
qed

lemma reorder_trip_assets: "reorder_trip s dm t trip = Inr trip' \<Longrightarrow> assets trip' = assets trip"
  by (auto simp: reorder_trip_def split: if_splits sum.splits)

lemma map_err_reorder_assets:
  "map_err (reorder_trip s dm t) ts = Inr ts' \<Longrightarrow> map assets ts' = map assets ts"
  by (induction ts arbitrary: ts') (auto split: sum.splits dest: reorder_trip_assets)

lemma optimize_week_clean:
  assumes "optimize_week s wd dm c clusters t pre = Inr r"
  shows "clean_trips c (trips r)"
proof -
  let ?ordered = "sort_desc (<) cl_total_demand_weight
                    (map (\<lambda>cl. cl\<lparr>cl_total_demand_weight := cluster_demand_weight c cl\<rparr>) clusters)"
  let ?used = "\<lparr>used_vehicle_ids = {},
              used_asset_ids = (case pre of None \<Rightarrow> {} | Some s \<Rightarrow> s),
              used_person_ids = {}\<rparr>"
  from assms obtain res u ts where
    cl: "clusters_loop wd dm c ?ordered (OptimizationResult_default, ?used) = Inr (res, u)"
    and me: "map_err (reorder_trip s dm t) (trips res) = Inr ts"
    and r: "trips r = ts"
    unfolding optimize_week_def Let_def by (auto split: sum.splits)
  have "clean_trips c (trips OptimizationResult_default)"
    by (simp add: clean_trips_def OptimizationResult_default_def)
  then have "clean_trips c (trips res)" using clusters_loop_clean [OF cl] by simp
  moreover have "map assets ts = map assets (trips res)" using map_err_reorder_assets [OF me] .
  ultimately show ?thesis
    unfolding clean_trips_def r
    by (metis (no_types, lifting) image_iff list.set_map)
qed

lemma blocked_fold:
  "fold (\<lambda>bt blocked.
           if bt_status bt = ''pending'' \<or> bt_status bt = ''in_progress''
           then insert (bt_asset_id bt) blocked else blocked) tasks B
     = B \<union> {bt_asset_id bt | bt. bt \<in> set tasks
                \<and> (bt_status bt = ''pending'' \<or> bt_status bt = ''in_progress'')}"
  by (induction tasks arbitrary: B) auto

lemma blocked_build_constraints:
  "blocked_asset_ids (build_constraints wd)
     = {bt_asset_id bt | bt. bt \<in> set (wd_branding_tasks wd)
          \<and> (bt_status bt = ''pending'' \<or> bt_status bt = ''in_progress'')}"
  by (simp add: build_constraints_def blocked_of_tasks_def blocked_fold)

lemma week0_loop_clean:
  "week0_loop s el wd dm c t passes st = Inr st' \<Longrightarrow> clean_trips c (trips (w0_combined st))
     \<Longrightarrow> clean_trips c (trips (w0_combined st'))"
proof (induction passes arbitrary: st)
  case Nil
  then show ?case by simp
next
  case (Cons p passes)
  have pc: "clean_trips (pass_constraints_of c rem) ts = clean_trips c ts" for rem ts
    by (simp add: clean_trips_def clean_assets_def pass_constraints_of_def)
  have ow: "optimize_week s wd dm (pass_constraints_of c rem) cls tt pre = Inr r
      \<Longrightarrow> clean_trips c (trips r)" for rem cls tt pre r
    using optimize_week_clean [of s wd dm "pass_constraints_of c rem" cls tt pre r] pc by simp
  have app: "clean_trips c (xs @ ys) = (clean_trips c xs \<and> clean_trips c ys)" for xs ys
    by (auto simp: clean_trips_def)
  show ?case
    using Cons.prems Cons.IH ow
    by (auto simp: Let_def add_warning_def app split: if_splits sum.splits)
qed

text \<open>
  C3: the blocked set built from the week data holds exactly the assets that have a
  branding task with status pending or in_progress, and no trip of the initial run
  (the planner run on the constraints as built, in the regular and in the preseason
  variant) carries a blocked asset. That the run does return a result is
  \<open>optimize_week_returns\<close> and \<open>optimize_week0_returns\<close> above.
\<close>

theorem C3_blocked_assets_excluded:
  "blocked_asset_ids (build_constraints wd)
     = {bt_asset_id bt | bt. bt \<in> set (wd_branding_tasks wd)
          \<and> (bt_status bt = ''pending'' \<or> bt_status bt = ''in_progress'')}
   \<and> (optimize_week s wd dm (build_constraints wd) clusters t pre = Inr r
        \<longrightarrow> (\<forall>trip\<in>set (trips r). \<forall>a\<in>set (assets trip).
               ta_asset_id a \<notin> blocked_asset_ids (build_constraints wd)))
   \<and> (optimize_week0 s el wd dm (build_constraints wd) clusters t = Inr r0
        \<longrightarrow> (\<forall>trip\<in>set (trips r0). \<forall>a\<in>set (assets trip).
               ta_asset_id a \<notin> blocked_asset_ids (build_constraints wd)))"
proof (intro conjI impI)
  show "blocked_asset_ids (build_constraints wd)
     = {bt_asset_id bt | bt. bt \<in> set (wd_branding_tasks wd)
          \<and> (bt_status bt = ''pending'' \<or> bt_status bt = ''in_progress'')}"
    by (rule blocked_build_constraints)
next
  assume "optimize_week s wd dm (build_constraints wd) clusters t pre = Inr r"
  then have "clean_trips (build_constraints wd) (trips r)" by (rule optimize_week_clean)
  then show "\<forall>trip\<in>set (trips r). \<forall>a\<in>set (assets trip).
               ta_asset_id a \<notin> blocked_asset_ids (build_constraints wd)"
    by (simp add: clean_trips_def clean_assets_def)
next
  assume run: "optimize_week0 s el wd dm (build_constraints wd) clusters t = Inr r0"
  then obtain st where
    loop: "week0_loop s el wd dm (build_constraints wd) t [1..<Suc MAX_PASSES]
            \<lparr>w0_combined = OptimizationResult_default, w0_global_used_asset_ids = {},
             w0_served_set = {}\<rparr> = Inr st"
    and r0: "trips r0 = trips (w0_combined st)"
    by (auto simp: optimize_week0_def split: sum.splits)
  have "clean_trips (build_constraints wd) (trips (w0_combined st))"
    using week0_loop_clean [OF loop]
    by (simp add: clean_trips_def OptimizationResult_default_def)
  then show "\<forall>trip\<in>set (trips r0). \<forall>a\<in>set (assets trip).
               ta_asset_id a \<notin> blocked_asset_ids (build_constraints wd)"
    by (simp add: r0 clean_trips_def clean_assets_def)
qed

theorem C3_blocked_assets_excluded_witness:
  "''bench-2'' \<in> blocked_asset_ids
      (build_constraints (ex_week 3 [ex_game_far] [ex_bench ''2'', ex_bench ''1''] [ex_task]))
   \<and> (case optimize_week ex_solver
             (ex_week 3 [ex_game_far] [ex_bench ''2'', ex_bench ''1''] [ex_task]) ex_matrix
             (build_constraints
                (ex_week 3 [ex_game_far] [ex_bench ''2'', ex_bench ''1''] [ex_task]))
             [\<lparr>cl_venues = [ex_far], cl_total_demand_weight = 0,
               cl_ordered_venue_ids = [''ven-far'']\<rparr>] 30000 None of
        Inl e \<Rightarrow> False
      | Inr r \<Rightarrow> trips r \<noteq> []
                 \<and> ''bench-2'' \<notin> set (concat (map (\<lambda>t. map ta_asset_id (assets t)) (trips r))))"
proof -
  let ?wd = "ex_week 3 [ex_game_far] [ex_bench ''2'', ex_bench ''1''] [ex_task]"
  let ?cl = "[\<lparr>cl_venues = [ex_far], cl_total_demand_weight = 0,
               cl_ordered_venue_ids = [''ven-far'']\<rparr>]"
  have b: "''bench-2'' \<in> blocked_asset_ids (build_constraints ?wd)"
    by (simp add: build_constraints_def blocked_of_tasks_def ex_week_def ex_task_def)
  obtain r where run: "optimize_week ex_solver ?wd ex_matrix (build_constraints ?wd) ?cl
                         30000 None = Inr r"
    and ne: "trips r \<noteq> []"
    using ex_blocked_run by (auto split: sum.splits)
  have "\<forall>trip\<in>set (trips r). \<forall>a\<in>set (assets trip).
          ta_asset_id a \<notin> blocked_asset_ids (build_constraints ?wd)"
    using C3_blocked_assets_excluded [of ?wd ex_solver ex_matrix ?cl 30000 None r] run
    by blast
  then have "''bench-2'' \<notin> set (concat (map (\<lambda>t. map ta_asset_id (assets t)) (trips r)))"
    using b by auto
  then show ?thesis using b run ne by simp
qed

section \<open>Stop order\<close>

text \<open>
  C4: \<^verbatim>\<open>_build_trip_for_cluster\<close> numbers a stop by the position of its venue in the
  cluster, and skips a venue without demand without creating a stop. In the example the
  customer playing at the first venue of the cluster has no contract item: the trip has
  one stop and its \<^verbatim>\<open>stop_order\<close> is 2. The trip has fewer than three stops, so no
  reordering renumbers it.
\<close>

theorem C4_stop_order_gap:
  "(case optimize_week ex_solver
           (ex_week 3 [ex_game_near, ex_game_far] [ex_bench ''1'', ex_bench ''2''] [])
           ex_matrix
           (build_constraints
              (ex_week 3 [ex_game_near, ex_game_far] [ex_bench ''1'', ex_bench ''2''] []))
           [\<lparr>cl_venues = [ex_near, ex_far], cl_total_demand_weight = 0,
             cl_ordered_venue_ids = [''ven-near'', ''ven-far'']\<rparr>] 30000 None of
      Inl e \<Rightarrow> None
    | Inr r \<Rightarrow> Some (map (\<lambda>t. map (\<lambda>s. (venue_id s, stop_order s)) (stops t)) (trips r)))
   = Some [[(''ven-far'', 2)]]"
  by (simp add: ex_defs loader_defs matrix_defs constraint_defs planner_defs Let_def
      str_nat_small)

section \<open>Preseason passes\<close>

text \<open>
  C2: the served set receives the (venue, customer) pair of every stop that has a demand,
  whether or not the demand was fully served. In the example the contract asks for two
  benches and one exists: the first pass leaves one bench unassigned, yet the pair is
  marked as served, the second pass finds no remaining demand, and the combined result
  is "completed" with no unassigned demand.
\<close>

theorem C2_partial_demand_marked_served:
  "(case optimize_week ex_solver (ex_week 0 [ex_game_far] [ex_bench ''1''] []) ex_matrix
           (build_constraints (ex_week 0 [ex_game_far] [ex_bench ''1''] []))
           [\<lparr>cl_venues = [ex_far], cl_total_demand_weight = 0,
             cl_ordered_venue_ids = [''ven-far'']\<rparr>] 30000 None of
      Inl e \<Rightarrow> None
    | Inr r \<Rightarrow> Some (map ud_reason (unassigned_demands r)))
   = Some [''Only 1 of 2 heated_bench available'']
   \<and> (case week0_loop ex_solver (\<lambda>k. 0) (ex_week 0 [ex_game_far] [ex_bench ''1''] []) ex_matrix
             (build_constraints (ex_week 0 [ex_game_far] [ex_bench ''1''] [])) 30000 [1]
             \<lparr>w0_combined = OptimizationResult_default, w0_global_used_asset_ids = {},
              w0_served_set = {}\<rparr> of
        Inl e \<Rightarrow> None
      | Inr st \<Rightarrow> Some (w0_served_set st))
     = Some {(''ven-far'', ''cust-a'')}
   \<and> (case optimize_week0 ex_solver (\<lambda>k. 0) (ex_week 0 [ex_game_far] [ex_bench ''1''] [])
             ex_matrix (build_constraints (ex_week 0 [ex_game_far] [ex_bench ''1''] []))
             [\<lparr>cl_venues = [ex_far], cl_total_demand_weight = 0,
               cl_ordered_venue_ids = [''ven-far'']\<rparr>] 30000 of
        Inl e \<Rightarrow> None
      | Inr r \<Rightarrow> Some (status r, unassigned_demands r,
                        map (\<lambda>t. map ta_asset_id (assets t)) (trips r)))
     = Some (''completed'', [], [[''bench-1'']])"
proof (intro conjI)
  show "(case optimize_week ex_solver (ex_week 0 [ex_game_far] [ex_bench ''1''] []) ex_matrix
           (build_constraints (ex_week 0 [ex_game_far] [ex_bench ''1''] []))
           [\<lparr>cl_venues = [ex_far], cl_total_demand_weight = 0,
             cl_ordered_venue_ids = [''ven-far'']\<rparr>] 30000 None of
      Inl e \<Rightarrow> None
    | Inr r \<Rightarrow> Some (map ud_reason (unassigned_demands r)))
   = Some [''Only 1 of 2 heated_bench available'']"
    by (simp add: ex_defs loader_defs matrix_defs constraint_defs planner_defs Let_def
        str_nat_small)
next
  show "(case week0_loop ex_solver (\<lambda>k. 0) (ex_week 0 [ex_game_far] [ex_bench ''1''] []) ex_matrix
             (build_constraints (ex_week 0 [ex_game_far] [ex_bench ''1''] [])) 30000 [1]
             \<lparr>w0_combined = OptimizationResult_default, w0_global_used_asset_ids = {},
              w0_served_set = {}\<rparr> of
        Inl e \<Rightarrow> None
      | Inr st \<Rightarrow> Some (w0_served_set st))
     = Some {(''ven-far'', ''cust-a'')}"
    by (simp add: ex_defs loader_defs matrix_defs constraint_defs planner_defs cluster_defs
        Let_def str_nat_small remaining_demands_of_def pass_constraints_of_def mark_served_def
        consume_assets_def add_warning_def has_unassigned_def)
next
  show "(case optimize_week0 ex_solver (\<lambda>k. 0) (ex_week 0 [ex_game_far] [ex_bench ''1''] [])
             ex_matrix (build_constraints (ex_week 0 [ex_game_far] [ex_bench ''1''] []))
             [\<lparr>cl_venues = [ex_far], cl_total_demand_weight = 0,
               cl_ordered_venue_ids = [''ven-far'']\<rparr>] 30000 of
        Inl e \<Rightarrow> None
      | Inr r \<Rightarrow> Some (status r, unassigned_demands r,
                        map (\<lambda>t. map ta_asset_id (assets t)) (trips r)))
     = Some (''completed'', [], [[''bench-1'']])"
    unfolding optimize_week0_def passes_b
    by (simp add: ex_defs loader_defs matrix_defs constraint_defs planner_defs cluster_defs
        Let_def str_nat_small remaining_demands_of_def pass_constraints_of_def mark_served_def
        consume_assets_def add_warning_def has_unassigned_def)
qed

section \<open>The haversine fallback of the distance matrix\<close>

text \<open>On the equator the haversine distance of two points is the arc between them.\<close>

lemma haversine_equator:
  assumes "lat a = 0" "lat b = 0" "0 \<le> lng b - lng a" "lng b - lng a \<le> 180"
  shows "haversine_miles a b = 3959 * radians (lng b - lng a)"
proof -
  let ?x = "radians (lng b - lng a) / 2"
  have x0: "0 \<le> ?x" using assms(3) by (simp add: radians_def)
  have "(lng b - lng a) * pi \<le> 180 * pi" using assms(4) by simp
  then have x1: "?x \<le> pi / 2" by (simp add: radians_def)
  have s: "0 \<le> sin ?x" using x0 x1 by (intro sin_ge_zero) (auto intro: order_trans)
  have key: "arcsin \<bar>sin ?x\<bar> = ?x"
    using s x0 x1 by (simp add: arcsin_sin)
  have "haversine_miles a b = 2 * 3959 * arcsin \<bar>sin ?x\<bar>"
    using assms(1,2)
    by (simp add: haversine_miles_def haversine_miles4_def Let_def radians_def)
  also have "\<dots> = 2 * 3959 * ?x" by (simp only: key)
  also have "\<dots> = 3959 * radians (lng b - lng a)" by simp
  finally show ?thesis .
qed

lemma estimate_positive:
  assumes "4 / 100 \<le> haversine_miles a b"
  shows "0 < de_distance_miles (haversine_estimate a b)
       \<and> 0 < de_duration_minutes (haversine_estimate a b)"
proof -
  have "1 / 20 < haversine_miles a b * 13 / 10" using assms by simp
  then have a: "0 < py_round (haversine_miles a b * 13 / 10) 1" by (rule py_round_pos)
  have "1 / 20 < haversine_miles a b * 13 / 10 / 50 * 60" using assms by simp
  then have b: "0 < py_round (haversine_miles a b * 13 / 10 / 50 * 60) 1"
    by (rule py_round_pos)
  show ?thesis
    unfolding haversine_estimate_def Let_def DistanceEntry.select_convs using a b by blast
qed

lemma fold_fill:
  "\<forall>p\<in>set ps. fst p < length (dm_locations m) \<and> snd p < length (dm_locations m)
     \<Longrightarrow> \<exists>m'. fold_err fill_estimate ps m = Inr m' \<and> dm_locations m' = dm_locations m
           \<and> (\<forall>q. dm_data m' q
                  = (if q \<in> set ps
                     then Some (haversine_estimate (dm_locations m ! fst q)
                                  (dm_locations m ! snd q))
                     else dm_data m q))"
proof (induction ps arbitrary: m)
  case Nil
  then show ?case by simp
next
  case (Cons p ps)
  obtain i j where p: "p = (i, j)" by (cases p)
  let ?m1 = "m\<lparr>dm_data := (dm_data m)((i, j) \<mapsto>
               haversine_estimate (dm_locations m ! i) (dm_locations m ! j))\<rparr>"
  have step: "fill_estimate p m = Inr ?m1"
    using Cons.prems by (simp add: p fill_estimate_def dm_set_def)
  have "\<forall>p\<in>set ps. fst p < length (dm_locations ?m1) \<and> snd p < length (dm_locations ?m1)"
    using Cons.prems by simp
  from Cons.IH [OF this] obtain m' where
    m': "fold_err fill_estimate ps ?m1 = Inr m'" "dm_locations m' = dm_locations ?m1"
    "\<forall>q. dm_data m' q = (if q \<in> set ps
                     then Some (haversine_estimate (dm_locations ?m1 ! fst q)
                                  (dm_locations ?m1 ! snd q))
                     else dm_data ?m1 q)"
    by blast
  have "fold_err fill_estimate (p # ps) m = Inr m'" using step m'(1) by simp
  moreover have "dm_locations m' = dm_locations m" using m'(2) by simp
  moreover have "\<forall>q. dm_data m' q
                  = (if q \<in> set (p # ps)
                     then Some (haversine_estimate (dm_locations m ! fst q)
                                  (dm_locations m ! snd q))
                     else dm_data m q)"
    using m'(3) by (auto simp: p)
  ultimately show ?case by blast
qed

lemma missing_pairs_set:
  "set (missing_pairs m)
     = {(i, j). i < length (dm_locations m) \<and> j < length (dm_locations m) \<and> i \<noteq> j
                \<and> dm_data m (i, j) = None}"
  by (auto simp: missing_pairs_def Let_def)

lemma fallback_matrix:
  "\<exists>m. get_distance_matrix [] [] provider locs = Inr m \<and> dm_locations m = locs
     \<and> (\<forall>i<length locs. \<forall>j<length locs.
           dm_get m i j
             = Inr (if i = j then \<lparr>de_distance_miles = 0, de_duration_minutes = 0\<rparr>
                    else haversine_estimate (locs ! i) (locs ! j)))"
proof (cases "length locs \<le> 1")
  case True
  then have "get_distance_matrix [] [] provider locs = Inr (DistanceMatrix_init locs)"
    by (simp add: get_distance_matrix_def Let_def)
  moreover have "\<forall>i<length locs. \<forall>j<length locs.
           dm_get (DistanceMatrix_init locs) i j
             = Inr (if i = j then \<lparr>de_distance_miles = 0, de_duration_minutes = 0\<rparr>
                    else haversine_estimate (locs ! i) (locs ! j))"
    by (simp add: dm_get_def DistanceMatrix_init_def)
  ultimately show ?thesis by (simp add: DistanceMatrix_init_def)
next
  case False
  let ?m0 = "DistanceMatrix_init locs"
  have loc0: "dm_locations ?m0 = locs" by (simp add: DistanceMatrix_init_def)
  have ms: "set (missing_pairs ?m0) = {(i, j). i < length locs \<and> j < length locs \<and> i \<noteq> j}"
    by (auto simp: missing_pairs_set DistanceMatrix_init_def)
  have l: "0 < length locs" "1 < length locs" using False by linarith+
  have "(0, 1) \<in> set (missing_pairs ?m0)" using l by (simp add: ms del: length_greater_0_conv)
  then have ne: "missing_pairs ?m0 \<noteq> []" by auto
  have "\<forall>p\<in>set (missing_pairs ?m0). fst p < length (dm_locations ?m0)
          \<and> snd p < length (dm_locations ?m0)"
    by (auto simp: ms loc0)
  from fold_fill [OF this] obtain m where
    raw: "fold_err fill_estimate (missing_pairs ?m0) ?m0 = Inr m"
    "dm_locations m = dm_locations ?m0"
    "\<forall>q. dm_data m q = (if q \<in> set (missing_pairs ?m0)
                     then Some (haversine_estimate (dm_locations ?m0 ! fst q)
                                  (dm_locations ?m0 ! snd q))
                     else dm_data ?m0 q)"
    by blast
  have m: "fold_err fill_estimate (missing_pairs ?m0) ?m0 = Inr m" "dm_locations m = locs"
    "\<forall>q. dm_data m q = (if q \<in> set (missing_pairs ?m0)
                     then Some (haversine_estimate (locs ! fst q) (locs ! snd q))
                     else dm_data ?m0 q)"
    using raw unfolding loc0 by blast+
  have "locs \<noteq> []" using False by (cases locs) simp_all
  then have "get_distance_matrix [] [] provider locs = Inr m"
    using False ne m(1)
    by (simp add: get_distance_matrix_def Let_def fetch_from_google_maps_def)
  moreover have "\<forall>i<length locs. \<forall>j<length locs.
           dm_get m i j
             = Inr (if i = j then \<lparr>de_distance_miles = 0, de_duration_minutes = 0\<rparr>
                    else haversine_estimate (locs ! i) (locs ! j))"
  proof (intro allI impI)
    fix i j
    assume ij: "i < length locs" "j < length locs"
    have "dm_data m (i, j)
        = (if (i, j) \<in> set (missing_pairs ?m0)
           then Some (haversine_estimate (locs ! fst (i, j)) (locs ! snd (i, j)))
           else dm_data ?m0 (i, j))"
      using m(3) by blast
    then have "dm_data m (i, j)
        = (if i \<noteq> j then Some (haversine_estimate (locs ! i) (locs ! j))
           else dm_data ?m0 (i, j))"
      unfolding ms using ij by simp
    then have "dm_data m (i, j)
        = (if i \<noteq> j then Some (haversine_estimate (locs ! i) (locs ! j))
           else Some \<lparr>de_distance_miles = 0, de_duration_minutes = 0\<rparr>)"
      using ij by (simp add: DistanceMatrix_init_def)
    then show "dm_get m i j
             = Inr (if i = j then \<lparr>de_distance_miles = 0, de_duration_minutes = 0\<rparr>
                    else haversine_estimate (locs ! i) (locs ! j))"
      using ij m(2) by (simp add: dm_get_def)
  qed
  ultimately show ?thesis using m(2) by blast
qed

lemma ex_equator_far:
  "haversine_miles \<lparr>lat = 0, lng = 0, label = ''A''\<rparr> \<lparr>lat = 0, lng = 1, label = ''C''\<rparr>
     = 3959 * pi / 180"
  using haversine_equator
    [of "\<lparr>lat = 0, lng = 0, label = ''A''\<rparr>" "\<lparr>lat = 0, lng = 1, label = ''C''\<rparr>"]
  by (simp add: radians_def)

lemma ex_equator_close:
  "haversine_miles \<lparr>lat = 0, lng = 0, label = ''A''\<rparr>
     \<lparr>lat = 0, lng = 1 / 100000, label = ''B''\<rparr>
     = 3959 * pi / (180 * 100000)"
  using haversine_equator
    [of "\<lparr>lat = 0, lng = 0, label = ''A''\<rparr>" "\<lparr>lat = 0, lng = 1 / 100000, label = ''B''\<rparr>"]
  by (simp add: radians_def)

lemma ex_close_estimate:
  "haversine_estimate \<lparr>lat = 0, lng = 0, label = ''A''\<rparr>
     \<lparr>lat = 0, lng = 1 / 100000, label = ''B''\<rparr>
   = \<lparr>de_distance_miles = 0, de_duration_minutes = 0\<rparr>"
proof -
  have p: "0 < pi" "pi < 4" using pi_gt_zero pi_less_4 by auto
  have a: "py_round (3959 * pi / (180 * 100000) * 13 / 10) 1 = 0"
    using p by (intro py_round_zero) simp_all
  have b: "py_round (3959 * pi / (180 * 100000) * 13 / 10 / 50 * 60) 1 = 0"
    using p by (intro py_round_zero) simp_all
  show ?thesis
    unfolding haversine_estimate_def Let_def ex_equator_close using a b by simp
qed

text \<open>
  C9 (as stated): with the provider disabled and no cache entry, every off-diagonal
  lookup over a list of unique locations returns strictly positive miles and minutes.
  Two points on the equator 0.00001 degrees of longitude apart are distinct locations
  (their rounded coordinates differ); their great-circle distance is about 0.0007 miles,
  and the fallback rounds the road miles and the minutes to one decimal: both are 0.0.
\<close>

theorem C9_positive_counterexample:
  "unique_locations [\<lparr>lat = 0, lng = 0, label = ''A''\<rparr>,
                     \<lparr>lat = 0, lng = 1 / 100000, label = ''B''\<rparr>] {}
     = [\<lparr>lat = 0, lng = 0, label = ''A''\<rparr>, \<lparr>lat = 0, lng = 1 / 100000, label = ''B''\<rparr>]
   \<and> (case get_distance_matrix [] [] (\<lambda>origins destinations. [])
             [\<lparr>lat = 0, lng = 0, label = ''A''\<rparr>,
              \<lparr>lat = 0, lng = 1 / 100000, label = ''B''\<rparr>] of
        Inl e \<Rightarrow> None
      | Inr m \<Rightarrow> (case dm_get m 0 1 of
                    Inl e \<Rightarrow> None
                  | Inr e \<Rightarrow> Some (de_distance_miles e, de_duration_minutes e)))
     = Some (0, 0)"
proof -
  let ?locs = "[\<lparr>lat = 0, lng = 0, label = ''A''\<rparr>,
                \<lparr>lat = 0, lng = 1 / 100000, label = ''B''\<rparr>]"
  have u: "unique_locations ?locs {} = ?locs"
    by (simp add: Let_def py_round_def py_round_int_def)
  obtain m where m: "get_distance_matrix [] [] (\<lambda>origins destinations. []) ?locs = Inr m"
    "\<forall>i<length ?locs. \<forall>j<length ?locs.
           dm_get m i j
             = Inr (if i = j then \<lparr>de_distance_miles = 0, de_duration_minutes = 0\<rparr>
                    else haversine_estimate (?locs ! i) (?locs ! j))"
    using fallback_matrix [of "\<lambda>origins destinations. []" ?locs] by blast
  have "dm_get m 0 1 = Inr (haversine_estimate (?locs ! 0) (?locs ! 1))"
    using m(2) by simp
  then have "dm_get m 0 1 = Inr \<lparr>de_distance_miles = 0, de_duration_minutes = 0\<rparr>"
    by (simp add: ex_close_estimate)
  then show ?thesis using u m(1) by simp
qed

text \<open>
  C9 (amended): with the provider disabled (empty API key) and no cache entry,
  \<^verbatim>\<open>get_distance_matrix\<close> returns a matrix over the given locations in which every
  diagonal lookup is (0,0) and every off-diagonal lookup is the haversine fallback:
  great-circle miles times 1.3, and that road distance / 50 * 60 minutes, each rounded to
  one decimal. Both values are strictly positive when the great-circle distance is at
  least 0.04 miles.
\<close>

theorem C9_fallback_entries:
  "\<exists>m. get_distance_matrix [] [] provider locs = Inr m \<and> dm_locations m = locs
     \<and> (\<forall>i<length locs. \<forall>j<length locs.
           dm_get m i j
             = Inr (if i = j then \<lparr>de_distance_miles = 0, de_duration_minutes = 0\<rparr>
                    else \<lparr>de_distance_miles =
                            py_round (haversine_miles (locs ! i) (locs ! j) * 13 / 10) 1,
                          de_duration_minutes =
                            py_round (haversine_miles (locs ! i) (locs ! j) * 13 / 10 / 50 * 60)
                              1\<rparr>)
           \<and> (i \<noteq> j \<and> 4 / 100 \<le> haversine_miles (locs ! i) (locs ! j)
                \<longrightarrow> (\<exists>e. dm_get m i j = Inr e \<and> 0 < de_distance_miles e
                          \<and> 0 < de_duration_minutes e)))"
proof -
  obtain m where m: "get_distance_matrix [] [] provider locs = Inr m" "dm_locations m = locs"
    "\<forall>i<length locs. \<forall>j<length locs.
           dm_get m i j
             = Inr (if i = j then \<lparr>de_distance_miles = 0, de_duration_minutes = 0\<rparr>
                    else haversine_estimate (locs ! i) (locs ! j))"
    using fallback_matrix by blast
  have "\<forall>i<length locs. \<forall>j<length locs.
           dm_get m i j
             = Inr (if i = j then \<lparr>de_distance_miles = 0, de_duration_minutes = 0\<rparr>
                    else \<lparr>de_distance_miles =
                            py_round (haversine_miles (locs ! i) (locs ! j) * 13 / 10) 1,
                          de_duration_minutes =
                            py_round (haversine_miles (locs ! i) (locs ! j) * 13 / 10 / 50 * 60)
                              1\<rparr>)
           \<and> (i \<noteq> j \<and> 4 / 100 \<le> haversine_miles (locs ! i) (locs ! j)
                \<longrightarrow> (\<exists>e. dm_get m i j = Inr e \<and> 0 < de_distance_miles e
                          \<and> 0 < de_duration_minutes e))"
    using m(3) estimate_positive by (auto simp: haversine_estimate_def Let_def)
  then show ?thesis using m(1,2) by blast
qed

theorem C9_fallback_entries_witness:
  "(case get_distance_matrix [] [] (\<lambda>origins destinations. [])
           [\<lparr>lat = 0, lng = 0, label = ''A''\<rparr>, \<lparr>lat = 0, lng = 1, label = ''C''\<rparr>] of
      Inl e \<Rightarrow> False
    | Inr m \<Rightarrow> (case dm_get m 0 1 of
                  Inl e \<Rightarrow> False
                | Inr e \<Rightarrow> 0 < de_distance_miles e \<and> 0 < de_duration_minutes e)
               \<and> dm_get m 1 1 = Inr \<lparr>de_distance_miles = 0, de_duration_minutes = 0\<rparr>)"
proof -
  let ?locs = "[\<lparr>lat = 0, lng = 0, label = ''A''\<rparr>, \<lparr>lat = 0, lng = 1, label = ''C''\<rparr>]"
  have far: "4 / 100 \<le> haversine_miles (?locs ! 0) (?locs ! 1)"
    using pi_ge_two by (simp add: ex_equator_far)
  obtain m where m: "get_distance_matrix [] [] (\<lambda>origins destinations. []) ?locs = Inr m"
    and all: "\<forall>i<length ?locs. \<forall>j<length ?locs.
           dm_get m i j
             = Inr (if i = j then \<lparr>de_distance_miles = 0, de_duration_minutes = 0\<rparr>
                    else \<lparr>de_distance_miles =
                            py_round (haversine_miles (?locs ! i) (?locs ! j) * 13 / 10) 1,
                          de_duration_minutes =
                            py_round (haversine_miles (?locs ! i) (?locs ! j) * 13 / 10 / 50 * 60)
                              1\<rparr>)
           \<and> (i \<noteq> j \<and> 4 / 100 \<le> haversine_miles (?locs ! i) (?locs ! j)
                \<longrightarrow> (\<exists>e. dm_get m i j = Inr e \<and> 0 < de_distance_miles e
                          \<and> 0 < de_duration_minutes e))"
    using C9_fallback_entries [of "\<lambda>origins destinations. []" ?locs] by blast
  have "\<exists>e. dm_get m 0 1 = Inr e \<and> 0 < de_distance_miles e \<and> 0 < de_duration_minutes e"
  proof -
    have len: "(0::nat) < length ?locs" "(1::nat) < length ?locs" by simp_all
    have "(0::nat) \<noteq> 1 \<and> 4 / 100 \<le> haversine_miles (?locs ! 0) (?locs ! 1)"
      using far by simp
    then show ?thesis using all [rule_format, OF len] by blast
  qed
  moreover have "dm_get m 1 1 = Inr \<lparr>de_distance_miles = 0, de_duration_minutes = 0\<rparr>"
  proof -
    have len: "(1::nat) < length ?locs" by simp
    show ?thesis using all [rule_format, OF len len] by simp
  qed
  ultimately show ?thesis using m by auto
qed

end
